(* ===== verification/Prelude.thy ===== *)
theory Prelude
  imports Main "HOL-Library.Word"
begin

text \<open>
  Shared vocabulary of the development: the machine integers of the C sources, addresses
  and nullable pointers, the kernel's error codes as values, the primitives of the kernel's
  own core headers that every modelled file uses (\<^verbatim>\<open>ALIGN\<close>, \<^verbatim>\<open>fls\<close>, reference counters), and
  the list, map and word lemmas the component proofs share.

  Three collections carry the component proofs:
  \<^item> \<open>klist\<close>: facts about scanning and updating lists of nodes;
  \<^item> \<open>kword\<close>: facts that move word arithmetic to \<open>nat\<close>;
  \<^item> \<open>kinv\<close>: preservation lemmas of component invariants.
\<close>

unbundle bit_operations_syntax

named_theorems klist \<open>scanning and updating lists of nodes\<close>
named_theorems kword \<open>word arithmetic read as natural numbers\<close>
named_theorems kinv \<open>preservation of component invariants\<close>

section \<open>Types of the C sources\<close>

type_synonym u8 = "8 word"
type_synonym u16 = "16 word"
type_synonym u32 = "32 word"
type_synonym u64 = "64 word"

text \<open>A C \<^verbatim>\<open>int\<close> and a C \<^verbatim>\<open>long\<close> (x86-64, LP64) keep their width; \<open>sint\<close> reads them as signed.\<close>

type_synonym c_int = "32 word"
type_synonym c_long = "64 word"

text \<open>Objects of the kernel heap are named by natural numbers; a nullable pointer is an option.\<close>

type_synonym addr = nat
type_synonym ptr = "addr option"

section \<open>Error codes\<close>

text \<open>
  The error codes of \<^verbatim>\<open>errno.h\<close> the sources mention, by name. \<open>Errno n\<close> stands for any other
  code a function outside the repository may return. An \<^verbatim>\<open>int\<close> that is zero or a negated error
  code is a \<open>kret\<close>: \<open>None\<close> is the success value 0. A pointer that may be an \<^verbatim>\<open>ERR_PTR\<close> is
  \<open>errno + 'a\<close>, with \<open>Inl\<close> for the error.
\<close>

datatype errno =
    EINVAL | ENOMEM | EAGAIN | EINTR | EFAULT | EACCES | EBUSY | EEXIST | ENODEV
  | ESRCH | EMFILE | E2BIG | EBADF | ENOSYS | ENOPARAM | ERESTARTNOINTR | Errno nat

type_synonym kret = "errno option"

section \<open>Primitives of the kernel's core headers\<close>

text \<open>\<^verbatim>\<open>ALIGN(x, a)\<close> for a power of two: the wrap-around of \<^verbatim>\<open>unsigned long\<close> is the word's own.\<close>

definition ALIGN :: "u64 \<Rightarrow> u64 \<Rightarrow> u64" where
  "ALIGN x a = (x + (a - 1)) AND NOT (a - 1)"

text \<open>\<^verbatim>\<open>fls\<close>: the one-based position of the most significant set bit, 0 for 0.\<close>

fun fls_nat :: "nat \<Rightarrow> nat" where
  "fls_nat n = (if n = 0 then 0 else Suc (fls_nat (n div 2)))"

declare fls_nat.simps [simp del]

definition fls :: "u32 \<Rightarrow> nat" where
  "fls w = fls_nat (unat w)"

definition fls64 :: "u64 \<Rightarrow> nat" where
  "fls64 w = fls_nat (unat w)"

lemma fls_nat_0 [simp]: "fls_nat 0 = 0"
  by (subst fls_nat.simps) simp

lemma fls_nat_pos: "0 < n \<Longrightarrow> fls_nat n = Suc (fls_nat (n div 2))"
  by (subst fls_nat.simps) simp

lemma fls_nat_le_iff: "fls_nat n \<le> k \<longleftrightarrow> n < 2 ^ k"
proof (induction n arbitrary: k rule: fls_nat.induct)
  case (1 n)
  show ?case
  proof (cases "n = 0")
    case True
    then show ?thesis by simp
  next
    case False
    show ?thesis
    proof (cases k)
      case 0
      then show ?thesis using False by (simp add: fls_nat_pos)
    next
      case (Suc j)
      have "fls_nat n \<le> k \<longleftrightarrow> fls_nat (n div 2) \<le> j"
        using False Suc by (simp add: fls_nat_pos)
      also have "\<dots> \<longleftrightarrow> n div 2 < 2 ^ j"
        using "1.IH" False by blast
      also have "\<dots> \<longleftrightarrow> n < 2 ^ k"
        using Suc by (simp add: less_mult_imp_div_less div_less_iff_less_mult mult.commute)
      finally show ?thesis .
    qed
  qed
qed

lemma fls_nat_less: "n < 2 ^ fls_nat n"
  using fls_nat_le_iff [of n "fls_nat n"] by simp

lemma fls_nat_ge:
  assumes "0 < n"
  shows "2 ^ (fls_nat n - 1) \<le> n"
proof -
  have "\<not> fls_nat n \<le> fls_nat n - 1"
    using fls_nat_pos [OF assms] by simp
  then show ?thesis
    by (simp only: fls_nat_le_iff not_less)
qed

section \<open>Lists and maps\<close>

text \<open>
  \<open>find\<close> is the shape of every \<^verbatim>\<open>hlist_for_each_entry\<close> loop with a \<^verbatim>\<open>break\<close>: the first node
  that satisfies the test, or none.
\<close>

lemma find_SomeE [klist]: "find P xs = Some x \<Longrightarrow> x \<in> set xs \<and> P x"
  by (auto simp: find_Some_iff)

lemma find_NoneE [klist]: "find P xs = None \<longleftrightarrow> (\<forall>x \<in> set xs. \<not> P x)"
  by (auto simp: find_None_iff)

lemma find_unique [klist]:
  "x \<in> set xs \<Longrightarrow> P x \<Longrightarrow> (\<And>y. y \<in> set xs \<Longrightarrow> P y \<Longrightarrow> y = x) \<Longrightarrow> find P xs = Some x"
proof (induction xs)
  case Nil
  then show ?case by simp
next
  case (Cons a xs)
  then show ?case by (metis find.simps(2) list.set_intros set_ConsD)
qed

lemma find_cong_set [klist]:
  "(\<And>x. x \<in> set xs \<Longrightarrow> P x = Q x) \<Longrightarrow> find P xs = find Q xs"
  by (induction xs) auto

lemma inj_on_mapD: "distinct (map f xs) \<Longrightarrow> x \<in> set xs \<Longrightarrow> y \<in> set xs \<Longrightarrow> f x = f y \<Longrightarrow> x = y"
  by (auto simp: distinct_map dest: inj_onD)

section \<open>Words\<close>

lemma word_and_mask_less [kword]: "unat (w AND 1023 :: 32 word) < 1024"
proof -
  have "w AND 1023 \<le> (1023 :: 32 word)"
    by (rule word_and_le1)
  then have "unat (w AND 1023) \<le> unat (1023 :: 32 word)"
    by (simp add: word_le_nat_alt)
  then show ?thesis by simp
qed

lemma unat_add_no_wrap [kword]:
  fixes a b :: "'a :: len word"
  assumes "unat a + unat b < 2 ^ LENGTH('a)"
  shows "unat (a + b) = unat a + unat b"
  using assms by (simp add: unat_word_ariths)

lemma uint_less_of_unat: "unat (w :: 'a :: len word) < 2 ^ n \<Longrightarrow> uint w < 2 ^ n"
  by (metis of_nat_less_iff of_nat_numeral of_nat_power uint_nat)

lemma sint_ucast_small [kword]:
  assumes "unat (w :: u64) < 2 ^ 31"
  shows "sint (ucast w :: c_int) = int (unat w)"
proof -
  have u: "uint w < 2 ^ 31" by (rule uint_less_of_unat [OF assms])
  then have "uint (ucast w :: c_int) = uint w"
    by (simp add: unsigned_ucast_eq take_bit_int_eq_self)
  moreover have "signed_take_bit 31 (uint w) = uint w"
    by (rule signed_take_bit_int_eq_self [OF order_trans [OF _ uint_ge_0] u]) simp
  ultimately show ?thesis by (simp add: sint_uint)
qed

lemma unat_ucast_u32 [kword]: "unat (ucast (w :: u32) :: u64) = unat w"
proof -
  have "unat w < 2 ^ 32" using unsigned_less [of w] by simp
  then show ?thesis by (simp add: unsigned_ucast_eq take_bit_nat_eq_self)
qed

lemma mod_add_down: "m dvd n \<Longrightarrow> ((a :: int) + b) mod n mod m = (a mod n + b mod n) mod m"
  by (metis mod_add_eq mod_mod_cancel)

lemma ucast_int_add [kword]: "(ucast (a + b :: u64) :: c_int) = ucast a + ucast b"
  by transfer (simp add: take_bit_eq_mod mod_add_down)

lemma ucast_scast_id [kword]: "(ucast (scast (t :: c_int) :: u64) :: c_int) = t"
  by (rule bit_word_eqI) (auto simp: bit_simps)

end
