(* ===== verification/Sched.thy ===== *)
theory Sched
  imports Prelude
begin

text \<open>
  The data model of \<^verbatim>\<open>include/linux/sched.h\<close>: the task states and per-process flags with their
  values, \<^verbatim>\<open>struct kv_store\<close> and the fields of \<^verbatim>\<open>struct task_struct\<close> the modelled files read or
  write, and the inline operations on them. A task is named by its address; \<open>ts_*\<close> is the
  field \<^verbatim>\<open>*\<close> of the C structure (\<^verbatim>\<open>__state\<close> is \<open>ts_state\<close>). Lists that thread through the
  structure (\<^verbatim>\<open>children\<close>/\<^verbatim>\<open>sibling\<close>) are address lists held by the structure with the list head.
\<close>

section \<open>Task states and flags\<close>

abbreviation (input) TASK_RUNNING :: u32 where "TASK_RUNNING \<equiv> 0x0000"
abbreviation (input) TASK_INTERRUPTIBLE :: u32 where "TASK_INTERRUPTIBLE \<equiv> 0x0001"
abbreviation (input) TASK_UNINTERRUPTIBLE :: u32 where "TASK_UNINTERRUPTIBLE \<equiv> 0x0002"
abbreviation (input) TASK_STOPPED_bit :: u32 where "TASK_STOPPED_bit \<equiv> 0x0004"
abbreviation (input) TASK_TRACED_bit :: u32 where "TASK_TRACED_bit \<equiv> 0x0008"
abbreviation (input) EXIT_DEAD :: u32 where "EXIT_DEAD \<equiv> 0x0010"
abbreviation (input) EXIT_ZOMBIE :: u32 where "EXIT_ZOMBIE \<equiv> 0x0020"
abbreviation (input) EXIT_TRACE :: u32 where "EXIT_TRACE \<equiv> EXIT_ZOMBIE OR EXIT_DEAD"
abbreviation (input) TASK_PARKED :: u32 where "TASK_PARKED \<equiv> 0x0040"
abbreviation (input) TASK_DEAD :: u32 where "TASK_DEAD \<equiv> 0x0080"
abbreviation (input) TASK_WAKEKILL :: u32 where "TASK_WAKEKILL \<equiv> 0x0100"
abbreviation (input) TASK_WAKING :: u32 where "TASK_WAKING \<equiv> 0x0200"
abbreviation (input) TASK_NOLOAD :: u32 where "TASK_NOLOAD \<equiv> 0x0400"
abbreviation (input) TASK_NEW :: u32 where "TASK_NEW \<equiv> 0x0800"
abbreviation (input) TASK_RTLOCK_WAIT :: u32 where "TASK_RTLOCK_WAIT \<equiv> 0x1000"
abbreviation (input) TASK_KILLABLE :: u32 where "TASK_KILLABLE \<equiv> TASK_WAKEKILL OR TASK_UNINTERRUPTIBLE"
abbreviation (input) TASK_STOPPED :: u32 where "TASK_STOPPED \<equiv> TASK_WAKEKILL OR TASK_STOPPED_bit"
abbreviation (input) TASK_TRACED :: u32 where "TASK_TRACED \<equiv> TASK_WAKEKILL OR TASK_TRACED_bit"
abbreviation (input) TASK_IDLE :: u32 where "TASK_IDLE \<equiv> TASK_UNINTERRUPTIBLE OR TASK_NOLOAD"
abbreviation (input) TASK_REPORT :: u32 where
  "TASK_REPORT \<equiv> TASK_RUNNING OR TASK_INTERRUPTIBLE OR TASK_UNINTERRUPTIBLE OR
     TASK_STOPPED_bit OR TASK_TRACED_bit OR EXIT_DEAD OR EXIT_ZOMBIE OR TASK_PARKED"
abbreviation (input) TASK_REPORT_IDLE :: u32 where "TASK_REPORT_IDLE \<equiv> TASK_REPORT + 1"
abbreviation (input) TASK_REPORT_MAX :: u32 where "TASK_REPORT_MAX \<equiv> push_bit 1 TASK_REPORT_IDLE"

abbreviation (input) PF_IDLE :: u32 where "PF_IDLE \<equiv> 0x00000002"
abbreviation (input) PF_IO_WORKER :: u32 where "PF_IO_WORKER \<equiv> 0x00000010"
abbreviation (input) PF_WQ_WORKER :: u32 where "PF_WQ_WORKER \<equiv> 0x00000020"
abbreviation (input) PF_FORKNOEXEC :: u32 where "PF_FORKNOEXEC \<equiv> 0x00000040"
abbreviation (input) PF_SUPERPRIV :: u32 where "PF_SUPERPRIV \<equiv> 0x00000100"
abbreviation (input) PF_NPROC_EXCEEDED :: u32 where "PF_NPROC_EXCEEDED \<equiv> 0x00001000"
abbreviation (input) PF_USED_MATH :: u32 where "PF_USED_MATH \<equiv> 0x00002000"
abbreviation (input) PF_KTHREAD :: u32 where "PF_KTHREAD \<equiv> 0x00200000"
abbreviation (input) PF_NO_SETAFFINITY :: u32 where "PF_NO_SETAFFINITY \<equiv> 0x04000000"

section \<open>Structures\<close>

text \<open>
  \<^verbatim>\<open>struct kv_store\<close>: 1024 buckets, each a spinlock and an \<^verbatim>\<open>hlist\<close> of nodes. The two arrays are
  functions of the bucket number; \<open>Some t\<close> in \<open>kvs_locks\<close> is a lock held by the task at \<open>t\<close>.
\<close>

record kv_store =
  kvs_locks :: "nat \<Rightarrow> addr option"
  kvs_head :: "nat \<Rightarrow> addr list"

text \<open>
  The bits of \<^verbatim>\<open>thread_info.syscall_work\<close> that are set or cleared by name, and the seccomp state of
  a task. Signal sets (\<^verbatim>\<open>blocked\<close>, \<^verbatim>\<open>pending\<close>) are sets of signal numbers; \<open>ts_cpus_ptr_own\<close> says
  that \<^verbatim>\<open>cpus_ptr\<close> points to the task's own \<^verbatim>\<open>cpus_mask\<close>, \<open>ts_notify_resume\<close> that the thread flag
  \<^verbatim>\<open>TIF_NOTIFY_RESUME\<close> is set.
\<close>

datatype syscall_work = SW_SECCOMP | SW_SYSCALL_TRACE | SW_SYSCALL_EMU | SW_SYSCALL_USER_DISPATCH

record seccomp =
  sc_mode :: nat
  sc_filter :: ptr

record task_struct =
  ts_state :: u32
  ts_saved_state :: u32
  ts_stack :: ptr
  ts_usage :: int
  ts_flags :: u32
  ts_nr_cpus_allowed :: int
  ts_kv :: ptr
  ts_mm :: ptr
  ts_active_mm :: ptr
  ts_exit_state :: u32
  ts_exit_signal :: int
  ts_pdeath_signal :: int
  ts_atomic_flags :: u64
  ts_pid :: int
  ts_tgid :: int
  ts_real_parent :: addr
  ts_children :: "addr list"
  ts_group_leader :: addr
  ts_thread_pid :: ptr
  ts_vfork_done :: ptr
  ts_set_child_tid :: ptr
  ts_clear_child_tid :: ptr
  ts_utime :: u64
  ts_stime :: u64
  ts_gtime :: u64
  ts_nvcsw :: u64
  ts_nivcsw :: u64
  ts_min_flt :: u64
  ts_maj_flt :: u64
  ts_fs :: ptr
  ts_files :: ptr
  ts_nsproxy :: ptr
  ts_signal :: ptr
  ts_sighand :: ptr
  ts_seccomp :: seccomp
  ts_parent_exec_id :: u64
  ts_self_exec_id :: u64
  ts_io_context :: ptr
  ts_mempolicy :: ptr
  ts_rseq :: ptr
  ts_rseq_sig :: u32
  ts_rseq_event_mask :: u64
  ts_rcu_users :: int
  ts_timer_slack_ns :: u64
  ts_default_timer_slack_ns :: u64
  ts_stack_vm_area :: ptr
  ts_stack_refcount :: int
  ts_blocked :: "nat set"
  ts_pending :: "nat set"
  ts_thread_group :: "addr list"
  ts_stack_canary :: u64
  ts_splice_pipe :: ptr
  ts_task_frag_page :: ptr
  ts_wake_q_next :: ptr
  ts_pf_io_worker :: ptr
  ts_btrace_seq :: u32
  ts_throttle_queue :: ptr
  ts_use_memdelay :: bool
  ts_active_memcg :: ptr
  ts_cpus_ptr_own :: bool
  ts_rcu_read_lock_nesting :: int
  ts_rcu_read_unlock_special :: u32
  ts_rcu_blocked_node :: ptr
  ts_rcu_tasks_holdout :: bool
  ts_rcu_tasks_idle_cpu :: int
  ts_trc_reader_nesting :: int
  ts_trc_reader_special :: u32
  ts_pi_waiters :: "addr list"
  ts_pi_top_task :: ptr
  ts_pi_blocked_on :: ptr
  ts_io_uring :: ptr
  ts_psi_flags :: u32
  ts_audit_context :: ptr
  ts_cpuset_mem_spread_rotor :: int
  ts_cpuset_slab_spread_rotor :: int
  ts_pagefault_disabled :: int
  ts_bpf_storage :: ptr
  ts_bpf_ctx :: ptr
  ts_plug :: ptr
  ts_sas_ss_sp :: u64
  ts_sas_ss_size :: u64
  ts_syscall_work :: "syscall_work set"
  ts_nr_dirtied :: int
  ts_nr_dirtied_pause :: int
  ts_dirty_paused_when :: u64
  ts_task_works :: ptr
  ts_kretprobe_instances :: ptr
  ts_start_time :: u64
  ts_start_boottime :: u64
  ts_notify_resume :: bool
  ts_last_switch_count :: u64
  ts_last_switch_time :: u64

text \<open>A task structure cleared by \<^verbatim>\<open>memset(..., 0, ...)\<close>, used to build concrete tasks.\<close>

definition zero_task :: task_struct where
  "zero_task = \<lparr>ts_state = 0, ts_saved_state = 0, ts_stack = None, ts_usage = 0, ts_flags = 0,
     ts_nr_cpus_allowed = 0, ts_kv = None, ts_mm = None, ts_active_mm = None, ts_exit_state = 0,
     ts_exit_signal = 0, ts_pdeath_signal = 0, ts_atomic_flags = 0, ts_pid = 0, ts_tgid = 0,
     ts_real_parent = 0, ts_children = [], ts_group_leader = 0, ts_thread_pid = None,
     ts_vfork_done = None, ts_set_child_tid = None, ts_clear_child_tid = None, ts_utime = 0,
     ts_stime = 0, ts_gtime = 0, ts_nvcsw = 0, ts_nivcsw = 0, ts_min_flt = 0, ts_maj_flt = 0,
     ts_fs = None, ts_files = None, ts_nsproxy = None, ts_signal = None, ts_sighand = None,
     ts_seccomp = \<lparr>sc_mode = 0, sc_filter = None\<rparr>, ts_parent_exec_id = 0, ts_self_exec_id = 0,
     ts_io_context = None, ts_mempolicy = None, ts_rseq = None, ts_rseq_sig = 0,
     ts_rseq_event_mask = 0, ts_rcu_users = 0, ts_timer_slack_ns = 0,
     ts_default_timer_slack_ns = 0, ts_stack_vm_area = None, ts_stack_refcount = 0,
     ts_blocked = {}, ts_pending = {}, ts_thread_group = [], ts_stack_canary = 0,
     ts_splice_pipe = None, ts_task_frag_page = None, ts_wake_q_next = None,
     ts_pf_io_worker = None, ts_btrace_seq = 0, ts_throttle_queue = None, ts_use_memdelay
     = False, ts_active_memcg = None, ts_cpus_ptr_own = True, ts_rcu_read_lock_nesting =
     0, ts_rcu_read_unlock_special = 0, ts_rcu_blocked_node = None, ts_rcu_tasks_holdout =
     False, ts_rcu_tasks_idle_cpu = 0, ts_trc_reader_nesting = 0, ts_trc_reader_special =
     0, ts_pi_waiters = [], ts_pi_top_task = None, ts_pi_blocked_on = None, ts_io_uring =
     None, ts_psi_flags = 0, ts_audit_context = None, ts_cpuset_mem_spread_rotor = 0,
     ts_cpuset_slab_spread_rotor = 0, ts_pagefault_disabled = 0, ts_bpf_storage = None,
     ts_bpf_ctx = None, ts_plug = None, ts_sas_ss_sp = 0, ts_sas_ss_size = 0,
     ts_syscall_work = {}, ts_nr_dirtied = 0, ts_nr_dirtied_pause = 0,
     ts_dirty_paused_when = 0, ts_task_works = None, ts_kretprobe_instances = None,
     ts_start_time = 0, ts_start_boottime = 0, ts_notify_resume = False,
     ts_last_switch_count = 0, ts_last_switch_time = 0\<rparr>"

section \<open>State tests and state changes\<close>

definition task_is_running :: "task_struct \<Rightarrow> bool" where
  "task_is_running t \<longleftrightarrow> ts_state t = TASK_RUNNING"

definition task_is_traced :: "task_struct \<Rightarrow> bool" where
  "task_is_traced t \<longleftrightarrow> ts_state t AND TASK_TRACED_bit \<noteq> 0"

definition task_is_stopped :: "task_struct \<Rightarrow> bool" where
  "task_is_stopped t \<longleftrightarrow> ts_state t AND TASK_STOPPED_bit \<noteq> 0"

definition task_is_stopped_or_traced :: "task_struct \<Rightarrow> bool" where
  "task_is_stopped_or_traced t \<longleftrightarrow> ts_state t AND (TASK_STOPPED_bit OR TASK_TRACED_bit) \<noteq> 0"

definition is_special_task_state :: "u32 \<Rightarrow> bool" where
  "is_special_task_state s \<longleftrightarrow>
     s AND (TASK_STOPPED_bit OR TASK_TRACED_bit OR TASK_PARKED OR TASK_DEAD) \<noteq> 0"

text \<open>
  The state macros, without \<^verbatim>\<open>CONFIG_DEBUG_ATOMIC_SLEEP\<close>; they act on \<^verbatim>\<open>current\<close>, whose \<^verbatim>\<open>pi_lock\<close> is held
  for the whole of \<^verbatim>\<open>set_special_state\<close> and of the two \<^verbatim>\<open>rtlock\<close> macros.
\<close>

definition set_current_state :: "u32 \<Rightarrow> task_struct \<Rightarrow> task_struct" where
  "set_current_state state_value t = t\<lparr>ts_state := state_value\<rparr>"

definition set_special_state :: "u32 \<Rightarrow> task_struct \<Rightarrow> task_struct" where
  "set_special_state state_value t = t\<lparr>ts_state := state_value\<rparr>"

definition get_current_state :: "task_struct \<Rightarrow> u32" where
  "get_current_state t = ts_state t"

definition current_save_and_set_rtlock_wait_state :: "task_struct \<Rightarrow> task_struct" where
  "current_save_and_set_rtlock_wait_state t =
     t\<lparr>ts_saved_state := ts_state t, ts_state := TASK_RTLOCK_WAIT\<rparr>"

definition current_restore_rtlock_saved_state :: "task_struct \<Rightarrow> task_struct" where
  "current_restore_rtlock_saved_state t =
     t\<lparr>ts_state := ts_saved_state t, ts_saved_state := TASK_RUNNING\<rparr>"

definition task_state_index :: "task_struct \<Rightarrow> nat" where
  "task_state_index tsk =
     (let tsk_state = ts_state tsk;
          state = (tsk_state OR ts_exit_state tsk) AND TASK_REPORT;
          state = (if tsk_state = TASK_IDLE then TASK_REPORT_IDLE else state);
          state = (if tsk_state = TASK_RTLOCK_WAIT then TASK_UNINTERRUPTIBLE else state)
      in fls state)"

text \<open>The array access \<^verbatim>\<open>state_char[state]\<close>: \<open>None\<close> for an index out of its nine characters.\<close>

definition task_index_to_char :: "nat \<Rightarrow> char option" where
  "task_index_to_char state =
     (let state_char = ''RSDTtXZPI''
      in if state < length state_char then Some (state_char ! state) else None)"

definition task_state_to_char :: "task_struct \<Rightarrow> char option" where
  "task_state_to_char tsk = task_index_to_char (task_state_index tsk)"

text \<open>
  Identifiers. \<^verbatim>\<open>__task_pid_nr_ns\<close> is a function outside the tree: \<open>tgid_nr_ns\<close> is what it answers for the
  thread group of the parent.
\<close>

definition task_pid :: "task_struct \<Rightarrow> ptr" where
  "task_pid task = ts_thread_pid task"

definition task_pid_nr :: "task_struct \<Rightarrow> int" where
  "task_pid_nr tsk = ts_pid tsk"

definition task_tgid_nr :: "task_struct \<Rightarrow> int" where
  "task_tgid_nr tsk = ts_tgid tsk"

definition pid_alive :: "task_struct \<Rightarrow> bool" where
  "pid_alive p \<longleftrightarrow> ts_thread_pid p \<noteq> None"

definition is_global_init :: "task_struct \<Rightarrow> bool" where
  "is_global_init t \<longleftrightarrow> task_tgid_nr t = 1"

definition task_ppid_nr_ns :: "(addr \<Rightarrow> int) \<Rightarrow> task_struct \<Rightarrow> int" where
  "task_ppid_nr_ns tgid_nr_ns tsk = (if pid_alive tsk then tgid_nr_ns (ts_real_parent tsk) else 0)"

definition is_idle_task :: "task_struct \<Rightarrow> bool" where
  "is_idle_task p \<longleftrightarrow> ts_flags p AND PF_IDLE \<noteq> 0"

definition is_percpu_thread :: "task_struct \<Rightarrow> bool" where
  "is_percpu_thread t \<longleftrightarrow> ts_flags t AND PF_NO_SETAFFINITY \<noteq> 0 \<and> ts_nr_cpus_allowed t = 1"

section \<open>Flag words\<close>

definition clear_stopped_child_used_math :: "task_struct \<Rightarrow> task_struct" where
  "clear_stopped_child_used_math c = c\<lparr>ts_flags := ts_flags c AND NOT PF_USED_MATH\<rparr>"

definition set_stopped_child_used_math :: "task_struct \<Rightarrow> task_struct" where
  "set_stopped_child_used_math c = c\<lparr>ts_flags := ts_flags c OR PF_USED_MATH\<rparr>"

definition conditional_stopped_child_used_math :: "bool \<Rightarrow> task_struct \<Rightarrow> task_struct" where
  "conditional_stopped_child_used_math cond c =
     c\<lparr>ts_flags := (ts_flags c AND NOT PF_USED_MATH) OR (if cond then PF_USED_MATH else 0)\<rparr>"

definition copy_to_stopped_child_used_math :: "task_struct \<Rightarrow> task_struct \<Rightarrow> task_struct" where
  "copy_to_stopped_child_used_math cur c =
     c\<lparr>ts_flags := (ts_flags c AND NOT PF_USED_MATH) OR (ts_flags cur AND PF_USED_MATH)\<rparr>"

definition tsk_used_math :: "task_struct \<Rightarrow> u32" where
  "tsk_used_math p = ts_flags p AND PF_USED_MATH"

definition current_restore_flags :: "u32 \<Rightarrow> u32 \<Rightarrow> task_struct \<Rightarrow> task_struct" where
  "current_restore_flags orig_flags flags t =
     t\<lparr>ts_flags := (ts_flags t AND NOT flags) OR (orig_flags AND flags)\<rparr>"

text \<open>
  The accessors the macros \<^verbatim>\<open>TASK_PFA_TEST\<close>, \<^verbatim>\<open>TASK_PFA_SET\<close> and \<^verbatim>\<open>TASK_PFA_CLEAR\<close> generate,
  by the bit number of the atomic flag.
\<close>

abbreviation (input) PFA_NO_NEW_PRIVS :: nat where "PFA_NO_NEW_PRIVS \<equiv> 0"

definition TASK_PFA_TEST :: "nat \<Rightarrow> task_struct \<Rightarrow> bool" where
  "TASK_PFA_TEST n p = bit (ts_atomic_flags p) n"

definition TASK_PFA_SET :: "nat \<Rightarrow> task_struct \<Rightarrow> task_struct" where
  "TASK_PFA_SET n p = p\<lparr>ts_atomic_flags := set_bit n (ts_atomic_flags p)\<rparr>"

definition TASK_PFA_CLEAR :: "nat \<Rightarrow> task_struct \<Rightarrow> task_struct" where
  "TASK_PFA_CLEAR n p = p\<lparr>ts_atomic_flags := unset_bit n (ts_atomic_flags p)\<rparr>"

section \<open>Restartable sequences\<close>

text \<open>
  The event bits are enumerators defined in a header outside the tree, so the bit number is an
  argument. \<^verbatim>\<open>rseq_fork\<close> takes whether \<^verbatim>\<open>CLONE_VM\<close> is in the clone flags, which is all it reads of
  them, and the calling task.
\<close>

definition rseq_set_notify_resume :: "task_struct \<Rightarrow> task_struct" where
  "rseq_set_notify_resume t = (if ts_rseq t \<noteq> None then t\<lparr>ts_notify_resume := True\<rparr> else t)"

definition rseq_preempt :: "nat \<Rightarrow> task_struct \<Rightarrow> task_struct" where
  "rseq_preempt RSEQ_EVENT_PREEMPT_BIT t =
     rseq_set_notify_resume
       (t\<lparr>ts_rseq_event_mask := set_bit RSEQ_EVENT_PREEMPT_BIT (ts_rseq_event_mask t)\<rparr>)"

definition rseq_migrate :: "nat \<Rightarrow> task_struct \<Rightarrow> task_struct" where
  "rseq_migrate RSEQ_EVENT_MIGRATE_BIT t =
     rseq_set_notify_resume
       (t\<lparr>ts_rseq_event_mask := set_bit RSEQ_EVENT_MIGRATE_BIT (ts_rseq_event_mask t)\<rparr>)"

definition rseq_fork :: "bool \<Rightarrow> task_struct \<Rightarrow> task_struct \<Rightarrow> task_struct" where
  "rseq_fork clone_vm cur t =
     (if clone_vm then t\<lparr>ts_rseq := None, ts_rseq_sig := 0, ts_rseq_event_mask := 0\<rparr>
      else t\<lparr>ts_rseq := ts_rseq cur, ts_rseq_sig := ts_rseq_sig cur,
             ts_rseq_event_mask := ts_rseq_event_mask cur\<rparr>)"

definition rseq_execve :: "task_struct \<Rightarrow> task_struct" where
  "rseq_execve t = t\<lparr>ts_rseq := None, ts_rseq_sig := 0, ts_rseq_event_mask := 0\<rparr>"

section \<open>Properties\<close>

lemma fls_mono: "unat a \<le> unat b \<Longrightarrow> fls a \<le> fls b"
  unfolding fls_def using fls_nat_less [of "unat b"]
  by (auto simp: fls_nat_le_iff)

lemma fls_REPORT_IDLE: "fls 0x80 = 8"
  unfolding fls_def by code_simp

lemma fls_REPORT: "fls 0x7F = 7"
  unfolding fls_def by code_simp

lemma task_state_index_le: "task_state_index t \<le> 8"
proof -
  have "(ts_state t OR ts_exit_state t) AND 0x7F \<le> (0x7F :: u32)"
    by (rule word_and_le1)
  then have "fls ((ts_state t OR ts_exit_state t) AND 0x7F) \<le> 7"
    using fls_mono [of "(ts_state t OR ts_exit_state t) AND 0x7F" "0x7F"] fls_REPORT
    by (simp add: word_le_nat_alt)
  moreover have "fls 2 \<le> 8"
    using fls_mono [of 2 "0x7F"] fls_REPORT by simp
  ultimately show ?thesis
    by (simp add: task_state_index_def Let_def fls_REPORT_IDLE)
qed

section \<open>Properties of task states\<close>

text \<open>
  C40: \<^verbatim>\<open>task_state_to_char\<close> never reads outside the nine characters of \<^verbatim>\<open>state_char\<close>, whatever bits are set
  in the two state words, and gives \<^verbatim>\<open>I\<close> for an idle wait, \<^verbatim>\<open>D\<close> for a real-time lock waiter that is not exiting,
  and \<^verbatim>\<open>R\<close> exactly when no reportable bit is set.
\<close>

theorem task_state_to_char_total:
  "(\<exists>c \<in> set ''RSDTtXZPI''. task_state_to_char t = Some c) \<and>
   (ts_state t = TASK_IDLE \<longrightarrow> task_state_to_char t = Some (CHR ''I'')) \<and>
   (ts_state t = TASK_RTLOCK_WAIT \<longrightarrow> task_state_to_char t = Some (CHR ''D'')) \<and>
   (task_state_to_char t = Some (CHR ''R'') \<longleftrightarrow>
      (ts_state t OR ts_exit_state t) AND TASK_REPORT = 0 \<and> ts_state t \<noteq> TASK_IDLE \<and> ts_state t \<noteq> TASK_RTLOCK_WAIT)"
proof -
  have fls0: "fls w = 0 \<longleftrightarrow> w = 0" for w
    by (cases "w = 0") (auto simp: fls_def fls_nat_pos unat_eq_0 [symmetric] simp del: unat_eq_0)
  have le: "task_state_index t < length ''RSDTtXZPI''" using task_state_index_le [of t] by simp
  have idle: "task_state_index t = 8" if "ts_state t = TASK_IDLE"
    using that by (simp add: task_state_index_def Let_def fls_REPORT_IDLE)
  have rt: "task_state_index t = 2" if "ts_state t = TASK_RTLOCK_WAIT"
    using that by (simp add: task_state_index_def Let_def fls_def fls_nat_pos)
  have run: "task_state_index t = 0 \<longleftrightarrow>
      (ts_state t OR ts_exit_state t) AND TASK_REPORT = 0 \<and> ts_state t \<noteq> TASK_IDLE \<and> ts_state t \<noteq> TASK_RTLOCK_WAIT"
    by (auto simp: task_state_index_def Let_def fls0)
  have R: "task_state_to_char t = Some (CHR ''R'') \<longleftrightarrow> task_state_index t = 0"
    using le by (auto simp: task_state_to_char_def task_index_to_char_def Let_def nth_Cons' less_Suc_eq split: if_splits)
  have "task_state_to_char t = Some (''RSDTtXZPI'' ! task_state_index t)"
    unfolding task_state_to_char_def task_index_to_char_def Let_def using le by (simp only: if_True)
  then show ?thesis
    unfolding R run using nth_mem [OF le] idle rt by auto
qed

theorem task_state_to_char_total_witness:
  "task_state_to_char (zero_task\<lparr>ts_state := TASK_IDLE\<rparr>) = Some (CHR ''I'')"
  using task_state_to_char_total [of "zero_task\<lparr>ts_state := TASK_IDLE\<rparr>"] by simp

text \<open>
  The real-time lock wait saves and restores the state of the task: after
  \<^verbatim>\<open>current_save_and_set_rtlock_wait_state\<close>, any number of rounds of the wait loop (each setting the state
  to \<^verbatim>\<open>TASK_RTLOCK_WAIT\<close> again) and \<^verbatim>\<open>current_restore_rtlock_saved_state\<close>, the task is as before except that
  \<^verbatim>\<open>saved_state\<close> is \<^verbatim>\<open>TASK_RUNNING\<close>; a wake-up redirected to \<^verbatim>\<open>saved_state\<close> in between is not lost.
\<close>

theorem rtlock_wait_roundtrip:
  "current_restore_rtlock_saved_state ((set_current_state TASK_RTLOCK_WAIT ^^ n)
     (current_save_and_set_rtlock_wait_state t)) = t\<lparr>ts_saved_state := TASK_RUNNING\<rparr> \<and>
   ts_state (current_restore_rtlock_saved_state ((set_current_state TASK_RTLOCK_WAIT ^^ n)
     ((current_save_and_set_rtlock_wait_state t)\<lparr>ts_saved_state := TASK_RUNNING\<rparr>))) = TASK_RUNNING"
proof -
  have loop: "(set_current_state s ^^ n) u = (if n = 0 then u else u\<lparr>ts_state := s\<rparr>)" for s u
    by (induction n) (simp_all add: set_current_state_def)
  show ?thesis
    by (simp add: loop current_restore_rtlock_saved_state_def current_save_and_set_rtlock_wait_state_def)
qed

end
