(* ===== verification/Kv_Spec.thy ===== *)
theory Kv_Spec
  imports Prelude
begin

text \<open>
  The contract of a key-value store as its clients see it: an invariant, an abstract finite
  map, a write that may refuse (no memory) but otherwise updates exactly one key, and a read
  that returns the stored value or a default. The lemmas of the locale are what a client may
  rely on after any sequence of writes; \<open>Kv_Store\<close> interprets it on the kernel's store and
  \<open>Kv_User\<close> on the calls of user space.
\<close>

locale kv_map =
  fixes invar :: "'s \<Rightarrow> bool"
    and lookup :: "'s \<Rightarrow> 'k \<Rightarrow> 'v option"
    and ready :: "'s \<Rightarrow> 'a \<Rightarrow> bool"
    and put :: "'a \<Rightarrow> 's \<Rightarrow> 'k \<Rightarrow> 'v \<Rightarrow> 's option"
    and get :: "'s \<Rightarrow> 'k \<Rightarrow> 'r"
    and dflt :: 'r
    and conv :: "'v \<Rightarrow> 'r"
  assumes put_total: "invar s \<Longrightarrow> ready s a \<Longrightarrow> \<exists>s'. put a s k v = Some s'"
    and put_invar: "invar s \<Longrightarrow> ready s a \<Longrightarrow> put a s k v = Some s' \<Longrightarrow> invar s'"
    and put_lookup:
      "invar s \<Longrightarrow> ready s a \<Longrightarrow> put a s k v = Some s' \<Longrightarrow> lookup s' = (lookup s)(k \<mapsto> v)"
    and get_lookup: "invar s \<Longrightarrow> get s k = (case lookup s k of None \<Rightarrow> dflt | Some v \<Rightarrow> conv v)"
begin

lemma get_put_same:
  "invar s \<Longrightarrow> ready s a \<Longrightarrow> put a s k v = Some s' \<Longrightarrow> get s' k = conv v"
  using get_lookup [OF put_invar] put_lookup by simp

lemma get_put_other:
  "invar s \<Longrightarrow> ready s a \<Longrightarrow> put a s k v = Some s' \<Longrightarrow> j \<noteq> k \<Longrightarrow> get s' j = get s j"
  using get_lookup [OF put_invar] get_lookup put_lookup by simp

text \<open>A run of writes, each with its own allocator answer; it stops at the first refusal.\<close>

fun run_puts :: "'s \<Rightarrow> ('a \<times> 'k \<times> 'v) list \<Rightarrow> 's option" where
  "run_puts s [] = Some s"
| "run_puts s ((a, k, v) # ws) =
     (if ready s a then
        (case put a s k v of None \<Rightarrow> None | Some s' \<Rightarrow> run_puts s' ws)
      else None)"

lemma run_puts_lookup:
  "invar s \<Longrightarrow> run_puts s ws = Some s' \<Longrightarrow>
     invar s' \<and> lookup s' = lookup s ++ map_of (rev (map snd ws))"
proof (induction s ws rule: run_puts.induct)
  case (1 s)
  then show ?case by simp
next
  case (2 s a k v ws)
  then obtain s1 where rdy: "ready s a" and w: "put a s k v = Some s1"
    and r: "run_puts s1 ws = Some s'"
    by (auto split: if_splits option.splits)
  from 2(2) rdy w have "invar s1" and l1: "lookup s1 = (lookup s)(k \<mapsto> v)"
    by (auto intro: put_invar dest: put_lookup)
  with 2(1) rdy w r have "invar s' \<and> lookup s' = lookup s1 ++ map_of (rev (map snd ws))"
    by blast
  then show ?case
    by (simp add: l1 map_add_upd_left map_of_append)
qed

text \<open>After a run of writes, a get sees the last value written to its key.\<close>

lemma get_run_puts:
  assumes "invar s" and "run_puts s ws = Some s'"
  shows "get s' k =
    (case map_of (rev (map snd ws)) k of None \<Rightarrow> get s k | Some v \<Rightarrow> conv v)"
  using run_puts_lookup [OF assms] get_lookup [OF assms(1)] get_lookup
  by (auto simp: map_add_def split: option.splits)

end

end
