(* ===== verification/Kv_Store.thy ===== *)
theory Kv_Store
  imports Sched Kv_Spec
begin

text \<open>
  \<^verbatim>\<open>kernel/kv_store.c\<close>: the per-process key-value store and its two system calls. The heap of
  nodes and stores is explicit, so that an access to a freed or missing object is an \<open>Oops\<close> and
  a spinlock that is already held is \<open>Blocked\<close>, not an unspecified value. What \<^verbatim>\<open>kmalloc\<close>
  returned is a parameter of the operations that call it: \<open>None\<close> is NULL, \<open>Some a\<close> an address
  that the documented contract of \<^verbatim>\<open>kmalloc\<close> makes fresh.
\<close>

section \<open>Data\<close>

record kv_node =
  kv_key :: c_int
  kv_value :: c_int

record kv_heap =
  kh_nodes :: "addr \<rightharpoonup> kv_node"
  kh_stores :: "addr \<rightharpoonup> kv_store"

datatype 'a kv_result = Oops | Blocked | Done 'a

abbreviation (input) KV_BUCKETS :: nat where "KV_BUCKETS \<equiv> 1024"

definition kv_hash :: "c_int \<Rightarrow> nat" where
  "kv_hash k = unat (k AND 1023)"

section \<open>Operations\<close>

definition spin_lock :: "nat \<Rightarrow> addr \<Rightarrow> kv_store \<Rightarrow> kv_store kv_result" where
  "spin_lock h cur st =
     (case kvs_locks st h of
        None \<Rightarrow> Done (st\<lparr>kvs_locks := (kvs_locks st)(h := Some cur)\<rparr>)
      | Some _ \<Rightarrow> Blocked)"

definition spin_unlock :: "nat \<Rightarrow> kv_store \<Rightarrow> kv_store" where
  "spin_unlock h st = st\<lparr>kvs_locks := (kvs_locks st)(h := None)\<rparr>"

text \<open>The loop \<^verbatim>\<open>hlist_for_each_entry(entry, ..., node) if (entry->key == k) ... break;\<close>.\<close>

fun hlist_find :: "(addr \<rightharpoonup> kv_node) \<Rightarrow> c_int \<Rightarrow> addr list \<Rightarrow> addr option kv_result" where
  "hlist_find N k [] = Done None"
| "hlist_find N k (a # as) =
     (case N a of
        None \<Rightarrow> Oops
      | Some n \<Rightarrow> if kv_key n = k then Done (Some a) else hlist_find N k as)"

definition sys_write_kv ::
    "ptr \<Rightarrow> addr \<Rightarrow> task_struct \<Rightarrow> c_int \<Rightarrow> c_int \<Rightarrow> kv_heap \<Rightarrow> (c_long \<times> kv_heap) kv_result" where
  "sys_write_kv kmalloc cur task k v H =
     (case ts_kv task of None \<Rightarrow> Oops | Some s \<Rightarrow>
      case kh_stores H s of None \<Rightarrow> Oops | Some st \<Rightarrow>
      let hash = kv_hash k in
      case spin_lock hash cur st of Oops \<Rightarrow> Oops | Blocked \<Rightarrow> Blocked | Done st \<Rightarrow>
      case hlist_find (kh_nodes H) k (kvs_head st hash) of Oops \<Rightarrow> Oops | Blocked \<Rightarrow> Blocked
      | Done (Some old_entry) \<Rightarrow>
          (case kh_nodes H old_entry of None \<Rightarrow> Oops | Some n \<Rightarrow>
           Done (4, H\<lparr>kh_nodes := (kh_nodes H)(old_entry \<mapsto> n\<lparr>kv_value := v\<rparr>),
                      kh_stores := (kh_stores H)(s \<mapsto> spin_unlock hash st)\<rparr>))
      | Done None \<Rightarrow>
          (case kmalloc of
             None \<Rightarrow> Done (-1, H\<lparr>kh_stores := (kh_stores H)(s \<mapsto> spin_unlock hash st)\<rparr>)
           | Some entry \<Rightarrow>
               let st = st\<lparr>kvs_head := (kvs_head st)(hash := entry # kvs_head st hash)\<rparr> in
               Done (4, H\<lparr>kh_nodes := (kh_nodes H)(entry \<mapsto> \<lparr>kv_key = k, kv_value = v\<rparr>),
                          kh_stores := (kh_stores H)(s \<mapsto> spin_unlock hash st)\<rparr>)))"

definition sys_read_kv ::
    "addr \<Rightarrow> task_struct \<Rightarrow> c_int \<Rightarrow> kv_heap \<Rightarrow> (c_long \<times> kv_heap) kv_result" where
  "sys_read_kv cur task k H =
     (case ts_kv task of None \<Rightarrow> Oops | Some s \<Rightarrow>
      case kh_stores H s of None \<Rightarrow> Oops | Some st \<Rightarrow>
      let hash = kv_hash k in
      case spin_lock hash cur st of Oops \<Rightarrow> Oops | Blocked \<Rightarrow> Blocked | Done st \<Rightarrow>
      case hlist_find (kh_nodes H) k (kvs_head st hash) of Oops \<Rightarrow> Oops | Blocked \<Rightarrow> Blocked
      | Done found \<Rightarrow>
          (let ret = (case found of
                        None \<Rightarrow> Some (-1)
                      | Some entry \<Rightarrow> map_option kv_value (kh_nodes H entry)) in
           case ret of None \<Rightarrow> Oops | Some (r :: c_int) \<Rightarrow>
           Done (scast r, H\<lparr>kh_stores := (kh_stores H)(s \<mapsto> spin_unlock hash st)\<rparr>)))"

text \<open>
  \<^verbatim>\<open>hlist_for_each_entry_safe ... hlist_del; kfree\<close> on one bucket, and the loop over the buckets
  from \<open>i\<close> on; the first argument of the latter is the number of buckets left.
\<close>

fun free_bucket :: "addr list \<Rightarrow> (addr \<rightharpoonup> kv_node) \<Rightarrow> (addr \<rightharpoonup> kv_node) kv_result" where
  "free_bucket [] N = Done N"
| "free_bucket (a # as) N =
     (case N a of None \<Rightarrow> Oops | Some _ \<Rightarrow> free_bucket as (N(a := None)))"

fun cleanup_buckets ::
    "nat \<Rightarrow> nat \<Rightarrow> addr \<Rightarrow> kv_store \<Rightarrow> (addr \<rightharpoonup> kv_node) \<Rightarrow> (kv_store \<times> (addr \<rightharpoonup> kv_node)) kv_result" where
  "cleanup_buckets 0 i cur st N = Done (st, N)"
| "cleanup_buckets (Suc n) i cur st N =
     (case spin_lock i cur st of Oops \<Rightarrow> Oops | Blocked \<Rightarrow> Blocked | Done st \<Rightarrow>
      case free_bucket (kvs_head st i) N of Oops \<Rightarrow> Oops | Blocked \<Rightarrow> Blocked | Done N \<Rightarrow>
      cleanup_buckets n (Suc i) cur
        (spin_unlock i (st\<lparr>kvs_head := (kvs_head st)(i := [])\<rparr>)) N)"

definition cleanup_task_kv_store :: "addr \<Rightarrow> task_struct \<Rightarrow> kv_heap \<Rightarrow> kv_heap kv_result" where
  "cleanup_task_kv_store cur task H =
     (if ts_tgid task \<noteq> ts_pid task then Done H
      else
        (case ts_kv task of None \<Rightarrow> Oops | Some s \<Rightarrow>
         case kh_stores H s of None \<Rightarrow> Oops | Some st \<Rightarrow>
         case cleanup_buckets KV_BUCKETS 0 cur st (kh_nodes H) of
           Oops \<Rightarrow> Oops
         | Blocked \<Rightarrow> Blocked
         | Done (st, N) \<Rightarrow> Done (H\<lparr>kh_nodes := N, kh_stores := (kh_stores H)(s \<mapsto> st)\<rparr>)))"

text \<open>
  \<^verbatim>\<open>init_task_kv_store\<close>: the loop that initialises the 1024 locks and list heads of the memory
  \<^verbatim>\<open>kmalloc\<close> returned, whose contents \<open>junk\<close> are arbitrary.
\<close>

fun init_buckets :: "nat \<Rightarrow> nat \<Rightarrow> kv_store \<Rightarrow> kv_store" where
  "init_buckets 0 i st = st"
| "init_buckets (Suc n) i st =
     init_buckets n (Suc i)
       (st\<lparr>kvs_locks := (kvs_locks st)(i := None), kvs_head := (kvs_head st)(i := [])\<rparr>)"

definition init_task_kv_store ::
    "ptr \<Rightarrow> kv_store \<Rightarrow> task_struct \<Rightarrow> kv_heap \<Rightarrow> c_int \<times> task_struct \<times> kv_heap" where
  "init_task_kv_store kmalloc junk task H =
     (let task = task\<lparr>ts_kv := kmalloc\<rparr> in
      case kmalloc of
        None \<Rightarrow> (-1, task, H)
      | Some s \<Rightarrow>
          (0, task, H\<lparr>kh_stores := (kh_stores H)(s \<mapsto> init_buckets KV_BUCKETS 0 junk)\<rparr>))"

section \<open>Invariant and abstraction\<close>

text \<open>
  A bucket is well formed when its nodes are allocated, distinct, hashed to it and have distinct
  keys. A store is well formed when each of its 1024 buckets is; a heap is well formed when every
  store is and no two stores share a node.
\<close>

definition node_key :: "(addr \<rightharpoonup> kv_node) \<Rightarrow> addr \<Rightarrow> c_int option" where
  "node_key N a = map_option kv_key (N a)"

definition bucket_wf :: "(addr \<rightharpoonup> kv_node) \<Rightarrow> nat \<Rightarrow> addr list \<Rightarrow> bool" where
  "bucket_wf N h as \<longleftrightarrow>
     (\<forall>a \<in> set as. \<exists>n. N a = Some n \<and> kv_hash (kv_key n) = h) \<and> distinct (map (node_key N) as)"

definition kv_wf :: "(addr \<rightharpoonup> kv_node) \<Rightarrow> kv_store \<Rightarrow> bool" where
  "kv_wf N st \<longleftrightarrow> (\<forall>h < KV_BUCKETS. bucket_wf N h (kvs_head st h))"

definition store_nodes :: "kv_store \<Rightarrow> addr set" where
  "store_nodes st = (\<Union>h < KV_BUCKETS. set (kvs_head st h))"

definition kv_heap_wf :: "kv_heap \<Rightarrow> bool" where
  "kv_heap_wf H \<longleftrightarrow>
     (\<forall>s st. kh_stores H s = Some st \<longrightarrow> kv_wf (kh_nodes H) st) \<and>
     (\<forall>s st s' st'. kh_stores H s = Some st \<longrightarrow> kh_stores H s' = Some st' \<longrightarrow> s \<noteq> s' \<longrightarrow>
        store_nodes st \<inter> store_nodes st' = {})"

definition kv_unlocked :: "kv_store \<Rightarrow> bool" where
  "kv_unlocked st \<longleftrightarrow> (\<forall>h < KV_BUCKETS. kvs_locks st h = None)"

text \<open>The finite map a store represents.\<close>

definition kv_lookup :: "(addr \<rightharpoonup> kv_node) \<Rightarrow> kv_store \<Rightarrow> c_int \<Rightarrow> c_int option" where
  "kv_lookup N st k =
     Option.bind (find (\<lambda>a. node_key N a = Some k) (kvs_head st (kv_hash k)))
       (\<lambda>a. map_option kv_value (N a))"

section \<open>Lemmas\<close>

lemma kv_hash_less [simp, kword]: "kv_hash k < 1024"
  unfolding kv_hash_def by (rule word_and_mask_less)

lemma spin_lock_Done [simp]:
  "spin_lock h cur st = Done st' \<longleftrightarrow>
     kvs_locks st h = None \<and> st' = st\<lparr>kvs_locks := (kvs_locks st)(h := Some cur)\<rparr>"
  by (auto simp: spin_lock_def split: option.splits)

lemma hlist_find_wf:
  "bucket_wf N h as \<Longrightarrow> hlist_find N k as = Done (find (\<lambda>a. node_key N a = Some k) as)"
  by (induction as) (auto simp: bucket_wf_def node_key_def)

lemma kv_wf_bucket: "kv_wf N st \<Longrightarrow> h < KV_BUCKETS \<Longrightarrow> bucket_wf N h (kvs_head st h)"
  by (simp add: kv_wf_def)

lemma bucket_wf_cong:
  "(\<And>a. a \<in> set as \<Longrightarrow> node_key M a = node_key N a) \<Longrightarrow> bucket_wf N h as \<Longrightarrow> bucket_wf M h as"
proof -
  assume eq: "\<And>a. a \<in> set as \<Longrightarrow> node_key M a = node_key N a" and wf: "bucket_wf N h as"
  from eq have "map (node_key M) as = map (node_key N) as" by (rule map_cong [OF refl])
  moreover have "\<exists>n. M a = Some n \<and> kv_hash (kv_key n) = h" if "a \<in> set as" for a
  proof -
    from wf that obtain n where "N a = Some n" "kv_hash (kv_key n) = h"
      by (auto simp: bucket_wf_def)
    with eq [OF that] show ?thesis by (auto simp: node_key_def)
  qed
  ultimately show ?thesis using wf by (metis bucket_wf_def)
qed

lemma bucket_wf_alloc: "bucket_wf N h as \<Longrightarrow> a \<in> set as \<Longrightarrow> a \<in> dom N"
  by (auto simp: bucket_wf_def)

lemma store_nodes_alloc: "kv_wf N st \<Longrightarrow> store_nodes st \<subseteq> dom N"
  by (auto simp: store_nodes_def kv_wf_def dest: bucket_wf_alloc)

lemma in_store_nodes: "a \<in> set (kvs_head st h) \<Longrightarrow> h < KV_BUCKETS \<Longrightarrow> a \<in> store_nodes st"
  by (auto simp: store_nodes_def)

text \<open>A store whose nodes keep key and value keeps its invariant and its map.\<close>

lemma kv_wf_frame:
  "kv_wf N st \<Longrightarrow> (\<And>a. a \<in> store_nodes st \<Longrightarrow> M a = N a) \<Longrightarrow> kv_wf M st"
  unfolding kv_wf_def
  by (auto intro!: bucket_wf_cong [of _ M N] simp: node_key_def in_store_nodes)

lemma kv_lookup_frame:
  assumes "\<And>a. a \<in> store_nodes st \<Longrightarrow> M a = N a"
  shows "kv_lookup M st k = kv_lookup N st k"
proof -
  have eq: "M a = N a" if "a \<in> set (kvs_head st (kv_hash k))" for a
    using assms in_store_nodes [OF that] by simp
  then have "find (\<lambda>a. node_key M a = Some k) (kvs_head st (kv_hash k)) =
      find (\<lambda>a. node_key N a = Some k) (kvs_head st (kv_hash k))"
    by (intro find_cong_set) (simp add: node_key_def)
  with eq show ?thesis
    by (cases "find (\<lambda>a. node_key N a = Some k) (kvs_head st (kv_hash k))")
      (auto simp: kv_lookup_def dest: find_SomeE)
qed

lemma kv_lookup_None_iff:
  "kv_wf N st \<Longrightarrow>
   kv_lookup N st k = None \<longleftrightarrow> find (\<lambda>a. node_key N a = Some k) (kvs_head st (kv_hash k)) = None"
  by (cases "find (\<lambda>a. node_key N a = Some k) (kvs_head st (kv_hash k))")
    (auto simp: kv_lookup_def node_key_def dest!: find_SomeE)

text \<open>Updating the value of a node in place.\<close>

lemma node_key_update_value:
  "N a = Some n \<Longrightarrow> node_key (N(a \<mapsto> n\<lparr>kv_value := v\<rparr>)) = node_key N"
  by (auto simp: node_key_def)

lemma kv_wf_update_value:
  "kv_wf N st \<Longrightarrow> N a = Some n \<Longrightarrow> kv_wf (N(a \<mapsto> n\<lparr>kv_value := v\<rparr>)) st"
  unfolding kv_wf_def by (metis bucket_wf_cong node_key_update_value)

lemma kv_lookup_update_value:
  assumes wf: "kv_wf N st" and a: "N a = Some n"
    and f: "find (\<lambda>a. node_key N a = Some k) (kvs_head st (kv_hash k)) = Some a"
  shows "kv_lookup (N(a \<mapsto> n\<lparr>kv_value := v\<rparr>)) st = (kv_lookup N st)(k \<mapsto> v)"
proof
  fix j
  from find_SomeE [OF f] a have key: "kv_key n = k" by (simp add: node_key_def)
  show "kv_lookup (N(a \<mapsto> n\<lparr>kv_value := v\<rparr>)) st j = ((kv_lookup N st)(k \<mapsto> v)) j"
  proof (cases "j = k")
    case True
    then show ?thesis using f by (simp add: kv_lookup_def node_key_update_value [of N a, OF a])
  next
    case False
    have "b \<noteq> a" if "find (\<lambda>a. node_key N a = Some j) (kvs_head st (kv_hash j)) = Some b" for b
      using find_SomeE [OF that] a key False by (auto simp: node_key_def)
    with False show ?thesis
      by (cases "find (\<lambda>a. node_key N a = Some j) (kvs_head st (kv_hash j))")
        (auto simp: kv_lookup_def node_key_update_value [of N a, OF a])
  qed
qed

text \<open>Adding a fresh node at the head of its bucket.\<close>

abbreviation push_node :: "c_int \<Rightarrow> addr \<Rightarrow> kv_store \<Rightarrow> kv_store" where
  "push_node k a st \<equiv> st\<lparr>kvs_head := (kvs_head st)(kv_hash k := a # kvs_head st (kv_hash k))\<rparr>"

lemma kv_wf_push:
  assumes wf: "kv_wf N st" and fresh: "a \<notin> dom N" and new: "kv_lookup N st k = None"
  shows "kv_wf (N(a \<mapsto> \<lparr>kv_key = k, kv_value = v\<rparr>)) (push_node k a st)"
proof -
  let ?M = "N(a \<mapsto> \<lparr>kv_key = k, kv_value = v\<rparr>)"
  have same: "node_key ?M b = node_key N b" if "b \<in> set (kvs_head st h)" "h < KV_BUCKETS" for b h
    using bucket_wf_alloc [OF kv_wf_bucket [OF wf that(2)] that(1)] fresh
    by (auto simp: node_key_def)
  have old: "bucket_wf ?M h (kvs_head st h)" if "h < KV_BUCKETS" for h
    using bucket_wf_cong [OF same [OF _ that] kv_wf_bucket [OF wf that]] by blast
  have "Some k \<notin> node_key ?M ` set (kvs_head st (kv_hash k))"
    using new wf same by (auto simp: kv_lookup_None_iff find_NoneE)
  then have "bucket_wf ?M (kv_hash k) (a # kvs_head st (kv_hash k))"
    using old [of "kv_hash k"] by (auto simp: bucket_wf_def node_key_def)
  with old show ?thesis by (simp add: kv_wf_def)
qed

lemma kv_lookup_push:
  assumes wf: "kv_wf N st" and fresh: "a \<notin> dom N"
  shows "kv_lookup (N(a \<mapsto> \<lparr>kv_key = k, kv_value = v\<rparr>)) (push_node k a st) =
    (kv_lookup N st)(k \<mapsto> v)"
proof
  fix j
  let ?M = "N(a \<mapsto> \<lparr>kv_key = k, kv_value = v\<rparr>)"
  have eq: "?M b = N b" if "b \<in> store_nodes st" for b
    using store_nodes_alloc [OF wf] that fresh by auto
  show "kv_lookup ?M (push_node k a st) j = ((kv_lookup N st)(k \<mapsto> v)) j"
  proof (cases "j = k")
    case True
    then show ?thesis by (simp add: kv_lookup_def node_key_def)
  next
    case False
    then have "kv_lookup ?M (push_node k a st) j = kv_lookup ?M st j"
      by (auto simp: kv_lookup_def node_key_def)
    also have "\<dots> = kv_lookup N st j"
      using eq by (rule kv_lookup_frame)
    finally show ?thesis using False by simp
  qed
qed

section \<open>The system calls against the abstract map\<close>

definition kv_live :: "task_struct \<Rightarrow> kv_heap \<Rightarrow> bool" where
  "kv_live t H \<longleftrightarrow> (\<exists>s st. ts_kv t = Some s \<and> kh_stores H s = Some st \<and> kv_unlocked st)"

definition kv_map_of :: "task_struct \<Rightarrow> kv_heap \<Rightarrow> c_int \<Rightarrow> c_int option" where
  "kv_map_of t H =
     (case Option.bind (ts_kv t) (kh_stores H) of
        None \<Rightarrow> Map.empty
      | Some st \<Rightarrow> kv_lookup (kh_nodes H) st)"

definition kv_fresh :: "kv_heap \<Rightarrow> ptr \<Rightarrow> bool" where
  "kv_fresh H a \<longleftrightarrow> (\<forall>x. a = Some x \<longrightarrow> x \<notin> dom (kh_nodes H))"

lemma kv_heap_wf_store: "kv_heap_wf H \<Longrightarrow> kh_stores H s = Some st \<Longrightarrow> kv_wf (kh_nodes H) st"
  by (simp add: kv_heap_wf_def)

lemma kv_heap_wf_disjoint:
  "kv_heap_wf H \<Longrightarrow> kh_stores H s = Some st \<Longrightarrow> kh_stores H s' = Some st' \<Longrightarrow> s \<noteq> s' \<Longrightarrow>
   store_nodes st \<inter> store_nodes st' = {}"
  unfolding kv_heap_wf_def by blast

text \<open>
  Replacing one store and changing only nodes that no other store holds keeps the heap well
  formed and every other store's map.
\<close>

lemma kv_heap_replace:
  assumes wf: "kv_heap_wf H" and s: "kh_stores H s = Some st"
    and wf': "kv_wf N st'"
    and sub: "\<And>u su. u \<noteq> s \<Longrightarrow> kh_stores H u = Some su \<Longrightarrow> store_nodes su \<inter> store_nodes st' = {}"
    and same: "\<And>u su a. u \<noteq> s \<Longrightarrow> kh_stores H u = Some su \<Longrightarrow> a \<in> store_nodes su \<Longrightarrow> N a = kh_nodes H a"
    and H': "H' = H\<lparr>kh_nodes := N, kh_stores := (kh_stores H)(s \<mapsto> st')\<rparr>"
  shows "kv_heap_wf H'"
    and "ts_kv u \<noteq> Some s \<Longrightarrow> kv_map_of u H' = kv_map_of u H"
proof -
  have wf_u: "kv_wf N su" if "u \<noteq> s" "kh_stores H u = Some su" for u su
    by (rule kv_wf_frame [OF kv_heap_wf_store [OF wf that(2)]]) (rule same [OF that])
  have "store_nodes su \<inter> store_nodes sv = {}"
    if "kh_stores H' u = Some su" "kh_stores H' w = Some sv" "u \<noteq> w" for u w su sv
    using that sub [of u su] sub [of w sv] kv_heap_wf_disjoint [OF wf, of u su w sv]
    by (auto simp: H' split: if_splits)
  moreover have "kv_wf N su" if "kh_stores H' u = Some su" for u su
    using that wf_u wf' by (auto simp: H' split: if_splits)
  ultimately show "kv_heap_wf H'"
    by (simp add: kv_heap_wf_def H')
  show "kv_map_of u H' = kv_map_of u H" if "ts_kv u \<noteq> Some s"
    using that same
    by (cases "ts_kv u")
      (auto simp: kv_map_of_def H' fun_eq_iff intro!: kv_lookup_frame split: option.splits)
qed

lemma kv_live_replace:
  "kv_live u H \<Longrightarrow> kv_unlocked st' \<Longrightarrow>
   kv_live u (H\<lparr>kh_nodes := N, kh_stores := (kh_stores H)(s \<mapsto> st')\<rparr>)"
  unfolding kv_live_def by auto

lemma unlock_lock [simp]:
  "kvs_locks st h = None \<Longrightarrow>
   spin_unlock h (st\<lparr>kvs_locks := (kvs_locks st)(h := Some cur)\<rparr>) = st"
  by (simp add: spin_unlock_def fun_upd_idem)

lemma unlock_lock_push:
  "kvs_locks st h = None \<Longrightarrow>
   spin_unlock h (st\<lparr>kvs_locks := (kvs_locks st)(h := Some cur), kvs_head := f\<rparr>) =
   st\<lparr>kvs_head := f\<rparr>"
  by (simp add: spin_unlock_def fun_upd_idem)

lemma store_nodes_push:
  "store_nodes (push_node k a st) = insert a (store_nodes st)"
proof -
  have "a \<in> store_nodes (push_node k a st)"
    by (rule in_store_nodes [of _ _ "kv_hash k"]) simp_all
  then show ?thesis
    by (auto simp: store_nodes_def split: if_splits)
qed

lemma write_existing:
  assumes wf: "kv_heap_wf H" and s: "ts_kv t = Some s" "kh_stores H s = Some st"
    and l: "kvs_locks st (kv_hash k) = None" and k: "kv_map_of t H k \<noteq> None"
  obtains a n where "kh_nodes H a = Some n" "a \<in> store_nodes st"
    "find (\<lambda>a. node_key (kh_nodes H) a = Some k) (kvs_head st (kv_hash k)) = Some a"
    "sys_write_kv kmalloc cur t k v H =
       Done (4, H\<lparr>kh_nodes := (kh_nodes H)(a \<mapsto> n\<lparr>kv_value := v\<rparr>),
                  kh_stores := (kh_stores H)(s \<mapsto> st)\<rparr>)"
proof -
  note wfs = kv_heap_wf_store [OF wf s(2)]
  from k s obtain a where
    f: "find (\<lambda>a. node_key (kh_nodes H) a = Some k) (kvs_head st (kv_hash k)) = Some a"
    by (auto simp: kv_map_of_def kv_lookup_None_iff [OF wfs])
  from find_SomeE [OF f] obtain n where n: "kh_nodes H a = Some n"
    and a: "a \<in> set (kvs_head st (kv_hash k))"
    by (auto simp: node_key_def)
  have "hlist_find (kh_nodes H) k (kvs_head st (kv_hash k)) = Done (Some a)"
    using hlist_find_wf [OF kv_wf_bucket [OF wfs]] f by simp
  with n a f s l show ?thesis
    by (intro that [of a n]) (auto simp: sys_write_kv_def spin_lock_def in_store_nodes)
qed

lemma write_new:
  assumes wf: "kv_heap_wf H" and s: "ts_kv t = Some s" "kh_stores H s = Some st"
    and l: "kvs_locks st (kv_hash k) = None" and k: "kv_map_of t H k = None"
  shows "sys_write_kv kmalloc cur t k v H =
    (case kmalloc of
       None \<Rightarrow> Done (-1, H\<lparr>kh_stores := (kh_stores H)(s \<mapsto> st)\<rparr>)
     | Some a \<Rightarrow> Done (4, H\<lparr>kh_nodes := (kh_nodes H)(a \<mapsto> \<lparr>kv_key = k, kv_value = v\<rparr>),
                            kh_stores := (kh_stores H)(s \<mapsto> push_node k a st)\<rparr>))"
proof -
  note wfs = kv_heap_wf_store [OF wf s(2)]
  from k s have "find (\<lambda>a. node_key (kh_nodes H) a = Some k) (kvs_head st (kv_hash k)) = None"
    by (simp add: kv_map_of_def kv_lookup_None_iff [OF wfs])
  then have "hlist_find (kh_nodes H) k (kvs_head st (kv_hash k)) = Done None"
    using hlist_find_wf [OF kv_wf_bucket [OF wfs]] by simp
  with s l show ?thesis
    by (simp add: sys_write_kv_def spin_lock_def unlock_lock_push Let_def split: option.splits)
qed

lemma kv_unlocked_lock: "kv_unlocked st \<Longrightarrow> kvs_locks st (kv_hash k) = None"
  by (simp add: kv_unlocked_def)

lemma kv_unlocked_head [simp]: "kv_unlocked (st\<lparr>kvs_head := f\<rparr>) = kv_unlocked st"
  by (simp add: kv_unlocked_def)

text \<open>
  The abstract effect of a successful write by \<open>t\<close>: the map of \<open>t\<close> is updated at exactly one
  key, the map of every task with another store is untouched, the heap stays well formed and
  no lock is left held.
\<close>

definition kv_updates :: "task_struct \<Rightarrow> c_int \<Rightarrow> c_int \<Rightarrow> kv_heap \<Rightarrow> kv_heap \<Rightarrow> bool" where
  "kv_updates t k v H H' \<longleftrightarrow>
     kv_heap_wf H' \<and> kv_map_of t H' = (kv_map_of t H)(k \<mapsto> v) \<and>
     (\<forall>u. ts_kv u \<noteq> ts_kv t \<longrightarrow> kv_map_of u H' = kv_map_of u H) \<and>
     (\<forall>u. kv_live u H \<longrightarrow> kv_live u H')"

lemma kv_updates_existing:
  assumes wf: "kv_heap_wf H" and s: "ts_kv t = Some s" "kh_stores H s = Some st"
    and ul: "kv_unlocked st" and k: "kv_map_of t H k \<noteq> None"
  shows "\<exists>H'. sys_write_kv kmalloc cur t k v H = Done (4, H') \<and> kv_updates t k v H H'"
proof -
  note wfs = kv_heap_wf_store [OF wf s(2)]
  from write_existing [OF wf s kv_unlocked_lock [OF ul] k, of kmalloc cur v] obtain a n
    where a: "kh_nodes H a = Some n" "a \<in> store_nodes st"
      and f: "find (\<lambda>a. node_key (kh_nodes H) a = Some k) (kvs_head st (kv_hash k)) = Some a"
      and eq: "sys_write_kv kmalloc cur t k v H =
        Done (4, H\<lparr>kh_nodes := (kh_nodes H)(a \<mapsto> n\<lparr>kv_value := v\<rparr>),
                   kh_stores := (kh_stores H)(s \<mapsto> st)\<rparr>)"
    by blast
  let ?N = "(kh_nodes H)(a \<mapsto> n\<lparr>kv_value := v\<rparr>)"
  let ?H = "H\<lparr>kh_nodes := ?N, kh_stores := (kh_stores H)(s \<mapsto> st)\<rparr>"
  have dis: "store_nodes su \<inter> store_nodes st = {}" if "u \<noteq> s" "kh_stores H u = Some su" for u su
    using kv_heap_wf_disjoint [OF wf that(2) s(2) that(1)] .
  have same: "?N b = kh_nodes H b" if "u \<noteq> s" "kh_stores H u = Some su" "b \<in> store_nodes su" for u su b
    using dis [OF that(1,2)] that(3) a(2) by auto
  note R = kv_heap_replace [OF wf s(2) kv_wf_update_value [OF wfs a(1), of v] _ _ refl]
  have "kv_heap_wf ?H"
    by (rule R(1)) (simp_all only: dis same)
  moreover have "kv_map_of u ?H = kv_map_of u H" if "ts_kv u \<noteq> ts_kv t" for u
    by (rule R(2)) (use that s(1) in \<open>simp_all only: dis same simp_thms\<close>)
  moreover have "kv_map_of t ?H = (kv_map_of t H)(k \<mapsto> v)"
    using s kv_lookup_update_value [OF wfs a(1) f] by (simp add: kv_map_of_def)
  ultimately show ?thesis
    using eq kv_live_replace [OF _ ul, where H = H and N = ?N and s = s]
    by (auto simp: kv_updates_def)
qed

lemma kv_updates_new:
  assumes wf: "kv_heap_wf H" and s: "ts_kv t = Some s" "kh_stores H s = Some st"
    and ul: "kv_unlocked st" and k: "kv_map_of t H k = None" and a: "a \<notin> dom (kh_nodes H)"
  shows "\<exists>H'. sys_write_kv (Some a) cur t k v H = Done (4, H') \<and> kv_updates t k v H H'"
proof -
  note wfs = kv_heap_wf_store [OF wf s(2)]
  let ?N = "(kh_nodes H)(a \<mapsto> \<lparr>kv_key = k, kv_value = v\<rparr>)"
  let ?H = "H\<lparr>kh_nodes := ?N, kh_stores := (kh_stores H)(s \<mapsto> push_node k a st)\<rparr>"
  have new: "kv_lookup (kh_nodes H) st k = None"
    using k s by (simp add: kv_map_of_def)
  have fr: "a \<notin> store_nodes su" if "kh_stores H u = Some su" for u su
    using store_nodes_alloc [OF kv_heap_wf_store [OF wf that]] a by blast
  have same: "?N b = kh_nodes H b" if "u \<noteq> s" "kh_stores H u = Some su" "b \<in> store_nodes su" for u su b
    using fr [OF that(2)] that(3) by auto
  have dis: "store_nodes su \<inter> store_nodes (push_node k a st) = {}"
    if "u \<noteq> s" "kh_stores H u = Some su" for u su
    using kv_heap_wf_disjoint [OF wf that(2) s(2) that(1)] fr [OF that(2)]
    by (simp add: store_nodes_push)
  note R = kv_heap_replace [OF wf s(2) kv_wf_push [OF wfs a new, of v] _ _ refl]
  have "kv_heap_wf ?H"
    by (rule R(1)) (simp_all only: dis same)
  moreover have "kv_map_of u ?H = kv_map_of u H" if "ts_kv u \<noteq> ts_kv t" for u
    by (rule R(2)) (use that s(1) in \<open>simp_all only: dis same simp_thms\<close>)
  moreover have "kv_map_of t ?H = (kv_map_of t H)(k \<mapsto> v)"
    using s kv_lookup_push [OF wfs a] by (simp add: kv_map_of_def)
  ultimately show ?thesis
    using write_new [OF wf s kv_unlocked_lock [OF ul] k, of "Some a" cur v] ul
      kv_live_replace [where H = H and st' = "push_node k a st" and N = ?N and s = s]
    by (auto simp: kv_updates_def)
qed

lemma sys_write_kv_spec:
  assumes wf: "kv_heap_wf H" and live: "kv_live t H" and fresh: "kv_fresh H kmalloc"
  shows "if kv_map_of t H k = None \<and> kmalloc = None
     then sys_write_kv kmalloc cur t k v H = Done (-1, H)
     else \<exists>H'. sys_write_kv kmalloc cur t k v H = Done (4, H') \<and> kv_updates t k v H H'"
proof -
  from live obtain s st where s: "ts_kv t = Some s" "kh_stores H s = Some st"
    and ul: "kv_unlocked st"
    by (auto simp: kv_live_def)
  show ?thesis
  proof (cases "kv_map_of t H k")
    case None
    show ?thesis
    proof (cases kmalloc)
      case None
      then show ?thesis
        using write_new [OF wf s kv_unlocked_lock [OF ul] \<open>kv_map_of t H k = None\<close>, of None cur v]
          s(2) \<open>kv_map_of t H k = None\<close> by (simp add: fun_upd_idem)
    next
      case (Some a)
      with fresh have "a \<notin> dom (kh_nodes H)" by (simp add: kv_fresh_def)
      from kv_updates_new [OF wf s ul None this] Some show ?thesis by simp
    qed
  next
    case (Some w)
    then show ?thesis using kv_updates_existing [OF wf s ul, of k kmalloc cur v] by simp
  qed
qed

lemma sys_read_kv_spec:
  assumes wf: "kv_heap_wf H" and live: "kv_live t H"
  shows "sys_read_kv cur t k H =
    Done (scast (case kv_map_of t H k of None \<Rightarrow> -1 | Some v \<Rightarrow> v), H)"
proof -
  from live obtain s st where s: "ts_kv t = Some s" "kh_stores H s = Some st"
    and ul: "kv_unlocked st"
    by (auto simp: kv_live_def)
  note wfs = kv_heap_wf_store [OF wf s(2)]
  let ?f = "find (\<lambda>a. node_key (kh_nodes H) a = Some k) (kvs_head st (kv_hash k))"
  have "hlist_find (kh_nodes H) k (kvs_head st (kv_hash k)) = Done ?f"
    using hlist_find_wf [OF kv_wf_bucket [OF wfs]] by simp
  moreover have "\<exists>n. kh_nodes H a = Some n" if "?f = Some a" for a
    using find_SomeE [OF that] by (auto simp: node_key_def)
  ultimately show ?thesis
    using s kv_unlocked_lock [OF ul, of k]
    by (cases ?f)
      (auto simp: sys_read_kv_def spin_lock_def kv_map_of_def kv_lookup_def fun_upd_idem Let_def)
qed

section \<open>The store as a key-value map\<close>

definition kv_put :: "addr \<Rightarrow> task_struct \<Rightarrow> ptr \<Rightarrow> kv_heap \<Rightarrow> c_int \<Rightarrow> c_int \<Rightarrow> kv_heap option" where
  "kv_put cur t kmalloc H k v =
     (case sys_write_kv kmalloc cur t k v H of Done (r, H') \<Rightarrow> if r = 4 then Some H' else None
      | _ \<Rightarrow> None)"

definition kv_get :: "addr \<Rightarrow> task_struct \<Rightarrow> kv_heap \<Rightarrow> c_int \<Rightarrow> c_long option" where
  "kv_get cur t H k = (case sys_read_kv cur t k H of Done (r, H') \<Rightarrow> Some r | _ \<Rightarrow> None)"

definition kv_ok :: "task_struct \<Rightarrow> kv_heap \<Rightarrow> bool" where
  "kv_ok t H \<longleftrightarrow> kv_heap_wf H \<and> kv_live t H"

definition kv_can_alloc :: "kv_heap \<Rightarrow> ptr \<Rightarrow> bool" where
  "kv_can_alloc H a \<longleftrightarrow> a \<noteq> None \<and> kv_fresh H a"

lemma kv_put_spec:
  assumes "kv_ok t H" and "kv_can_alloc H a"
  shows "\<exists>H'. kv_put cur t a H k v = Some H' \<and> kv_updates t k v H H'"
  using assms sys_write_kv_spec [of H t a k cur v]
  by (auto simp: kv_put_def kv_ok_def kv_can_alloc_def)

interpretation kvk: kv_map
  "kv_ok t" "kv_map_of t" kv_can_alloc
  "kv_put cur t" "kv_get cur t" "Some (-1)" "\<lambda>v. Some (scast v)"
  for cur t
proof unfold_locales
  fix H :: kv_heap and a k v H'
  assume inv: "kv_ok t H"
  {
    assume rdy: "kv_can_alloc H a"
    note spec = kv_put_spec [OF inv rdy, of cur k v]
    from spec show "\<exists>H'. kv_put cur t a H k v = Some H'" by blast
    assume "kv_put cur t a H k v = Some H'"
    with spec have upd: "kv_updates t k v H H'" by auto
    then show "kv_ok t H'" using inv by (simp add: kv_updates_def kv_ok_def)
    from upd show "kv_map_of t H' = (kv_map_of t H)(k \<mapsto> v)" by (simp add: kv_updates_def)
  }
  show "kv_get cur t H k =
      (case kv_map_of t H k of None \<Rightarrow> Some (-1) | Some v \<Rightarrow> Some (scast v))"
    using sys_read_kv_spec [of H t cur k] inv by (auto simp: kv_get_def kv_ok_def split: option.splits)
qed

section \<open>Initialisation and cleanup\<close>

lemma init_buckets_spec:
  "kvs_head (init_buckets n i st) h = (if i \<le> h \<and> h < i + n then [] else kvs_head st h) \<and>
   kvs_locks (init_buckets n i st) h = (if i \<le> h \<and> h < i + n then None else kvs_locks st h)"
  by (induction n i st rule: init_buckets.induct) auto

lemma init_buckets_clean:
  "h < KV_BUCKETS \<Longrightarrow> kvs_head (init_buckets KV_BUCKETS 0 junk) h = []"
  "h < KV_BUCKETS \<Longrightarrow> kvs_locks (init_buckets KV_BUCKETS 0 junk) h = None"
  using init_buckets_spec [of KV_BUCKETS 0 junk h] by simp_all

lemma init_store_empty:
  "kv_wf N (init_buckets KV_BUCKETS 0 junk)"
  "kv_unlocked (init_buckets KV_BUCKETS 0 junk)"
  "store_nodes (init_buckets KV_BUCKETS 0 junk) = {}"
  "kv_lookup N (init_buckets KV_BUCKETS 0 junk) = Map.empty"
  by (auto simp: kv_wf_def bucket_wf_def kv_unlocked_def store_nodes_def kv_lookup_def
      init_buckets_clean)

lemma free_bucket_spec:
  "distinct as \<Longrightarrow> set as \<subseteq> dom N \<Longrightarrow> free_bucket as N = Done (N |` (- set as))"
proof (induction as arbitrary: N)
  case Nil
  then show ?case by simp
next
  case (Cons a as)
  have "free_bucket as (N(a := None)) = Done ((N(a := None)) |` (- set as))"
    using Cons.prems by (intro Cons.IH) auto
  moreover have "(N(a := None)) |` (- set as) = N |` (- set (a # as))"
    by (auto simp: restrict_map_def fun_eq_iff)
  moreover obtain n where "N a = Some n"
    using Cons.prems by auto
  ultimately show ?case by simp
qed

lemma bucket_wf_distinct: "bucket_wf N h as \<Longrightarrow> distinct as"
  by (auto simp: bucket_wf_def distinct_map)

lemma bucket_wf_restrict:
  assumes "bucket_wf N h as" and "set as \<inter> X = {}"
  shows "bucket_wf (N |` (- X)) h as"
  by (rule bucket_wf_cong [OF _ assms(1)]) (use assms(2) in \<open>auto simp: node_key_def restrict_map_def\<close>)

lemma bucket_wf_hash_disjoint:
  "bucket_wf N h as \<Longrightarrow> bucket_wf N h' bs \<Longrightarrow> h \<noteq> h' \<Longrightarrow> set as \<inter> set bs = {}"
  by (fastforce simp: bucket_wf_def)

text \<open>The nodes of the buckets \<open>i, \<dots>, i + n - 1\<close>.\<close>

abbreviation range_nodes :: "kv_store \<Rightarrow> nat \<Rightarrow> nat \<Rightarrow> addr set" where
  "range_nodes st i n \<equiv> (\<Union>h \<in> {i..<i + n}. set (kvs_head st h))"

lemma range_nodes_Suc: "range_nodes st i (Suc n) = set (kvs_head st i) \<union> range_nodes st (Suc i) n"
proof -
  have "{i..<i + Suc n} = insert i {Suc i..<Suc i + n}" by auto
  then show ?thesis by simp
qed

lemma cleanup_buckets_spec:
  assumes "\<And>h. i \<le> h \<Longrightarrow> h < i + n \<Longrightarrow> bucket_wf N h (kvs_head st h)"
    and "\<And>h. i \<le> h \<Longrightarrow> h < i + n \<Longrightarrow> kvs_locks st h = None"
  shows "cleanup_buckets n i cur st N =
    Done (st\<lparr>kvs_head := \<lambda>h. if i \<le> h \<and> h < i + n then [] else kvs_head st h\<rparr>,
          N |` (- range_nodes st i n))"
  using assms
proof (induction n arbitrary: i st N)
  case 0
  have "(\<lambda>h. if i \<le> h \<and> h < i then [] else kvs_head st h) = kvs_head st"
    by (auto simp: fun_eq_iff)
  then show ?case by simp
next
  case (Suc n)
  let ?st = "st\<lparr>kvs_head := (kvs_head st)(i := [])\<rparr>" and ?N = "N |` (- set (kvs_head st i))"
  have wfi: "bucket_wf N i (kvs_head st i)" and li: "kvs_locks st i = None"
    using Suc.prems by simp_all
  have "free_bucket (kvs_head st i) N = Done ?N"
    using wfi by (intro free_bucket_spec) (auto dest: bucket_wf_distinct bucket_wf_alloc)
  then have "cleanup_buckets (Suc n) i cur st N = cleanup_buckets n (Suc i) cur ?st ?N"
    using li by (simp add: spin_lock_def unlock_lock_push)
  also have "\<dots> = Done (?st\<lparr>kvs_head := \<lambda>h. if Suc i \<le> h \<and> h < Suc i + n then [] else kvs_head ?st h\<rparr>,
      ?N |` (- range_nodes ?st (Suc i) n))"
  proof (rule Suc.IH)
    fix h assume h: "Suc i \<le> h" "h < Suc i + n"
    then have wfh: "bucket_wf N h (kvs_head st h)" using Suc.prems(1) by simp
    from bucket_wf_hash_disjoint [OF wfh wfi] h have "set (kvs_head st h) \<inter> set (kvs_head st i) = {}"
      by simp
    from bucket_wf_restrict [OF wfh this] h show "bucket_wf ?N h (kvs_head ?st h)" by simp
    from h show "kvs_locks ?st h = None" using Suc.prems(2) by simp
  qed
  also have "(\<lambda>h. if Suc i \<le> h \<and> h < Suc i + n then [] else kvs_head ?st h) =
      (\<lambda>h. if i \<le> h \<and> h < i + Suc n then [] else kvs_head st h)"
    by auto
  also have "?N |` (- range_nodes ?st (Suc i) n) = N |` (- range_nodes st i (Suc n))"
    unfolding range_nodes_Suc by (simp add: Int_commute)
  finally show ?case by simp
qed

text \<open>
  Cleanup by a group leader frees every node of its store exactly once, empties the map and
  leaves every other store as it was. The store object itself is not freed.
\<close>

lemma cleanup_spec:
  assumes wf: "kv_heap_wf H" and live: "kv_live t H" and leader: "ts_tgid t = ts_pid t"
    and s: "ts_kv t = Some s" "kh_stores H s = Some st"
  obtains H' where "cleanup_task_kv_store cur t H = Done H'"
    "kh_nodes H' = kh_nodes H |` (- store_nodes st)"
    "kh_stores H' = (kh_stores H)(s \<mapsto>
       st\<lparr>kvs_head := \<lambda>h. if h < KV_BUCKETS then [] else kvs_head st h\<rparr>)"
proof -
  from live s have ul: "kv_unlocked st" by (auto simp: kv_live_def)
  have "range_nodes st 0 KV_BUCKETS = store_nodes st"
    by (simp add: store_nodes_def lessThan_atLeast0)
  with cleanup_buckets_spec [of 0 KV_BUCKETS "kh_nodes H" st cur] ul
    kv_wf_bucket [OF kv_heap_wf_store [OF wf s(2)]]
  have "cleanup_buckets KV_BUCKETS 0 cur st (kh_nodes H) =
      Done (st\<lparr>kvs_head := \<lambda>h. if h < KV_BUCKETS then [] else kvs_head st h\<rparr>,
            kh_nodes H |` (- store_nodes st))"
    by (simp add: kv_unlocked_def del: Compl_UN)
  with leader s show ?thesis
    by (intro that) (auto simp: cleanup_task_kv_store_def simp del: cleanup_buckets.simps)
qed

section \<open>Properties\<close>

text \<open>
  A run of \<^verbatim>\<open>write_kv\<close> calls by one task, each with the answer of its \<^verbatim>\<open>kmalloc\<close>; \<open>None\<close> as soon as
  a call does not return the four bytes written.
\<close>

fun kv_writes :: "addr \<Rightarrow> task_struct \<Rightarrow> kv_heap \<Rightarrow> (ptr \<times> c_int \<times> c_int) list \<Rightarrow> kv_heap option" where
  "kv_writes cur t H [] = Some H"
| "kv_writes cur t H ((a, k, v) # ws) =
     (if kv_can_alloc H a then
        (case kv_put cur t a H k v of None \<Rightarrow> None | Some H' \<Rightarrow> kv_writes cur t H' ws)
      else None)"

lemma kv_writes_run: "kv_writes cur t H ws = kvk.run_puts cur t H ws"
  by (induction cur t H ws rule: kv_writes.induct) (auto split: option.splits)

text \<open>A concrete heap for the witnesses: one task that has just been given its store.\<close>

definition demo_task :: task_struct where
  "demo_task = zero_task\<lparr>ts_pid := 7, ts_tgid := 7, ts_kv := Some 50\<rparr>"

definition demo_junk :: kv_store where
  "demo_junk = \<lparr>kvs_locks = (\<lambda>_. Some 3), kvs_head = (\<lambda>_. [9])\<rparr>"

definition demo_heap :: kv_heap where
  "demo_heap = \<lparr>kh_nodes = Map.empty, kh_stores = [50 \<mapsto> init_buckets KV_BUCKETS 0 demo_junk]\<rparr>"

lemma demo_heap_wf: "kv_heap_wf demo_heap"
  by (auto simp: demo_heap_def kv_heap_wf_def init_store_empty)

lemma demo_live: "kv_live demo_task demo_heap"
  by (simp add: kv_live_def demo_task_def demo_heap_def init_store_empty)

lemma demo_map: "kv_map_of demo_task demo_heap = Map.empty"
  by (simp add: kv_map_of_def demo_task_def demo_heap_def init_store_empty)



text \<open>
  C10: A read after any run of successful writes returns the value of the last write to that key,
  sign-extended to the system call's long, and what it returned before the run (-1 for a key
  never written) if the run did not write the key.
\<close>

theorem read_kv_last_write:
  assumes "kv_heap_wf H" and "kv_live t H" and "kv_writes cur t H ws = Some H'"
  shows "kv_get cur t H' k =
    (case map_of (rev (map snd ws)) k of None \<Rightarrow> kv_get cur t H k | Some v \<Rightarrow> Some (scast v))"
  using assms by (intro kvk.get_run_puts) (simp_all add: kv_writes_run kv_ok_def)

theorem read_kv_last_write_witness:
  "\<exists>H'. kv_writes 1 demo_task demo_heap [(Some 60, 5, 10), (Some 61, 5 + 1024, 11), (Some 62, 5, -3)] = Some H' \<and>
     kv_get 1 demo_task H' 5 = Some (-3) \<and> kv_get 1 demo_task H' 1029 = Some 11 \<and>
     kv_get 1 demo_task H' 6 = Some (-1)"
proof -
  let ?ws = "[(Some 60, 5, 10), (Some 61, 5 + 1024, 11), (Some 62, 5, -3)]"
  have "\<exists>H'. kv_writes 1 demo_task demo_heap ?ws = Some H'"
    by (simp add: kv_put_def sys_write_kv_def demo_task_def demo_heap_def init_buckets_clean
        spin_lock_def kv_can_alloc_def kv_fresh_def kv_hash_def spin_unlock_def Let_def)
  then obtain H' where H': "kv_writes 1 demo_task demo_heap ?ws = Some H'" by blast
  have g: "kv_get 1 demo_task demo_heap 6 = Some (-1)"
    by (simp add: kv_get_def sys_read_kv_spec demo_heap_wf demo_live demo_map)
  show ?thesis
    using H' g read_kv_last_write [OF demo_heap_wf demo_live H', of 5]
      read_kv_last_write [OF demo_heap_wf demo_live H', of 1029]
      read_kv_last_write [OF demo_heap_wf demo_live H', of 6]
    by auto
qed

text \<open>
  \<^verbatim>\<open>init_task_kv_store\<close> turns whatever memory \<^verbatim>\<open>kmalloc\<close> returned into an empty, unlocked,
  well-formed store and leaves every other task's map as it was. When \<^verbatim>\<open>kmalloc\<close> fails it returns
  -1 with a NULL store pointer, and then both system calls of that task fault.
\<close>

theorem init_kv_correct:
  assumes "kv_heap_wf H" and "\<forall>s. kmalloc = Some s \<longrightarrow> s \<notin> dom (kh_stores H)"
    and "init_task_kv_store kmalloc junk t H = (r, t', H')"
  shows "case kmalloc of
      None \<Rightarrow> r = -1 \<and> ts_kv t' = None \<and> H' = H \<and>
        sys_write_kv a cur t' k v H' = Oops \<and> sys_read_kv cur t' k H' = Oops
    | Some s \<Rightarrow> r = 0 \<and> ts_kv t' = Some s \<and> kv_heap_wf H' \<and> kv_live t' H' \<and>
        kv_map_of t' H' = Map.empty \<and>
        (\<forall>u. ts_kv u \<noteq> Some s \<longrightarrow> kv_map_of u H' = kv_map_of u H)"
proof (cases kmalloc)
  case None
  with assms(3) show ?thesis
    by (auto simp: init_task_kv_store_def sys_write_kv_def sys_read_kv_def)
next
  case (Some s)
  with assms(3) have eqs: "r = 0" "t' = t\<lparr>ts_kv := Some s\<rparr>"
    "H' = H\<lparr>kh_stores := (kh_stores H)(s \<mapsto> init_buckets KV_BUCKETS 0 junk)\<rparr>"
    by (simp_all add: init_task_kv_store_def)
  have "kv_heap_wf H'"
    using assms(1) by (auto simp: eqs kv_heap_wf_def init_store_empty)
  moreover have "kv_map_of u H' = kv_map_of u H" if "ts_kv u \<noteq> Some s" for u
    using that by (cases "ts_kv u") (auto simp: kv_map_of_def eqs split: option.splits)
  ultimately show ?thesis
    using Some by (simp add: eqs kv_live_def kv_map_of_def init_store_empty)
qed

theorem init_kv_correct_witness:
  "kv_heap_wf demo_heap \<and>
   (case init_task_kv_store (Some 51) demo_junk (zero_task\<lparr>ts_pid := 8\<rparr>) demo_heap of (r, t', H') \<Rightarrow>
      r = 0 \<and> kv_live t' H' \<and> kv_map_of t' H' = Map.empty)"
proof -
  have f: "\<forall>s. Some 51 = Some s \<longrightarrow> s \<notin> dom (kh_stores demo_heap)"
    by (simp add: demo_heap_def)
  obtain r t' H' where "init_task_kv_store (Some 51) demo_junk (zero_task\<lparr>ts_pid := 8\<rparr>) demo_heap = (r, t', H')"
    by (rule prod_cases3)
  from this init_kv_correct [OF demo_heap_wf f this] show ?thesis
    by (simp add: demo_heap_wf)
qed

text \<open>
  C37: \<^verbatim>\<open>cleanup_task_kv_store\<close> does nothing for a task that is not its group leader. For a leader
  it faults and blocks nowhere, frees exactly the nodes of the leader's store (each once), leaves
  the store empty and unlocked, and keeps the map of every task with another store. The store
  object itself stays allocated: nothing in the file frees it.
\<close>

theorem cleanup_kv_correct:
  assumes "kv_heap_wf H" and "kv_live t H"
    and "ts_kv t = Some s" and "kh_stores H s = Some st"
  shows "if ts_tgid t \<noteq> ts_pid t then cleanup_task_kv_store cur t H = Done H
    else \<exists>H'. cleanup_task_kv_store cur t H = Done H' \<and>
      dom (kh_nodes H') = dom (kh_nodes H) - store_nodes st \<and>
      kv_heap_wf H' \<and> kv_live t H' \<and> kv_map_of t H' = Map.empty \<and>
      (\<forall>u. ts_kv u \<noteq> Some s \<longrightarrow> kv_map_of u H' = kv_map_of u H) \<and>
      s \<in> dom (kh_stores H')"
proof (cases "ts_tgid t = ts_pid t")
  case False
  then show ?thesis by (simp add: cleanup_task_kv_store_def)
next
  case True
  let ?st = "st\<lparr>kvs_head := \<lambda>h. if h < KV_BUCKETS then [] else kvs_head st h\<rparr>"
  from cleanup_spec [OF assms(1,2) True assms(3,4), of cur] obtain H' where
    c: "cleanup_task_kv_store cur t H = Done H'" and
    N: "kh_nodes H' = kh_nodes H |` (- store_nodes st)" and
    S: "kh_stores H' = (kh_stores H)(s \<mapsto> ?st)"
    by blast
  have ul: "kv_unlocked st" using assms by (auto simp: kv_live_def)
  have empty: "kv_wf (kh_nodes H') ?st" "store_nodes ?st = {}" "kv_lookup (kh_nodes H') ?st = Map.empty"
    by (auto simp: kv_wf_def bucket_wf_def store_nodes_def kv_lookup_def)
  have same: "kh_nodes H' a = kh_nodes H a" if "u \<noteq> s" "kh_stores H u = Some su" "a \<in> store_nodes su" for u su a
    using kv_heap_wf_disjoint [OF assms(1) that(2) assms(4) that(1)] that(3)
    by (auto simp: N restrict_map_def)
  have H': "H' = H\<lparr>kh_nodes := kh_nodes H', kh_stores := (kh_stores H)(s \<mapsto> ?st)\<rparr>"
    using S by simp
  note R = kv_heap_replace [OF assms(1,4) empty(1) _ _ H']
  have "kv_heap_wf H'"
    by (rule R(1)) (simp_all add: empty same)
  moreover have "kv_map_of u H' = kv_map_of u H" if "ts_kv u \<noteq> Some s" for u
    by (rule R(2)) (use that in \<open>simp_all add: empty same\<close>)
  moreover have "kv_live t H'" "kv_map_of t H' = Map.empty"
    using assms(3) S ul empty by (simp_all add: kv_live_def kv_map_of_def)
  ultimately show ?thesis
    using True c S by (auto simp: N)
qed

theorem cleanup_kv_correct_witness:
  "\<exists>H H'. sys_write_kv (Some 60) 1 demo_task 5 42 demo_heap = Done (4, H) \<and>
     cleanup_task_kv_store 1 demo_task H = Done H' \<and>
     60 \<in> dom (kh_nodes H) \<and> 60 \<notin> dom (kh_nodes H') \<and> 50 \<in> dom (kh_stores H')"
proof -
  let ?st = "push_node 5 60 (init_buckets KV_BUCKETS 0 demo_junk)"
  let ?H = "demo_heap\<lparr>kh_nodes := [60 \<mapsto> \<lparr>kv_key = 5, kv_value = 42\<rparr>],
     kh_stores := [50 \<mapsto> ?st]\<rparr>"
  have f: "kv_fresh demo_heap (Some 60)" by (simp add: kv_fresh_def demo_heap_def)
  have w: "sys_write_kv (Some 60) 1 demo_task 5 42 demo_heap = Done (4, ?H)"
    using write_new [OF demo_heap_wf, of demo_task 50 "init_buckets KV_BUCKETS 0 demo_junk" 5 "Some 60" 1 42]
    by (simp add: demo_task_def demo_heap_def init_buckets_clean kv_map_of_def init_store_empty)
  from sys_write_kv_spec [OF demo_heap_wf demo_live f, of 5 1 42] w demo_live
  have ok: "kv_heap_wf ?H" "kv_live demo_task ?H" by (auto simp: kv_updates_def)
  have "60 \<in> store_nodes ?st" by (simp add: store_nodes_push)
  moreover note cleanup_kv_correct [OF ok, of 50 ?st 1]
  moreover have "ts_tgid demo_task = ts_pid demo_task" "ts_kv demo_task = Some 50"
    by (simp_all add: demo_task_def)
  ultimately show ?thesis using w by auto
qed

end
