(* ===== verification/Kernel.thy ===== *)
theory Kernel
  imports Sched Kv_Store
begin

text \<open>
  The kernel state the functions of \<^verbatim>\<open>kernel/fork.c\<close> work on. Each kind of object has its own heap,
  a map from addresses; a field \<^verbatim>\<open>x->f\<close> of the C code is the field of the record stored at \<open>x\<close>.
  The structures declared in headers that are not part of the tree (\<^verbatim>\<open>signal_struct\<close>, \<^verbatim>\<open>mm_struct\<close>,
  \<^verbatim>\<open>vm_area_struct\<close>, \<^verbatim>\<open>file\<close>, ...) have exactly the fields \<^verbatim>\<open>fork.c\<close> reads or writes. The numeric
  constants of such headers are fields of the record \<open>kconst\<close>, an argument \<open>K\<close> of the definitions
  that use them, and \<open>linux_x86\<close> is the instance with the values of Linux 5.15 on x86-64.

  Calls into other subsystems are kept in a ghost log, newest first: \<open>Acq r\<close> and \<open>Rel r\<close> for the
  calls that take and give back a resource, \<open>Call f\<close> for a call of \<open>f\<close> with no effect the model
  keeps. \<open>held\<close> is the number of references of each resource still taken.
\<close>

section \<open>Constants of headers outside the tree\<close>

record kconst =
  CLONE_VM :: u64
  CLONE_FS :: u64
  CLONE_FILES :: u64
  CLONE_SIGHAND :: u64
  CLONE_PIDFD :: u64
  CLONE_PTRACE :: u64
  CLONE_VFORK :: u64
  CLONE_PARENT :: u64
  CLONE_THREAD :: u64
  CLONE_NEWNS :: u64
  CLONE_SYSVSEM :: u64
  CLONE_PARENT_SETTID :: u64
  CLONE_CHILD_CLEARTID :: u64
  CLONE_DETACHED :: u64
  CLONE_UNTRACED :: u64
  CLONE_CHILD_SETTID :: u64
  CLONE_NEWCGROUP :: u64
  CLONE_NEWUTS :: u64
  CLONE_NEWIPC :: u64
  CLONE_NEWUSER :: u64
  CLONE_NEWPID :: u64
  CLONE_NEWNET :: u64
  CLONE_IO :: u64
  CLONE_CLEAR_SIGHAND :: u64
  CLONE_INTO_CGROUP :: u64
  CLONE_NEWTIME :: u64
  CLONE_LEGACY_FLAGS :: u64
  CSIGNAL :: u64
  SIGCHLD :: u64
  SIGKILL :: nat
  SIGSTOP :: nat
  NSIG :: nat
  PTRACE_EVENT_FORK :: nat
  PTRACE_EVENT_VFORK :: nat
  PTRACE_EVENT_CLONE :: nat
  SIGNAL_UNKILLABLE :: u32
  SIGNAL_GROUP_COREDUMP :: u32
  SECCOMP_MODE_DISABLED :: nat
  VM_SHARED :: u64
  VM_LOCKED :: u64
  VM_DONTCOPY :: u64
  VM_LOCKONFAULT :: u64
  VM_ACCOUNT :: u64
  VM_WIPEONFORK :: u64
  VM_INIT_DEF_MASK :: u64
  MMF_INIT_MASK :: u64
  MMF_DUMP_FILTER_SHIFT :: nat
  MMF_DUMP_FILTER_MASK :: u64
  MMF_MULTIPROCESS :: nat
  FUTEX_TID_MASK :: u64
  THREAD_SIZE :: u64
  MAX_PID_NS_LEVEL :: u64
  CLONE_ARGS_SIZE_VER0 :: u64
  CLONE_ARGS_SIZE_VER2 :: u64
  INIT_PASID :: u32

definition linux_x86 :: kconst where
  "linux_x86 = \<lparr>CLONE_VM = 0x100, CLONE_FS = 0x200, CLONE_FILES = 0x400, CLONE_SIGHAND = 0x800,
     CLONE_PIDFD = 0x1000, CLONE_PTRACE = 0x2000, CLONE_VFORK = 0x4000, CLONE_PARENT = 0x8000,
     CLONE_THREAD = 0x10000, CLONE_NEWNS = 0x20000, CLONE_SYSVSEM = 0x40000,
     CLONE_PARENT_SETTID = 0x100000, CLONE_CHILD_CLEARTID = 0x200000, CLONE_DETACHED = 0x400000,
     CLONE_UNTRACED = 0x800000, CLONE_CHILD_SETTID = 0x1000000, CLONE_NEWCGROUP = 0x2000000,
     CLONE_NEWUTS = 0x4000000, CLONE_NEWIPC = 0x8000000, CLONE_NEWUSER = 0x10000000,
     CLONE_NEWPID = 0x20000000, CLONE_NEWNET = 0x40000000, CLONE_IO = 0x80000000,
     CLONE_CLEAR_SIGHAND = 0x100000000, CLONE_INTO_CGROUP = 0x200000000, CLONE_NEWTIME = 0x80,
     CLONE_LEGACY_FLAGS = 0xffffffff, CSIGNAL = 0xff, SIGCHLD = 17, SIGKILL = 9, SIGSTOP = 19,
     NSIG = 64, PTRACE_EVENT_FORK = 1, PTRACE_EVENT_VFORK = 2, PTRACE_EVENT_CLONE = 3,
     SIGNAL_UNKILLABLE = 0x40, SIGNAL_GROUP_COREDUMP = 0x8, SECCOMP_MODE_DISABLED = 0,
     VM_SHARED = 0x8, VM_LOCKED = 0x2000, VM_DONTCOPY = 0x20000, VM_LOCKONFAULT = 0x80000,
     VM_ACCOUNT = 0x100000, VM_WIPEONFORK = 0x2000000, VM_INIT_DEF_MASK = 0x40000000,
     MMF_INIT_MASK = 0x30007ff, MMF_DUMP_FILTER_SHIFT = 2, MMF_DUMP_FILTER_MASK = 0x7fc,
     MMF_MULTIPROCESS = 27, FUTEX_TID_MASK = 0x3fffffff, THREAD_SIZE = 0x4000,
     MAX_PID_NS_LEVEL = 32, CLONE_ARGS_SIZE_VER0 = 64, CLONE_ARGS_SIZE_VER2 = 88, INIT_PASID = 0\<rparr>"

abbreviation (input) PAGE_SIZE :: u64 where "PAGE_SIZE \<equiv> 0x1000"

text \<open>\<open>has f c\<close> is the C condition \<^verbatim>\<open>f & c\<close>.\<close>

definition has :: "'a :: len word \<Rightarrow> 'a word \<Rightarrow> bool" where
  "has f c \<longleftrightarrow> f AND c \<noteq> 0"

lemma has_0 [simp]: "\<not> has 0 c" "\<not> has c 0"
  by (simp_all add: has_def)

lemma has_or: "has f (a OR b) \<longleftrightarrow> has f a \<or> has f b"
  by (auto simp: has_def bit_eq_iff bit_simps)

section \<open>The ghost log\<close>

datatype resource =
    R_task | R_stack | R_creds | R_nproc | R_delayacct | R_mempolicy | R_perf | R_audit
  | R_security | R_semundo | R_namespaces | R_thread | R_pid | R_pidref | R_unused_fd | R_pidfile
  | R_cgroup | R_sched_core | R_siglock | R_tasklist | R_pgd | R_mm_context | R_user_ns
  | R_module | R_uprobe | R_mmap_lock | R_userfaultfd | R_vma | R_vma_policy | R_signal_stats
  | R_task_lock | R_exec_update | R_cred | R_nsproxy | R_tty | R_seccomp_filter

datatype kevent = Acq resource | Rel resource | Call string | Acct int | Warn | Bug

fun held :: "kevent list \<Rightarrow> resource \<Rightarrow> int" where
  "held [] r = 0"
| "held (Acq q # es) r = held es r + (if q = r then 1 else 0)"
| "held (Rel q # es) r = held es r - (if q = r then 1 else 0)"
| "held (Call f # es) r = held es r"
| "held (Acct n # es) r = held es r"
| "held (Warn # es) r = held es r"
| "held (Bug # es) r = held es r"

text \<open>The pages accounted by \<^verbatim>\<open>security_vm_enough_memory_mm\<close> less those given back by \<^verbatim>\<open>vm_unacct_memory\<close>.\<close>

fun acct_sum :: "kevent list \<Rightarrow> int" where
  "acct_sum [] = 0"
| "acct_sum (Acct n # es) = acct_sum es + n"
| "acct_sum (e # es) = acct_sum es"

section \<open>Structures\<close>

datatype pid_type = PIDTYPE_PID | PIDTYPE_TGID | PIDTYPE_PGID | PIDTYPE_SID

record signal_struct =
  sg_sigcnt :: int
  sg_live :: int
  sg_nr_threads :: int
  sg_thread_head :: "addr list"
  sg_curr_target :: ptr
  sg_shared_pending :: "nat set"
  sg_multiprocess :: "addr list"
  sg_rlim :: "nat \<Rightarrow> u64 \<times> u64"
  sg_cpu_limit :: u64
  sg_oom_score_adj :: int
  sg_oom_score_adj_min :: int
  sg_oom_mm :: ptr
  sg_flags :: u32
  sg_pids :: "pid_type \<Rightarrow> ptr"
  sg_tty :: ptr
  sg_has_child_subreaper :: bool
  sg_is_child_subreaper :: bool

text \<open>A signal handler is the default action, ignore, or the address of a user function.\<close>

datatype sigaction = SIG_DFL | SIG_IGN | Handler u64

record sighand_struct =
  sh_count :: int
  sh_action :: "nat \<Rightarrow> sigaction"

record fs_struct =
  fs_users :: int
  fs_in_exec :: bool

record files_struct =
  fl_count :: int

record io_context =
  ioc_active_ref :: int
  ioc_ioprio :: nat

record nsproxy =
  ns_pid_ns_for_children :: addr
  ns_time_ns :: addr
  ns_time_ns_for_children :: addr

record vm_area_struct =
  va_addr :: addr
  va_start :: u64
  va_end :: u64
  va_flags :: u64
  va_mm :: ptr
  va_file :: ptr
  va_anon_vma :: ptr
  va_open :: bool
  va_hugetlb :: bool

record mm_struct =
  mm_mmap :: "vm_area_struct list"
  mm_users :: int
  mm_count :: int
  mm_vmacache_seqnum :: u64
  mm_core_state :: ptr
  mm_map_count :: int
  mm_locked_vm :: int
  mm_pinned_vm :: int
  mm_rss :: "nat \<Rightarrow> int"
  mm_pgtables_bytes :: int
  mm_ioctx_table :: ptr
  mm_owner :: ptr
  mm_exe_file :: ptr
  mm_xol_area :: ptr
  mm_pasid :: u32
  mm_flags :: u64
  mm_def_flags :: u64
  mm_pgd :: ptr
  mm_user_ns :: addr
  mm_binfmt :: ptr
  mm_on_mmlist :: bool
  mm_total_vm :: int
  mm_data_vm :: int
  mm_exec_vm :: int
  mm_stack_vm :: int
  mm_hiwater_rss :: int
  mm_hiwater_vm :: int

record kfile =
  f_count :: int
  f_deny :: int
  f_path :: addr
  f_mapping :: addr

record address_space =
  as_writable :: int
  as_i_mmap :: "addr list"

record vm_struct =
  vs_addr :: addr
  vs_pages :: "addr list"

section \<open>The kernel state\<close>

record kernel =
  k_tasks :: "addr \<rightharpoonup> task_struct"
  k_signals :: "addr \<rightharpoonup> signal_struct"
  k_sighands :: "addr \<rightharpoonup> sighand_struct"
  k_fss :: "addr \<rightharpoonup> fs_struct"
  k_fds :: "addr \<rightharpoonup> files_struct"
  k_iocs :: "addr \<rightharpoonup> io_context"
  k_nsproxys :: "addr \<rightharpoonup> nsproxy"
  k_mms :: "addr \<rightharpoonup> mm_struct"
  k_file :: "addr \<rightharpoonup> kfile"
  k_mappings :: "addr \<rightharpoonup> address_space"
  k_kv :: kv_heap
  k_vms :: "addr \<rightharpoonup> vm_struct"
  k_cached_stacks :: "nat \<Rightarrow> ptr list"
  k_charged :: "addr set"
  k_stack_kb :: int
  k_total_forks :: u64
  k_nr_threads :: int
  k_max_threads :: int
  k_process_counts :: "nat \<Rightarrow> u64"
  k_tasklist :: "addr list"
  k_log :: "kevent list"

definition klog :: "kevent list \<Rightarrow> kernel \<Rightarrow> kernel" where
  "klog es k = k\<lparr>k_log := rev es @ k_log k\<rparr>"

text \<open>A pointer dereference \<^verbatim>\<open>p->f\<close>; the theorems state that the pointers they follow are valid.\<close>

abbreviation deref :: "('a \<Rightarrow> 'b option) \<Rightarrow> 'a \<Rightarrow> 'b" where
  "deref h a \<equiv> the (h a)"

text \<open>\<open>upd a f h\<close> is a write through the pointer \<open>a\<close>.\<close>

definition upd :: "'a \<Rightarrow> ('b \<Rightarrow> 'b) \<Rightarrow> ('a \<rightharpoonup> 'b) \<Rightarrow> ('a \<rightharpoonup> 'b)" where
  "upd a f h = h(a := map_option f (h a))"

lemma upd_same: "upd a f h a = map_option f (h a)"
  by (simp add: upd_def)

lemma upd_other [simp]: "b \<noteq> a \<Longrightarrow> upd a f h b = h b"
  by (simp add: upd_def)

lemma upd_Some [simp]: "h a = Some x \<Longrightarrow> upd a f h = h(a \<mapsto> f x)"
  by (simp add: upd_def)

lemma upd_fun_upd [simp]: "upd a f (h(a := v)) = h(a := map_option f v)"
  by (simp add: upd_def)

lemma upd_id [simp]: "upd a (\<lambda>x. x) h = h"
  by (simp add: upd_def option.map_ident)

lemma upd_upd [simp]: "upd a f (upd a g h) = upd a (\<lambda>x. f (g x)) h"
  by (auto simp: upd_def fun_eq_iff option.map_comp o_def)

lemma dom_upd [simp]: "dom (upd a f h) = dom h"
  by (auto simp: upd_def dom_def)

lemma upd_fresh [simp]: "h a = None \<Longrightarrow> upd a f h = h"
  by (auto simp: upd_def)

lemma klog_Nil [simp]: "klog [] k = k"
  by (simp add: klog_def)

lemma klog_klog [simp]: "klog es (klog ds k) = klog (ds @ es) k"
  by (simp add: klog_def)

lemma held_append: "held (es @ ds) r = held es r + held ds r"
  by (induction es r rule: held.induct) simp_all

text \<open>The fields of a logged state.\<close>

lemma klog_sel [simp]:
  "k_tasks (klog es k) = k_tasks k" "k_signals (klog es k) = k_signals k"
  "k_sighands (klog es k) = k_sighands k" "k_fss (klog es k) = k_fss k"
  "k_fds (klog es k) = k_fds k" "k_iocs (klog es k) = k_iocs k"
  "k_nsproxys (klog es k) = k_nsproxys k" "k_mms (klog es k) = k_mms k"
  "k_file (klog es k) = k_file k" "k_mappings (klog es k) = k_mappings k"
  "k_kv (klog es k) = k_kv k" "k_vms (klog es k) = k_vms k"
  "k_cached_stacks (klog es k) = k_cached_stacks k" "k_charged (klog es k) = k_charged k"
  "k_stack_kb (klog es k) = k_stack_kb k" "k_total_forks (klog es k) = k_total_forks k"
  "k_nr_threads (klog es k) = k_nr_threads k" "k_max_threads (klog es k) = k_max_threads k"
  "k_process_counts (klog es k) = k_process_counts k" "k_tasklist (klog es k) = k_tasklist k"
  "k_log (klog es k) = rev es @ k_log k"
  by (simp_all add: klog_def)

text \<open>A kernel with no objects, from which concrete states are built.\<close>

definition zero_kernel :: kernel where
  "zero_kernel = \<lparr>k_tasks = Map.empty, k_signals = Map.empty, k_sighands = Map.empty,
     k_fss = Map.empty, k_fds = Map.empty, k_iocs = Map.empty, k_nsproxys = Map.empty,
     k_mms = Map.empty, k_file = Map.empty, k_mappings = Map.empty,
     k_kv = \<lparr>kh_nodes = Map.empty, kh_stores = Map.empty\<rparr>, k_vms = Map.empty,
     k_cached_stacks = \<lambda>_. [None, None], k_charged = {}, k_stack_kb = 0, k_total_forks = 0,
     k_nr_threads = 0, k_max_threads = 0, k_process_counts = \<lambda>_. 0, k_tasklist = [],
     k_log = []\<rparr>"

end
