(* ===== verification/Fork_Mm.thy ===== *)
theory Fork_Mm
  imports Kernel
begin

text \<open>
  Address spaces in \<^verbatim>\<open>kernel/fork.c\<close>: VMA objects, \<^verbatim>\<open>dup_mmap\<close> with its error labels, setting up and
  tearing down an \<^verbatim>\<open>mm_struct\<close>, the executable-file reference, and the functions that take a
  reference to another task's address space. The list \<^verbatim>\<open>mm->mmap\<close> threaded through \<^verbatim>\<open>vm_next\<close> and
  \<^verbatim>\<open>vm_prev\<close> is a list of VMA records; the red-black tree that indexes the same list is not kept.

  The answers of the memory-management subsystem are the record \<open>mm_env\<close>, with one \<open>vma_env\<close> for
  each VMA of the parent in list order. \<open>me_exit_rss\<close> and \<open>me_exit_pgtables\<close> are the counters
  \<^verbatim>\<open>exit_mmap\<close> leaves once it has removed every VMA, \<open>me_stat_account\<close> the new values of \<^verbatim>\<open>total_vm\<close>,
  \<^verbatim>\<open>data_vm\<close>, \<^verbatim>\<open>exec_vm\<close> and \<^verbatim>\<open>stack_vm\<close> that \<^verbatim>\<open>vm_stat_account\<close> computes from the old ones.
\<close>

section \<open>What other subsystems answer\<close>

record vma_env =
  ve_fatal :: bool
  ve_nomem :: bool
  ve_new :: ptr
  ve_policy :: kret
  ve_uffd :: kret
  ve_anon_fails :: bool
  ve_anon_vma :: ptr
  ve_copy :: kret

record mm_env =
  me_mm :: ptr
  me_pgd :: ptr
  me_context :: kret
  me_lock_fails :: bool
  me_ksm :: kret
  me_khugepaged :: kret
  me_vma :: "nat \<Rightarrow> vma_env"
  me_arch_dup :: kret
  me_deny_fails :: bool
  me_stat_account :: "int \<times> int \<times> int \<times> int \<Rightarrow> u64 \<Rightarrow> int \<Rightarrow> int \<times> int \<times> int \<times> int"
  me_get_rss :: "mm_struct \<Rightarrow> int"
  me_module :: bool
  me_exit_rss :: "nat \<Rightarrow> int"
  me_exit_pgtables :: int
  me_init_mm :: addr
  me_default_dump_filter :: u64

section \<open>File references\<close>

text \<open>The reference counters of \<^verbatim>\<open>struct file\<close> and the write-denial counter of its inode.\<close>

definition get_file :: "addr \<Rightarrow> kernel \<Rightarrow> kernel" where
  "get_file f k = k\<lparr>k_file := upd f (\<lambda>x. x\<lparr>f_count := f_count x + 1\<rparr>) (k_file k)\<rparr>"

definition fput :: "addr \<Rightarrow> kernel \<Rightarrow> kernel" where
  "fput f k =
     (let k = k\<lparr>k_file := upd f (\<lambda>x. x\<lparr>f_count := f_count x - 1\<rparr>) (k_file k)\<rparr>
      in if f_count (deref (k_file k) f) = 0 then klog [Call ''__fput''] (k\<lparr>k_file := (k_file k)(f := None)\<rparr>)
         else k)"

definition allow_write_access :: "addr \<Rightarrow> kernel \<Rightarrow> kernel" where
  "allow_write_access f k = k\<lparr>k_file := upd f (\<lambda>x. x\<lparr>f_deny := f_deny x - 1\<rparr>) (k_file k)\<rparr>"

text \<open>\<^verbatim>\<open>deny_write_access\<close> fails when the file is open for writing; that answer is an argument.\<close>

definition deny_write_access :: "bool \<Rightarrow> addr \<Rightarrow> kernel \<Rightarrow> bool \<times> kernel" where
  "deny_write_access fails f k =
     (if fails then (True, k)
      else (False, k\<lparr>k_file := upd f (\<lambda>x. x\<lparr>f_deny := f_deny x + 1\<rparr>) (k_file k)\<rparr>))"

definition get_mm_exe_file :: "mm_struct \<Rightarrow> kernel \<Rightarrow> ptr \<times> kernel" where
  "get_mm_exe_file mm k =
     (case mm_exe_file mm of
        None \<Rightarrow> (None, k)
      | Some f \<Rightarrow> if f_count (deref (k_file k) f) = 0 then (None, k) else (Some f, get_file f k))"

abbreviation the_mm :: "kernel \<Rightarrow> addr \<Rightarrow> mm_struct" where
  "the_mm k a \<equiv> deref (k_mms k) a"

definition set_mm :: "addr \<Rightarrow> (mm_struct \<Rightarrow> mm_struct) \<Rightarrow> kernel \<Rightarrow> kernel" where
  "set_mm a f k = k\<lparr>k_mms := upd a f (k_mms k)\<rparr>"

definition set_mm_exe_file :: "bool \<Rightarrow> addr \<Rightarrow> ptr \<Rightarrow> kernel \<Rightarrow> kret \<times> kernel" where
  "set_mm_exe_file deny_fails mm new_exe_file k =
     (let old_exe_file = mm_exe_file (the_mm k mm);
          put_old = (\<lambda>k. let k = set_mm mm (\<lambda>m. m\<lparr>mm_exe_file := new_exe_file\<rparr>) k
                          in case old_exe_file of None \<Rightarrow> k | Some f \<Rightarrow> fput f (allow_write_access f k))
      in case new_exe_file of
           None \<Rightarrow> (None, put_old k)
         | Some f \<Rightarrow>
             (case deny_write_access deny_fails f k of
                (True, k) \<Rightarrow> (Some EACCES, k)
              | (False, k) \<Rightarrow> (None, put_old (get_file f k))))"

text \<open>The scan of \<^verbatim>\<open>replace_mm_exe_file\<close> for a VMA that still maps the old file.\<close>

fun exe_file_mapped :: "(addr \<rightharpoonup> kfile) \<Rightarrow> addr \<Rightarrow> vm_area_struct list \<Rightarrow> bool" where
  "exe_file_mapped files path [] = False"
| "exe_file_mapped files path (vma # vmas) =
     (case va_file vma of
        None \<Rightarrow> exe_file_mapped files path vmas
      | Some f \<Rightarrow> if f_path (deref files f) = path then True else exe_file_mapped files path vmas)"

definition replace_mm_exe_file :: "bool \<Rightarrow> addr \<Rightarrow> addr \<Rightarrow> kernel \<Rightarrow> kret \<times> kernel" where
  "replace_mm_exe_file deny_fails mm new_exe_file k =
     (case get_mm_exe_file (the_mm k mm) k of (old_exe_file, k) \<Rightarrow>
        let (mapped, k) =
              (case old_exe_file of
                 None \<Rightarrow> (False, k)
               | Some f \<Rightarrow> (exe_file_mapped (k_file k) (f_path (deref (k_file k) f)) (mm_mmap (the_mm k mm)),
                           fput f (klog [Acq R_mmap_lock, Rel R_mmap_lock] k)))
        in if mapped then (Some EBUSY, k)
           else (case deny_write_access deny_fails new_exe_file k of
                   (True, k) \<Rightarrow> (Some EACCES, k)
                 | (False, k) \<Rightarrow>
                     let k = get_file new_exe_file k;
                         old_exe_file = mm_exe_file (the_mm k mm);
                         k = set_mm mm (\<lambda>m. m\<lparr>mm_exe_file := Some new_exe_file\<rparr>) k
                     in (None, case old_exe_file of
                                 None \<Rightarrow> k
                               | Some f \<Rightarrow> klog [Rel R_mmap_lock]
                                   (fput f (allow_write_access f (klog [Acq R_mmap_lock] k))))))"

definition get_task_exe_file :: "task_struct \<Rightarrow> kernel \<Rightarrow> ptr \<times> kernel" where
  "get_task_exe_file task k =
     (let k = klog [Acq R_task_lock] k;
          (exe_file, k) =
            (case ts_mm task of
               None \<Rightarrow> (None, k)
             | Some mm \<Rightarrow> if ts_flags task AND PF_KTHREAD = 0 then get_mm_exe_file (the_mm k mm) k
                          else (None, k))
      in (exe_file, klog [Rel R_task_lock] k))"

section \<open>Copying the mappings\<close>

text \<open>\<^verbatim>\<open>vma_init\<close> is an inline function of a header outside the tree and a parameter.\<close>

definition vm_area_alloc :: "ptr \<Rightarrow> (addr \<Rightarrow> addr \<Rightarrow> vm_area_struct) \<Rightarrow> addr \<Rightarrow> kernel \<Rightarrow> vm_area_struct option \<times> kernel" where
  "vm_area_alloc obj vma_init mm k =
     (case obj of None \<Rightarrow> (None, k) | Some a \<Rightarrow> (Some (vma_init a mm), klog [Acq R_vma] k))"

definition vm_area_dup :: "ptr \<Rightarrow> vm_area_struct \<Rightarrow> kernel \<Rightarrow> vm_area_struct option \<times> kernel" where
  "vm_area_dup obj orig k =
     (case obj of None \<Rightarrow> (None, k) | Some a \<Rightarrow> (Some (orig\<lparr>va_addr := a\<rparr>), klog [Acq R_vma] k))"

definition vm_area_free :: "vm_area_struct \<Rightarrow> kernel \<Rightarrow> kernel" where
  "vm_area_free vma k = klog [Rel R_vma] k"

definition dup_mm_exe_file :: "mm_env \<Rightarrow> addr \<Rightarrow> addr \<Rightarrow> kernel \<Rightarrow> kernel" where
  "dup_mm_exe_file E mm oldmm k =
     (case get_mm_exe_file (the_mm k oldmm) k of (exe_file, k) \<Rightarrow>
        let k = set_mm mm (\<lambda>m. m\<lparr>mm_exe_file := exe_file\<rparr>) k
        in case exe_file of
             None \<Rightarrow> k
           | Some f \<Rightarrow> (case deny_write_access (me_deny_fails E) f k of
                          (True, k) \<Rightarrow> klog [Call ''pr_warn_once''] k
                        | (False, k) \<Rightarrow> k))"

definition vma_pages :: "vm_area_struct \<Rightarrow> int" where
  "vma_pages vma = uint (drop_bit 12 (va_end vma - va_start vma))"

fun insert_after :: "'a \<Rightarrow> 'a \<Rightarrow> 'a list \<Rightarrow> 'a list" where
  "insert_after x y [] = [y]"
| "insert_after x y (z # zs) = (if z = x then z # y # zs else z # insert_after x y zs)"

text \<open>The block \<^verbatim>\<open>if (file) { ... }\<close>: the new VMA joins the file's mapping next to its parent.\<close>

definition dup_vma_file :: "kconst \<Rightarrow> vm_area_struct \<Rightarrow> vm_area_struct \<Rightarrow> kernel \<Rightarrow> kernel" where
  "dup_vma_file K mpnt tmp k =
     (case va_file tmp of
        None \<Rightarrow> k
      | Some f \<Rightarrow>
          let mapping = f_mapping (deref (k_file k) f);
              k = get_file f k
          in k\<lparr>k_mappings := upd mapping
                (\<lambda>a. let a = (if has (va_flags tmp) (VM_SHARED K) then a\<lparr>as_writable := as_writable a + 1\<rparr> else a)
                     in a\<lparr>as_i_mmap := insert_after (va_addr mpnt) (va_addr tmp) (as_i_mmap a)\<rparr>)
                (k_mappings k)\<rparr>)"

text \<open>The labels of the error path of the loop body; \<open>charge\<close> is what was accounted for this VMA.\<close>

definition dup_fail_nomem :: "int \<Rightarrow> kernel \<Rightarrow> kret \<times> kernel" where
  "dup_fail_nomem charge k = (Some ENOMEM, klog [Acct (- charge)] k)"

definition dup_fail_policy :: "int \<Rightarrow> vm_area_struct \<Rightarrow> kernel \<Rightarrow> kret \<times> kernel" where
  "dup_fail_policy charge tmp k = dup_fail_nomem charge (vm_area_free tmp k)"

definition dup_fail_anon_vma_fork :: "int \<Rightarrow> vm_area_struct \<Rightarrow> kernel \<Rightarrow> kret \<times> kernel" where
  "dup_fail_anon_vma_fork charge tmp k = dup_fail_policy charge tmp (klog [Rel R_vma_policy] k)"

text \<open>From the \<^verbatim>\<open>anon_vma\<close> of the copy to the end of the loop body.\<close>

definition dup_vma_link :: "kconst \<Rightarrow> vma_env \<Rightarrow> addr \<Rightarrow> vm_area_struct \<Rightarrow> vm_area_struct \<Rightarrow> kernel \<Rightarrow> kret \<times> kernel" where
  "dup_vma_link K V mm mpnt tmp k =
     (let tmp = tmp\<lparr>va_flags := va_flags tmp AND NOT (VM_LOCKED K OR VM_LOCKONFAULT K)\<rparr>;
          k = dup_vma_file K mpnt tmp k;
          k = (if va_hugetlb tmp then klog [Call ''reset_vma_resv_huge_pages''] k else k);
          k = set_mm mm (\<lambda>m. m\<lparr>mm_mmap := mm_mmap m @ [tmp], mm_map_count := mm_map_count m + 1\<rparr>) k;
          (retval, k) = (if has (va_flags tmp) (VM_WIPEONFORK K) then (None, k)
                         else (ve_copy V, klog [Call ''copy_page_range''] k));
          k = (if va_open tmp then klog [Call ''vm_ops->open''] k else k)
      in (retval, k))"

definition dup_vma :: "kconst \<Rightarrow> vma_env \<Rightarrow> addr \<Rightarrow> vm_area_struct \<Rightarrow> kernel \<Rightarrow> kret \<times> kernel" where
  "dup_vma K V mm mpnt k =
     (if ve_fatal V then (Some EINTR, k)
      else if has (va_flags mpnt) (VM_ACCOUNT K) \<and> ve_nomem V then dup_fail_nomem 0 k
      else
        let charge = (if has (va_flags mpnt) (VM_ACCOUNT K) then vma_pages mpnt else 0);
            k = (if has (va_flags mpnt) (VM_ACCOUNT K) then klog [Acct charge] k else k)
        in case vm_area_dup (ve_new V) mpnt k of
             (None, k) \<Rightarrow> dup_fail_nomem charge k
           | (Some tmp, k) \<Rightarrow>
               if ve_policy V \<noteq> None then dup_fail_policy charge tmp k
               else
                 let k = klog [Acq R_vma_policy] k;
                     tmp = tmp\<lparr>va_mm := Some mm\<rparr>
                 in if ve_uffd V \<noteq> None then dup_fail_anon_vma_fork charge tmp k
                    else if has (va_flags tmp) (VM_WIPEONFORK K)
                         then dup_vma_link K V mm mpnt (tmp\<lparr>va_anon_vma := None\<rparr>) k
                    else if ve_anon_fails V then dup_fail_anon_vma_fork charge tmp k
                    else dup_vma_link K V mm mpnt (tmp\<lparr>va_anon_vma := ve_anon_vma V\<rparr>) k)"

definition vm_stat_account :: "mm_env \<Rightarrow> u64 \<Rightarrow> int \<Rightarrow> mm_struct \<Rightarrow> mm_struct" where
  "vm_stat_account E flags npages m =
     (case me_stat_account E (mm_total_vm m, mm_data_vm m, mm_exec_vm m, mm_stack_vm m) flags npages of
        (a, b, c, d) \<Rightarrow> m\<lparr>mm_total_vm := a, mm_data_vm := b, mm_exec_vm := c, mm_stack_vm := d\<rparr>)"

text \<open>The loop over \<^verbatim>\<open>oldmm->mmap\<close>; \<open>i\<close> counts the VMAs passed.\<close>

fun dup_vmas :: "kconst \<Rightarrow> mm_env \<Rightarrow> addr \<Rightarrow> nat \<Rightarrow> vm_area_struct list \<Rightarrow> kernel \<Rightarrow> kret \<times> kernel" where
  "dup_vmas K E mm i [] k = (None, k)"
| "dup_vmas K E mm i (mpnt # vmas) k =
     (if has (va_flags mpnt) (VM_DONTCOPY K)
      then dup_vmas K E mm (Suc i) vmas
             (set_mm mm (vm_stat_account E (va_flags mpnt) (- vma_pages mpnt)) k)
      else case dup_vma K (me_vma E i) mm mpnt k of
             (Some e, k) \<Rightarrow> (Some e, k)
           | (None, k) \<Rightarrow> dup_vmas K E mm (Suc i) vmas k)"

definition dup_mmap_out :: "kret \<Rightarrow> kernel \<Rightarrow> kret \<times> kernel" where
  "dup_mmap_out retval k =
     (retval, klog [Rel R_mmap_lock, Call ''flush_tlb_mm'', Rel R_mmap_lock,
                    Call ''dup_userfaultfd_complete'', Rel R_uprobe] k)"

definition dup_mmap :: "kconst \<Rightarrow> mm_env \<Rightarrow> addr \<Rightarrow> addr \<Rightarrow> kernel \<Rightarrow> kret \<times> kernel" where
  "dup_mmap K E mm oldmm k =
     (let k = klog [Acq R_uprobe] k
      in if me_lock_fails E then (Some EINTR, klog [Rel R_uprobe] k)
         else
           let k = klog [Acq R_mmap_lock, Call ''flush_cache_dup_mm'', Call ''uprobe_dup_mmap'', Acq R_mmap_lock] k;
               k = dup_mm_exe_file E mm oldmm k;
               old = the_mm k oldmm;
               k = set_mm mm (\<lambda>m. m\<lparr>mm_total_vm := mm_total_vm old, mm_data_vm := mm_data_vm old,
                                   mm_exec_vm := mm_exec_vm old, mm_stack_vm := mm_stack_vm old\<rparr>) k
           in if me_ksm E \<noteq> None then dup_mmap_out (me_ksm E) k
              else if me_khugepaged E \<noteq> None then dup_mmap_out (me_khugepaged E) k
              else case dup_vmas K E mm 0 (mm_mmap old) k of
                     (Some e, k) \<Rightarrow> dup_mmap_out (Some e) k
                   | (None, k) \<Rightarrow> dup_mmap_out (me_arch_dup E) k)"

section \<open>Setting up and tearing down an address space\<close>

definition mm_alloc_pgd :: "mm_env \<Rightarrow> addr \<Rightarrow> kernel \<Rightarrow> kret \<times> kernel" where
  "mm_alloc_pgd E mm k =
     (let k = set_mm mm (\<lambda>m. m\<lparr>mm_pgd := me_pgd E\<rparr>) k
      in if me_pgd E = None then (Some ENOMEM, k) else (None, klog [Acq R_pgd] k))"

definition mm_free_pgd :: "kernel \<Rightarrow> kernel" where
  "mm_free_pgd k = klog [Rel R_pgd] k"

definition free_mm :: "addr \<Rightarrow> kernel \<Rightarrow> kernel" where
  "free_mm mm k = k\<lparr>k_mms := (k_mms k)(mm := None)\<rparr>"

text \<open>\<^verbatim>\<open>NR_MM_COUNTERS\<close> is the number of entries of \<^verbatim>\<open>resident_page_types\<close> (the source checks it).\<close>

abbreviation (input) NR_MM_COUNTERS :: nat where "NR_MM_COUNTERS \<equiv> 4"

definition check_mm :: "addr \<Rightarrow> kernel \<Rightarrow> kernel" where
  "check_mm mm k =
     (let m = the_mm k mm;
          k = klog (concat (map (\<lambda>i. if mm_rss m i \<noteq> 0 then [Call ''pr_alert''] else []) [0..<NR_MM_COUNTERS])) k
      in if mm_pgtables_bytes m \<noteq> 0 then klog [Call ''pr_alert''] k else k)"

text \<open>\<open>cur\<close> is the task that runs (\<^verbatim>\<open>current\<close>).\<close>

definition mmdrop_free :: "mm_env \<Rightarrow> task_struct \<Rightarrow> addr \<Rightarrow> kernel \<Rightarrow> kernel" where
  "mmdrop_free E cur mm k =
     (let k = (if mm = me_init_mm E then klog [Bug] k else k);
          k = (if ts_mm cur = Some mm then klog [Warn] k else k);
          k = (if ts_active_mm cur = Some mm then klog [Warn] k else k);
          k = mm_free_pgd k;
          k = klog [Rel R_mm_context, Call ''mmu_notifier_subscriptions_destroy''] k;
          k = check_mm mm k
      in free_mm mm (klog [Rel R_user_ns] k))"

definition mmdrop :: "mm_env \<Rightarrow> task_struct \<Rightarrow> addr \<Rightarrow> kernel \<Rightarrow> kernel" where
  "mmdrop E cur mm k =
     (let k = set_mm mm (\<lambda>m. m\<lparr>mm_count := mm_count m - 1\<rparr>) k
      in if mm_count (the_mm k mm) = 0 then mmdrop_free E cur mm k else k)"

definition mmdrop_async :: "addr \<Rightarrow> kernel \<Rightarrow> kernel" where
  "mmdrop_async mm k =
     (let k = set_mm mm (\<lambda>m. m\<lparr>mm_count := mm_count m - 1\<rparr>) k
      in if mm_count (the_mm k mm) = 0 then klog [Call ''schedule_work mmdrop_async_fn''] k else k)"

definition mm_clear_owner :: "addr \<Rightarrow> addr \<Rightarrow> kernel \<Rightarrow> kernel" where
  "mm_clear_owner mm p k = set_mm mm (\<lambda>m. if mm_owner m = Some p then m\<lparr>mm_owner := None\<rparr> else m) k"

definition mm_init_owner :: "addr \<Rightarrow> ptr \<Rightarrow> kernel \<Rightarrow> kernel" where
  "mm_init_owner mm p k = set_mm mm (\<lambda>m. m\<lparr>mm_owner := p\<rparr>) k"

text \<open>The assignments of \<^verbatim>\<open>mm_init\<close> up to the two allocations, in the source's order.\<close>

definition mm_init_fields :: "kconst \<Rightarrow> mm_env \<Rightarrow> mm_struct option \<Rightarrow> addr \<Rightarrow> mm_struct \<Rightarrow> mm_struct" where
  "mm_init_fields K E cur_mm p m =
     (let m = m\<lparr>mm_mmap := [], mm_vmacache_seqnum := 0, mm_users := 1, mm_count := 1,
                mm_on_mmlist := False, mm_core_state := None, mm_pgtables_bytes := 0,
                mm_map_count := 0, mm_locked_vm := 0, mm_pinned_vm := 0, mm_rss := (\<lambda>_. 0),
                mm_ioctx_table := None, mm_owner := Some p, mm_pasid := INIT_PASID K, mm_exe_file := None,
                mm_xol_area := None\<rparr>
      in case cur_mm of
           Some c \<Rightarrow> m\<lparr>mm_flags := mm_flags c AND MMF_INIT_MASK K,
                      mm_def_flags := mm_def_flags c AND VM_INIT_DEF_MASK K\<rparr>
         | None \<Rightarrow> m\<lparr>mm_flags := me_default_dump_filter E, mm_def_flags := 0\<rparr>)"

definition mm_init :: "kconst \<Rightarrow> mm_env \<Rightarrow> task_struct \<Rightarrow> addr \<Rightarrow> addr \<Rightarrow> addr \<Rightarrow> kernel \<Rightarrow> ptr \<times> kernel" where
  "mm_init K E cur mm p user_ns k =
     (let cur_mm = (case ts_mm cur of None \<Rightarrow> None | Some a \<Rightarrow> k_mms k a);
          k = klog [Call ''mmu_notifier_subscriptions_init'', Call ''hugetlb_count_init'']
                (set_mm mm (mm_init_fields K E cur_mm p) k)
      in case mm_alloc_pgd E mm k of
           (Some e, k) \<Rightarrow> (None, free_mm mm k)
         | (None, k) \<Rightarrow>
             if me_context E \<noteq> None then (None, free_mm mm (mm_free_pgd k))
             else (Some mm, klog [Acq R_mm_context, Acq R_user_ns]
                              (set_mm mm (\<lambda>m. m\<lparr>mm_user_ns := user_ns\<rparr>) k)))"

definition zero_mm :: mm_struct where
  "zero_mm = \<lparr>mm_mmap = [], mm_users = 0, mm_count = 0, mm_vmacache_seqnum = 0, mm_core_state = None,
     mm_map_count = 0, mm_locked_vm = 0, mm_pinned_vm = 0, mm_rss = \<lambda>_. 0, mm_pgtables_bytes = 0,
     mm_ioctx_table = None, mm_owner = None, mm_exe_file = None, mm_xol_area = None, mm_pasid = 0,
     mm_flags = 0, mm_def_flags = 0, mm_pgd = None, mm_user_ns = 0, mm_binfmt = None, mm_on_mmlist = False,
     mm_total_vm = 0, mm_data_vm = 0, mm_exec_vm = 0, mm_stack_vm = 0, mm_hiwater_rss = 0,
     mm_hiwater_vm = 0\<rparr>"

definition mm_alloc :: "kconst \<Rightarrow> mm_env \<Rightarrow> addr \<Rightarrow> addr \<Rightarrow> kernel \<Rightarrow> ptr \<times> kernel" where
  "mm_alloc K E cur user_ns k =
     (case me_mm E of
        None \<Rightarrow> (None, k)
      | Some mm \<Rightarrow> mm_init K E (deref (k_tasks k) cur) mm cur user_ns (k\<lparr>k_mms := (k_mms k)(mm \<mapsto> zero_mm)\<rparr>))"

definition mmput_final :: "mm_env \<Rightarrow> task_struct \<Rightarrow> addr \<Rightarrow> kernel \<Rightarrow> kernel" where
  "mmput_final E cur mm k =
     (let k = (if mm_users (the_mm k mm) \<noteq> 0 then klog [Bug] k else k);
          k = klog [Call ''uprobe_clear_state'', Call ''exit_aio'', Call ''ksm_exit'', Call ''khugepaged_exit''] k;
          k = klog [Call ''exit_mmap'', Call ''mm_put_huge_zero_page''] 
                (set_mm mm (\<lambda>m. m\<lparr>mm_mmap := [], mm_rss := me_exit_rss E, mm_pgtables_bytes := me_exit_pgtables E\<rparr>) k);
          k = snd (set_mm_exe_file False mm None k);
          k = (if mm_on_mmlist (the_mm k mm) then set_mm mm (\<lambda>m. m\<lparr>mm_on_mmlist := False\<rparr>) k else k);
          k = (if mm_binfmt (the_mm k mm) \<noteq> None then klog [Rel R_module] k else k)
      in mmdrop E cur mm k)"

definition mmget :: "addr \<Rightarrow> kernel \<Rightarrow> kernel" where
  "mmget mm k = set_mm mm (\<lambda>m. m\<lparr>mm_users := mm_users m + 1\<rparr>) k"

definition mmput :: "mm_env \<Rightarrow> task_struct \<Rightarrow> addr \<Rightarrow> kernel \<Rightarrow> kernel" where
  "mmput E cur mm k =
     (let k = set_mm mm (\<lambda>m. m\<lparr>mm_users := mm_users m - 1\<rparr>) k
      in if mm_users (the_mm k mm) = 0 then mmput_final E cur mm k else k)"

definition mmput_async :: "addr \<Rightarrow> kernel \<Rightarrow> kernel" where
  "mmput_async mm k =
     (let k = set_mm mm (\<lambda>m. m\<lparr>mm_users := mm_users m - 1\<rparr>) k
      in if mm_users (the_mm k mm) = 0 then klog [Call ''schedule_work mmput_async_fn''] k else k)"

definition get_task_mm :: "task_struct \<Rightarrow> kernel \<Rightarrow> ptr \<times> kernel" where
  "get_task_mm task k =
     (let k = klog [Acq R_task_lock] k;
          (mm, k) = (case ts_mm task of
                       None \<Rightarrow> (None, k)
                     | Some a \<Rightarrow> if ts_flags task AND PF_KTHREAD \<noteq> 0 then (None, k) else (Some a, mmget a k))
      in (mm, klog [Rel R_task_lock] k))"

text \<open>\<open>may_access\<close> is the answer of \<^verbatim>\<open>ptrace_may_access\<close>, \<open>lock_err\<close> that of \<^verbatim>\<open>down_read_killable\<close>.\<close>

definition mm_access :: "mm_env \<Rightarrow> kret \<Rightarrow> bool \<Rightarrow> task_struct \<Rightarrow> task_struct \<Rightarrow> kernel \<Rightarrow> (errno + ptr) \<times> kernel" where
  "mm_access E lock_err may_access cur task k =
     (case lock_err of
        Some e \<Rightarrow> (Inl e, k)
      | None \<Rightarrow>
          (case get_task_mm task (klog [Acq R_exec_update] k) of
             (mm, k) \<Rightarrow>
               (case mm of
                  Some a \<Rightarrow> if ts_mm cur \<noteq> Some a \<and> \<not> may_access
                            then (Inl EACCES, klog [Rel R_exec_update] (mmput E cur a k))
                            else (Inr mm, klog [Rel R_exec_update] k)
                | None \<Rightarrow> (Inr None, klog [Rel R_exec_update] k))))"

definition dup_mm_free_pt :: "mm_env \<Rightarrow> task_struct \<Rightarrow> addr \<Rightarrow> kernel \<Rightarrow> ptr \<times> kernel" where
  "dup_mm_free_pt E cur mm k =
     (None, mmput E cur mm (mm_init_owner mm None (set_mm mm (\<lambda>m. m\<lparr>mm_binfmt := None\<rparr>) k)))"

text \<open>The part of \<^verbatim>\<open>dup_mm\<close> after \<^verbatim>\<open>err = dup_mmap(mm, oldmm)\<close>.\<close>

definition dup_mm_finish :: "mm_env \<Rightarrow> task_struct \<Rightarrow> addr \<Rightarrow> kret \<Rightarrow> kernel \<Rightarrow> ptr \<times> kernel" where
  "dup_mm_finish E cur mm err k =
     (if err \<noteq> None then dup_mm_free_pt E cur mm k
      else
        let k = set_mm mm (\<lambda>m. m\<lparr>mm_hiwater_rss := me_get_rss E m, mm_hiwater_vm := mm_total_vm m\<rparr>) k
        in if mm_binfmt (the_mm k mm) \<noteq> None
           then if me_module E then (Some mm, klog [Acq R_module] k) else dup_mm_free_pt E cur mm k
           else (Some mm, k))"

definition dup_mm :: "kconst \<Rightarrow> mm_env \<Rightarrow> task_struct \<Rightarrow> addr \<Rightarrow> addr \<Rightarrow> kernel \<Rightarrow> ptr \<times> kernel" where
  "dup_mm K E cur tsk oldmm k =
     (case me_mm E of
        None \<Rightarrow> (None, k)
      | Some mm \<Rightarrow>
          let old = the_mm k oldmm;
              k = k\<lparr>k_mms := (k_mms k)(mm \<mapsto> old)\<rparr>
          in case mm_init K E cur mm tsk (mm_user_ns old) k of
               (None, k) \<Rightarrow> (None, k)
             | (Some mm, k) \<Rightarrow> (case dup_mmap K E mm oldmm k of (err, k) \<Rightarrow> dup_mm_finish E cur mm err k))"

definition copy_mm :: "kconst \<Rightarrow> mm_env \<Rightarrow> u64 \<Rightarrow> task_struct \<Rightarrow> addr \<Rightarrow> task_struct \<Rightarrow> kernel \<Rightarrow>
    kret \<times> task_struct \<times> kernel" where
  "copy_mm K E clone_flags cur p tsk k =
     (let tsk = tsk\<lparr>ts_min_flt := 0, ts_maj_flt := 0, ts_nvcsw := 0, ts_nivcsw := 0,
                    ts_last_switch_count := 0, ts_last_switch_time := 0,
                    ts_mm := None, ts_active_mm := None\<rparr>
      in case ts_mm cur of
           None \<Rightarrow> (None, tsk, k)
         | Some oldmm \<Rightarrow>
             let k = klog [Call ''vmacache_flush''] k
             in if has clone_flags (CLONE_VM K)
                then (None, tsk\<lparr>ts_mm := Some oldmm, ts_active_mm := Some oldmm\<rparr>, mmget oldmm k)
                else case dup_mm K E cur p oldmm k of
                       (None, k) \<Rightarrow> (Some ENOMEM, tsk, k)
                     | (Some mm, k) \<Rightarrow> (None, tsk\<lparr>ts_mm := Some mm, ts_active_mm := Some mm\<rparr>, k))"

section \<open>What \<^verbatim>\<open>dup_mmap\<close> copies\<close>

text \<open>The VMA the child gets for \<open>mpnt\<close>, and the list of them.\<close>

definition copy_vma :: "kconst \<Rightarrow> vma_env \<Rightarrow> addr \<Rightarrow> vm_area_struct \<Rightarrow> vm_area_struct" where
  "copy_vma K V mm mpnt = mpnt\<lparr>va_addr := the (ve_new V), va_mm := Some mm,
     va_anon_vma := (if has (va_flags mpnt) (VM_WIPEONFORK K) then None else ve_anon_vma V),
     va_flags := va_flags mpnt AND NOT (VM_LOCKED K OR VM_LOCKONFAULT K)\<rparr>"

fun copies :: "kconst \<Rightarrow> mm_env \<Rightarrow> addr \<Rightarrow> nat \<Rightarrow> vm_area_struct list \<Rightarrow> vm_area_struct list" where
  "copies K E mm i [] = []"
| "copies K E mm i (v # vs) =
     (if has (va_flags v) (VM_DONTCOPY K) then copies K E mm (Suc i) vs
      else copy_vma K (me_vma E i) mm v # copies K E mm (Suc i) vs)"

definition acct_pages :: "kconst \<Rightarrow> vm_area_struct \<Rightarrow> int" where
  "acct_pages K v = (if has (va_flags v) (VM_ACCOUNT K) then vma_pages v else 0)"

text \<open>Hypothesis: the flag bits \<^verbatim>\<open>dup_mmap\<close> clears are not the accounting bit.\<close>

definition vm_bits_ok :: "kconst \<Rightarrow> bool" where
  "vm_bits_ok K \<longleftrightarrow> VM_ACCOUNT K AND (VM_LOCKED K OR VM_LOCKONFAULT K) = 0"

lemma acct_sum_append: "acct_sum (es @ ds) = acct_sum es + acct_sum ds"
  by (induction es rule: acct_sum.induct) simp_all

lemma set_mm_sel [simp]:
  "k_mms (set_mm a f k) = upd a f (k_mms k)" "k_log (set_mm a f k) = k_log k"
  "k_file (set_mm a f k) = k_file k" "k_mappings (set_mm a f k) = k_mappings k"
  by (simp_all add: set_mm_def)

lemma dup_vma_file_sel [simp]:
  "k_mms (dup_vma_file K u v k) = k_mms k" "k_log (dup_vma_file K u v k) = k_log k"
  by (simp_all add: dup_vma_file_def get_file_def Let_def split: option.splits)

lemma acct_pages_copy: "vm_bits_ok K \<Longrightarrow> acct_pages K (copy_vma K V mm v) = acct_pages K v"
proof -
  assume "vm_bits_ok K"
  then have "(w AND NOT (VM_LOCKED K OR VM_LOCKONFAULT K)) AND VM_ACCOUNT K = w AND VM_ACCOUNT K" for w
    unfolding vm_bits_ok_def by (auto simp: bit_eq_iff bit_simps)
  then show ?thesis
    by (simp add: acct_pages_def copy_vma_def vma_pages_def has_def)
qed

text \<open>One VMA: either nothing is kept of it, or it is linked and its resources are held.\<close>

definition vma_dropped :: "kernel \<Rightarrow> kernel \<Rightarrow> bool" where
  "vma_dropped k k' \<longleftrightarrow> k_mms k' = k_mms k \<and> k_file k' = k_file k \<and> k_mappings k' = k_mappings k \<and>
     held (k_log k') = held (k_log k) \<and> acct_sum (k_log k') = acct_sum (k_log k)"

definition vma_linked :: "addr \<Rightarrow> vm_area_struct \<Rightarrow> int \<Rightarrow> kernel \<Rightarrow> kernel \<Rightarrow> bool" where
  "vma_linked mm v n k k' \<longleftrightarrow>
     k_mms k' = upd mm (\<lambda>m. m\<lparr>mm_mmap := mm_mmap m @ [v], mm_map_count := mm_map_count m + 1\<rparr>) (k_mms k) \<and>
     held (k_log k') = (\<lambda>r. held (k_log k) r + (if r \<in> {R_vma, R_vma_policy} then 1 else 0)) \<and>
     acct_sum (k_log k') = acct_sum (k_log k) + n"

lemma dup_vma_link_spec:
  assumes "dup_vma_link K V mm mpnt tmp k = (r, k')"
  shows "k_mms k' = upd mm (\<lambda>m. m\<lparr>mm_mmap := mm_mmap m @
            [tmp\<lparr>va_flags := va_flags tmp AND NOT (VM_LOCKED K OR VM_LOCKONFAULT K)\<rparr>],
            mm_map_count := mm_map_count m + 1\<rparr>) (k_mms k)"
    "held (k_log k') = held (k_log k)" "acct_sum (k_log k') = acct_sum (k_log k)"
  using assms by (auto simp: dup_vma_link_def Let_def split: if_splits)

lemma dup_vma_spec:
  assumes "dup_vma K V mm mpnt k = (r, k')"
  shows "r \<noteq> None \<and> vma_dropped k k' \<or> vma_linked mm (copy_vma K V mm mpnt) (acct_pages K mpnt) k k'"
proof -
  let ?A = "has (va_flags mpnt) (VM_ACCOUNT K)" and ?W = "has (va_flags mpnt) (VM_WIPEONFORK K)"
  note fail = dup_vma_def dup_fail_nomem_def dup_fail_policy_def dup_fail_anon_vma_fork_def
    vm_area_dup_def vm_area_free_def Let_def
  have link: "vma_linked mm (copy_vma K V mm mpnt) (acct_pages K mpnt) k k'"
    if "dup_vma_link K V mm mpnt
          (mpnt\<lparr>va_addr := the (ve_new V), va_mm := Some mm, va_anon_vma := if ?W then None else ve_anon_vma V\<rparr>)
          (klog [Acq R_vma_policy] (klog [Acq R_vma] (if ?A then klog [Acct (vma_pages mpnt)] k else k))) = (r, k')"
    using dup_vma_link_spec [OF that]
    by (simp add: vma_linked_def copy_vma_def acct_pages_def fun_eq_iff)
  consider "ve_fatal V" | "\<not> ve_fatal V" "?A \<and> ve_nomem V" | "\<not> ve_fatal V" "\<not> (?A \<and> ve_nomem V)" "ve_new V = None"
    | a where "\<not> ve_fatal V" "\<not> (?A \<and> ve_nomem V)" "ve_new V = Some a"
    by blast
  then show ?thesis
  proof cases
    case 4
    then show ?thesis
    proof (cases "ve_policy V = None \<and> ve_uffd V = None \<and> (?W \<or> \<not> ve_anon_fails V)")
      case True
      with 4 assms link show ?thesis by (simp add: fail split: if_splits)
    next
      case False
      with 4 assms show ?thesis
        by (simp add: fail vma_dropped_def fun_eq_iff split: if_splits; fastforce)
    qed
  qed (use assms in \<open>auto simp: fail vma_dropped_def fun_eq_iff\<close>)
qed

text \<open>
  What the whole loop leaves: the copies \<open>cs\<close> of an initial part of the parent's list are on the
  child's list, and exactly their resources are held.
\<close>

definition vmas_linked :: "kconst \<Rightarrow> addr \<Rightarrow> mm_struct \<Rightarrow> vm_area_struct list \<Rightarrow> kernel \<Rightarrow> kernel \<Rightarrow> bool" where
  "vmas_linked K mm m cs k k' \<longleftrightarrow>
     (\<exists>a b c d. k_mms k' = (k_mms k)(mm \<mapsto> m\<lparr>mm_mmap := mm_mmap m @ cs,
        mm_map_count := mm_map_count m + int (length cs), mm_total_vm := a, mm_data_vm := b,
        mm_exec_vm := c, mm_stack_vm := d\<rparr>)) \<and>
     held (k_log k') = (\<lambda>r. held (k_log k) r + (if r \<in> {R_vma, R_vma_policy} then int (length cs) else 0)) \<and>
     acct_sum (k_log k') = acct_sum (k_log k) + sum_list (map (acct_pages K) cs)"

lemma vmas_linked_Nil:
  assumes "k_mms k mm = Some m" and "vma_dropped k k'"
  shows "vmas_linked K mm m [] k k'"
proof -
  have "m\<lparr>mm_mmap := mm_mmap m @ [], mm_map_count := mm_map_count m + int (length []),
      mm_total_vm := mm_total_vm m, mm_data_vm := mm_data_vm m, mm_exec_vm := mm_exec_vm m,
      mm_stack_vm := mm_stack_vm m\<rparr> = m"
    by simp
  moreover have "k_mms k' = (k_mms k)(mm \<mapsto> m)"
    using assms by (auto simp: vma_dropped_def)
  ultimately have "\<exists>a b c d. k_mms k' = (k_mms k)(mm \<mapsto> m\<lparr>mm_mmap := mm_mmap m @ [],
      mm_map_count := mm_map_count m + int (length []), mm_total_vm := a, mm_data_vm := b,
      mm_exec_vm := c, mm_stack_vm := d\<rparr>)"
    by metis
  with assms(2) show ?thesis by (simp add: vmas_linked_def vma_dropped_def cong: if_cong)
qed

lemma vmas_linked_Cons:
  assumes "vma_linked mm v (acct_pages K v) k k1" and "k_mms k mm = Some m"
    and "vmas_linked K mm (the_mm k1 mm) cs k1 k'"
  shows "vmas_linked K mm m (v # cs) k k'"
proof -
  have k1: "k_mms k1 = (k_mms k)(mm \<mapsto> m\<lparr>mm_mmap := mm_mmap m @ [v], mm_map_count := mm_map_count m + 1\<rparr>)"
    using assms(1,2) by (simp add: vma_linked_def)
  from assms(3) obtain a b c d where "k_mms k' = (k_mms k1)(mm \<mapsto> (the_mm k1 mm)\<lparr>
      mm_mmap := mm_mmap (the_mm k1 mm) @ cs, mm_map_count := mm_map_count (the_mm k1 mm) + int (length cs),
      mm_total_vm := a, mm_data_vm := b, mm_exec_vm := c, mm_stack_vm := d\<rparr>)"
    unfolding vmas_linked_def by blast
  then have "k_mms k' = (k_mms k)(mm \<mapsto> m\<lparr>mm_mmap := mm_mmap m @ v # cs,
      mm_map_count := mm_map_count m + int (length (v # cs)), mm_total_vm := a, mm_data_vm := b,
      mm_exec_vm := c, mm_stack_vm := d\<rparr>)"
    by (simp add: k1 add.assoc)
  moreover have "held (k_log k') = (\<lambda>r. held (k_log k) r +
      (if r \<in> {R_vma, R_vma_policy} then int (length (v # cs)) else 0))"
    using assms(1,3) by (auto simp: vma_linked_def vmas_linked_def)
  moreover have "acct_sum (k_log k') = acct_sum (k_log k) + sum_list (map (acct_pages K) (v # cs))"
    using assms(1,3) by (simp add: vma_linked_def vmas_linked_def)
  ultimately show ?thesis unfolding vmas_linked_def by blast
qed

lemma vmas_linked_account:
  assumes "k_mms k mm = Some m"
    and "vmas_linked K mm (vm_stat_account E f n m) cs (set_mm mm (vm_stat_account E f n) k) k'"
  shows "vmas_linked K mm m cs k k'"
proof -
  obtain a b c d where
    "me_stat_account E (mm_total_vm m, mm_data_vm m, mm_exec_vm m, mm_stack_vm m) f n = (a, b, c, d)"
    by (rule prod_cases4)
  then have e: "vm_stat_account E f n m =
      m\<lparr>mm_total_vm := a, mm_data_vm := b, mm_exec_vm := c, mm_stack_vm := d\<rparr>"
    by (simp add: vm_stat_account_def)
  from assms(2) [unfolded vmas_linked_def e] assms(1) e show ?thesis
    unfolding vmas_linked_def by simp
qed

lemma dup_vmas_spec:
  assumes ok: "vm_bits_ok K"
  shows "dup_vmas K E mm i vmas k = (r, k') \<Longrightarrow> k_mms k mm = Some m \<Longrightarrow>
    \<exists>cs ds. vmas_linked K mm m cs k k' \<and> copies K E mm i vmas = cs @ ds \<and> (r = None \<longrightarrow> ds = [])"
proof (induction vmas arbitrary: i k m)
  case Nil
  then show ?case
    using vmas_linked_Nil [of k mm m k] by (auto simp: vma_dropped_def)
next
  case (Cons v vs)
  show ?case
  proof (cases "has (va_flags v) (VM_DONTCOPY K)")
    case True
    let ?f = "vm_stat_account E (va_flags v) (- vma_pages v)"
    have "dup_vmas K E mm (Suc i) vs (set_mm mm ?f k) = (r, k')" "k_mms (set_mm mm ?f k) mm = Some (?f m)"
      using Cons.prems True by simp_all
    from Cons.IH [OF this] obtain cs ds where "vmas_linked K mm (?f m) cs (set_mm mm ?f k) k'"
      "copies K E mm (Suc i) vs = cs @ ds" "r = None \<longrightarrow> ds = []" by blast
    with True show ?thesis
      by (intro exI [of _ cs] exI [of _ ds])
        (simp add: vmas_linked_account [OF Cons.prems(2), where f = "va_flags v"])
  next
    case False
    let ?c = "copy_vma K (me_vma E i) mm v"
    obtain r1 k1 where d: "dup_vma K (me_vma E i) mm v k = (r1, k1)" by (rule prod.exhaust)
    from dup_vma_spec [OF d] consider "r1 \<noteq> None" "vma_dropped k k1" | "vma_linked mm ?c (acct_pages K ?c) k k1"
      using acct_pages_copy [OF ok] by auto
    then show ?thesis
    proof cases
      case 1
      with Cons.prems(1) False d have "k' = k1" "r \<noteq> None" by auto
      with 1 vmas_linked_Nil [OF Cons.prems(2), of k1] show ?thesis by blast
    next
      case 2
      then have m1: "k_mms k1 mm = Some (the_mm k1 mm)"
        using Cons.prems(2) by (simp add: vma_linked_def)
      have "\<exists>cs ds. vmas_linked K mm (the_mm k1 mm) cs k1 k' \<and> copies K E mm (Suc i) vs = cs @ ds \<and>
          (r = None \<longrightarrow> ds = [])"
      proof (cases r1)
        case None
        with Cons.prems False d have "dup_vmas K E mm (Suc i) vs k1 = (r, k')" by simp
        from Cons.IH [OF this m1] show ?thesis .
      next
        case (Some e)
        with Cons.prems False d have "k' = k1" "r \<noteq> None" by auto
        then show ?thesis
          using vmas_linked_Nil [OF m1, of k1] by (auto simp: vma_dropped_def)
      qed
      then obtain cs ds where "vmas_linked K mm (the_mm k1 mm) cs k1 k'"
        "copies K E mm (Suc i) vs = cs @ ds" "r = None \<longrightarrow> ds = []" by blast
      with vmas_linked_Cons [OF 2 Cons.prems(2)] False show ?thesis
        by (intro exI [of _ "?c # cs"] exI [of _ ds]) simp
    qed
  qed
qed

text \<open>The fields of an address space that copying mappings into it leaves alone.\<close>

definition mm_same :: "mm_struct \<Rightarrow> mm_struct \<Rightarrow> bool" where
  "mm_same m m' \<longleftrightarrow> mm_users m' = mm_users m \<and> mm_count m' = mm_count m \<and> mm_owner m' = mm_owner m \<and>
     mm_binfmt m' = mm_binfmt m \<and> mm_user_ns m' = mm_user_ns m \<and> mm_flags m' = mm_flags m \<and>
     mm_def_flags m' = mm_def_flags m \<and> mm_pgd m' = mm_pgd m"

definition mmap_copied :: "kconst \<Rightarrow> addr \<Rightarrow> mm_struct \<Rightarrow> mm_struct \<Rightarrow> vm_area_struct list \<Rightarrow> kernel \<Rightarrow> kernel \<Rightarrow> bool" where
  "mmap_copied K mm m m' cs k k' \<longleftrightarrow>
     k_mms k' = (k_mms k)(mm \<mapsto> m') \<and> mm_same m m' \<and> mm_mmap m' = mm_mmap m @ cs \<and>
     mm_map_count m' = mm_map_count m + int (length cs) \<and>
     held (k_log k') = (\<lambda>r. held (k_log k) r + (if r \<in> {R_vma, R_vma_policy} then int (length cs) else 0)) \<and>
     acct_sum (k_log k') = acct_sum (k_log k) + sum_list (map (acct_pages K) cs)"

lemma file_ops_sel [simp]:
  "k_mms (get_file f k) = k_mms k" "k_log (get_file f k) = k_log k"
  "k_mms (allow_write_access f k) = k_mms k" "k_log (allow_write_access f k) = k_log k"
  by (simp_all add: get_file_def allow_write_access_def)

lemma fput_sel [simp]:
  "k_mms (fput f k) = k_mms k" "held (k_log (fput f k)) = held (k_log k)"
  "acct_sum (k_log (fput f k)) = acct_sum (k_log k)"
  by (simp_all add: fput_def Let_def fun_eq_iff)

lemma dup_mm_exe_file_spec:
  "k_mms (dup_mm_exe_file E mm oldmm k) =
     upd mm (\<lambda>m. m\<lparr>mm_exe_file := fst (get_mm_exe_file (the_mm k oldmm) k)\<rparr>) (k_mms k)"
  "held (k_log (dup_mm_exe_file E mm oldmm k)) = held (k_log k)"
  "acct_sum (k_log (dup_mm_exe_file E mm oldmm k)) = acct_sum (k_log k)"
  by (simp_all add: dup_mm_exe_file_def get_mm_exe_file_def deny_write_access_def fun_eq_iff Let_def
      split: option.splits)

lemma vmas_linked_copied:
  assumes "vmas_linked K mm m1 cs k1 k2" and "mm_same m m1" and "mm_mmap m1 = mm_mmap m"
    and "mm_map_count m1 = mm_map_count m" and "k_mms k1 = (k_mms k)(mm \<mapsto> m1)"
    and "held (k_log k1) = (\<lambda>r. held (k_log k) r + h r)" and "acct_sum (k_log k1) = acct_sum (k_log k)"
    and "k_mms k' = k_mms k2" and "held (k_log k') = (\<lambda>r. held (k_log k2) r - h r)"
    and "acct_sum (k_log k') = acct_sum (k_log k2)"
  shows "\<exists>m'. mmap_copied K mm m m' cs k k'"
  using assms unfolding vmas_linked_def mmap_copied_def mm_same_def by (fastforce simp: fun_eq_iff)

lemma dup_mmap_spec:
  assumes ok: "vm_bits_ok K" and ne: "mm \<noteq> oldmm"
    and m: "k_mms k mm = Some m" and old: "k_mms k oldmm = Some old"
    and d: "dup_mmap K E mm oldmm k = (r, k')"
  shows "\<exists>cs ds m'. copies K E mm 0 (mm_mmap old) = cs @ ds \<and> (r = None \<longrightarrow> ds = []) \<and>
    mmap_copied K mm m m' cs k k'"
proof -
  let ?k1 = "klog [Acq R_mmap_lock, Call ''flush_cache_dup_mm'', Call ''uprobe_dup_mmap'', Acq R_mmap_lock]
    (klog [Acq R_uprobe] k)"
  let ?k2 = "dup_mm_exe_file E mm oldmm ?k1"
  let ?f = "\<lambda>m. m\<lparr>mm_total_vm := mm_total_vm old, mm_data_vm := mm_data_vm old,
     mm_exec_vm := mm_exec_vm old, mm_stack_vm := mm_stack_vm old\<rparr>"
  let ?k3 = "set_mm mm ?f ?k2"
  let ?h = "\<lambda>r. if r = R_mmap_lock then 2 else if r = R_uprobe then 1 else (0 :: int)"
  define m3 where "m3 = ?f (m\<lparr>mm_exe_file := fst (get_mm_exe_file old ?k1)\<rparr>)"
  have k3: "k_mms ?k3 = (k_mms k)(mm \<mapsto> m3)" "k_mms ?k3 mm = Some m3"
    using m old by (simp_all add: dup_mm_exe_file_spec m3_def)
  have m3: "mm_same m m3" "mm_mmap m3 = mm_mmap m" "mm_map_count m3 = mm_map_count m"
    by (simp_all add: mm_same_def m3_def)
  have h3: "held (k_log ?k3) = (\<lambda>r. held (k_log k) r + ?h r)" "acct_sum (k_log ?k3) = acct_sum (k_log k)"
    by (simp_all add: dup_mm_exe_file_spec fun_eq_iff)
  have o2: "the_mm ?k2 oldmm = old" using ne old by (simp add: dup_mm_exe_file_spec)
  have nil: "vmas_linked K mm m3 [] ?k3 ?k3"
    by (rule vmas_linked_Nil [OF k3(2)]) (simp add: vma_dropped_def)
  have out: "\<exists>m'. mmap_copied K mm m m' cs k k'"
    if "vmas_linked K mm m3 cs ?k3 k4" "dup_mmap_out q k4 = (r, k')" for cs k4 q
    by (rule vmas_linked_copied [OF that(1) m3 k3(1) h3])
      (use that(2) in \<open>auto simp: dup_mmap_out_def fun_eq_iff\<close>)
  consider "me_lock_fails E" | "\<not> me_lock_fails E" "me_ksm E \<noteq> None \<or> me_khugepaged E \<noteq> None"
    | "\<not> me_lock_fails E" "me_ksm E = None" "me_khugepaged E = None" by blast
  then show ?thesis
  proof cases
    case 1
    have "mmap_copied K mm m m [] k k'" "r \<noteq> None"
      using d 1 m by (auto simp: dup_mmap_def mmap_copied_def mm_same_def fun_eq_iff)
    then show ?thesis by auto
  next
    case 2
    then obtain q where "dup_mmap_out q ?k3 = (r, k')" "q \<noteq> None"
      using d o2 by (auto simp: dup_mmap_def Let_def split: if_splits)
    with out [OF nil] show ?thesis by (auto simp: dup_mmap_out_def)
  next
    case 3
    obtain q k4 where v: "dup_vmas K E mm 0 (mm_mmap old) ?k3 = (q, k4)" by (rule prod.exhaust)
    from dup_vmas_spec [OF ok v k3(2)] obtain cs ds where c: "vmas_linked K mm m3 cs ?k3 k4"
      "copies K E mm 0 (mm_mmap old) = cs @ ds" "q = None \<longrightarrow> ds = []" by blast
    have "\<exists>q'. dup_mmap_out q' k4 = (r, k') \<and> (q \<noteq> None \<longrightarrow> r \<noteq> None)"
      using d 3 o2 v by (cases q) (auto simp: dup_mmap_def dup_mmap_out_def Let_def)
    with out [OF c(1)] c(2,3) show ?thesis by blast
  qed
qed

end
