(* ===== verification/Refcount.thy ===== *)
theory Refcount
  imports Main
begin

text \<open>
  The contract of a reference-counted kernel object: \<open>cnt k a\<close> is the number of references to the
  live object at \<open>a\<close>, \<open>None\<close> when there is none; \<open>get\<close> takes a reference and \<open>put\<close> drops one, the
  last one together with the object. The lemmas cover a matched pair of calls and every sequence
  of calls that never drops more references than there are. \<^verbatim>\<open>kernel/fork.c\<close> implements the contract
  three times: for address spaces, for signal handler tables and for signal structures.
\<close>

datatype 'a ref_op = Get 'a | Put 'a

text \<open>How a sequence of calls changes the number of references to \<open>a\<close>.\<close>

fun net :: "'a ref_op list \<Rightarrow> 'a \<Rightarrow> int" where
  "net [] a = 0"
| "net (Get b # ops) a = (if b = a then 1 else 0) + net ops a"
| "net (Put b # ops) a = (if b = a then -1 else 0) + net ops a"

lemma net_append: "net (xs @ ys) a = net xs a + net ys a"
  by (induction xs a rule: net.induct) simp_all

locale refcounted =
  fixes cnt :: "'k \<Rightarrow> 'a \<Rightarrow> int option"
    and get :: "'a \<Rightarrow> 'k \<Rightarrow> 'k"
    and put :: "'a \<Rightarrow> 'k \<Rightarrow> 'k"
  assumes get_cnt: "cnt k a = Some n \<Longrightarrow> 0 < n \<Longrightarrow> cnt (get a k) = (cnt k)(a \<mapsto> n + 1)"
    and put_cnt: "cnt k a = Some n \<Longrightarrow> 1 < n \<Longrightarrow> cnt (put a k) = (cnt k)(a \<mapsto> n - 1)"
    and put_last: "cnt k a = Some 1 \<Longrightarrow> cnt (put a k) = (cnt k)(a := None)"
begin

lemma put_get:
  assumes "cnt k a = Some n" and "0 < n"
  shows "cnt (put a (get a k)) = cnt k"
proof -
  have "cnt (get a k) a = Some (n + 1)" using get_cnt [OF assms] by simp
  from put_cnt [OF this] get_cnt [OF assms] assms show ?thesis by (simp add: fun_upd_idem)
qed

fun run :: "'a ref_op list \<Rightarrow> 'k \<Rightarrow> 'k" where
  "run [] k = k"
| "run (Get a # ops) k = run ops (get a k)"
| "run (Put a # ops) k = run ops (put a k)"

text \<open>As long as every object of the sequence keeps a reference, all counts are exact.\<close>

lemma run_cnt:
  assumes "\<And>a. a \<in> A \<Longrightarrow> cnt k a \<noteq> None" and "\<And>op. op \<in> set ops \<Longrightarrow> case op of Get a \<Rightarrow> a \<in> A | Put a \<Rightarrow> a \<in> A"
    and "\<And>a i. a \<in> A \<Longrightarrow> i \<le> length ops \<Longrightarrow> 0 < the (cnt k a) + net (take i ops) a"
  shows "cnt (run ops k) = (\<lambda>a. if a \<in> A then Some (the (cnt k a) + net ops a) else cnt k a)"
  using assms
proof (induction ops arbitrary: k)
  case Nil
  then show ?case by (auto simp: fun_eq_iff)
next
  case (Cons op ops)
  define b where "b = (case op of Get a \<Rightarrow> a | Put a \<Rightarrow> a)"
  define d where "d = net [op] b"
  define k1 where "k1 = (case op of Get a \<Rightarrow> get a k | Put a \<Rightarrow> put a k)"
  have b: "b \<in> A" using Cons.prems(2) [of op] by (cases op) (auto simp: b_def)
  then obtain n where n: "cnt k b = Some n" using Cons.prems(1) by blast
  have "0 < n" "0 < n + d"
    using Cons.prems(3) [OF b, of 0] Cons.prems(3) [OF b, of 1] n by (auto simp: d_def)
  then have k1: "cnt k1 = (cnt k)(b \<mapsto> n + d)"
    using get_cnt [of k b n] put_cnt [of k b n] n by (cases op) (auto simp: k1_def b_def d_def)
  have net: "net (op # xs) a = (if a = b then d else 0) + net xs a" for xs a
    by (cases op) (auto simp: b_def d_def)
  have "cnt (run ops k1) = (\<lambda>a. if a \<in> A then Some (the (cnt k1 a) + net ops a) else cnt k1 a)"
  proof (rule Cons.IH)
    fix a i assume a: "a \<in> A" and "i \<le> length ops"
    then have "0 < the (cnt k a) + net (op # take i ops) a"
      using Cons.prems(3) [OF a, of "Suc i"] by simp
    then show "0 < the (cnt k1 a) + net (take i ops) a"
      by (cases "a = b") (auto simp: k1 n net)
  qed (use Cons.prems k1 in auto)
  moreover have "run (op # ops) k = run ops k1" by (cases op) (auto simp: k1_def)
  ultimately show ?case using b by (auto simp: fun_eq_iff k1 n net)
qed

text \<open>The object goes away with the last reference, and only then.\<close>

lemma run_last:
  assumes "cnt k a = Some n" and "0 < n"
  shows "cnt (run (replicate (nat n) (Put a)) k) = (cnt k)(a := None)"
  using assms
proof (induction "nat n - 1" arbitrary: n k)
  case 0
  then have "n = 1" by simp
  with 0 put_last show ?case by simp
next
  case (Suc m)
  then have "1 < n" "nat n = Suc (nat (n - 1))" by simp_all
  with Suc.hyps(1) [of "n - 1" "put a k"] Suc.hyps(2) put_cnt [of k a n] Suc.prems show ?case by simp
qed

end

end
