(* ===== verification/Mm_Refs.thy ===== *)
theory Mm_Refs
  imports Fork_Mm Refcount
begin

text \<open>
  Reference counting of address spaces: what \<^verbatim>\<open>mmput\<close> and \<^verbatim>\<open>mmdrop\<close> take away, that \<^verbatim>\<open>mmget\<close> and
  \<^verbatim>\<open>mmput\<close> meet the contract of \<open>refcounted\<close>, and that \<^verbatim>\<open>dup_mm\<close> either returns a complete copy
  or leaves nothing behind.
\<close>

section \<open>Reference counting\<close>

lemma set_mm_exe_file_None:
  assumes "k_mms k mm = Some m"
  shows "k_mms (snd (set_mm_exe_file b mm None k)) = (k_mms k)(mm \<mapsto> m\<lparr>mm_exe_file := None\<rparr>)"
    "held (k_log (snd (set_mm_exe_file b mm None k))) = held (k_log k)"
  using assms by (simp_all add: set_mm_exe_file_def Let_def split: option.splits)

lemma check_mm_sel [simp]:
  "k_mms (check_mm mm k) = k_mms k" "held (k_log (check_mm mm k)) = held (k_log k)"
proof -
  have "held (rev (concat (map (\<lambda>i. if P i then [Call s] else []) is))) r = 0" for P s r and "is" :: "nat list"
    by (induction "is") (simp_all add: held_append)
  then show "held (k_log (check_mm mm k)) = held (k_log k)"
    by (simp add: check_mm_def Let_def fun_eq_iff held_append)
qed (simp add: check_mm_def Let_def)

text \<open>What dropping the last user takes away: the address space, unless it is still pinned by \<^verbatim>\<open>mm_count\<close>.\<close>

definition mm_refs :: "mm_struct \<Rightarrow> resource \<Rightarrow> int" where
  "mm_refs m r = (if mm_count m = 1 \<and> r \<in> {R_pgd, R_mm_context, R_user_ns} then 1
     else if r = R_module \<and> mm_binfmt m \<noteq> None then 1 else 0)"

lemma mmdrop_spec:
  assumes "k_mms k mm = Some m"
  shows "k_mms (mmdrop E cur mm k) =
      (k_mms k)(mm := if mm_count m = 1 then None else Some (m\<lparr>mm_count := mm_count m - 1\<rparr>))"
    "held (k_log (mmdrop E cur mm k)) r =
      held (k_log k) r - (if mm_count m = 1 \<and> r \<in> {R_pgd, R_mm_context, R_user_ns} then 1 else 0)"
  using assms
  by (simp_all add: mmdrop_def mmdrop_free_def mm_free_pgd_def free_mm_def Let_def fun_eq_iff)

lemma mmput_live:
  "k_mms k mm = Some m \<Longrightarrow> mm_users m \<noteq> 1 \<Longrightarrow>
     mmput E cur mm k = set_mm mm (\<lambda>m. m\<lparr>mm_users := mm_users m - 1\<rparr>) k"
  by (simp add: mmput_def)

lemma mmput_last:
  assumes m: "k_mms k mm = Some m" and u: "mm_users m = 1"
  shows "\<exists>m'. k_mms (mmput E cur mm k) = (k_mms k)(mm := if mm_count m = 1 then None else Some m') \<and>
      mm_users m' = 0 \<and> mm_count m' = mm_count m - 1"
    "held (k_log (mmput E cur mm k)) r = held (k_log k) r - mm_refs m r"
proof -
  let ?m1 = "m\<lparr>mm_users := 0, mm_mmap := [], mm_rss := me_exit_rss E, mm_pgtables_bytes := me_exit_pgtables E\<rparr>"
  let ?k1 = "klog [Call ''exit_mmap'', Call ''mm_put_huge_zero_page'']
    (set_mm mm (\<lambda>m. m\<lparr>mm_mmap := [], mm_rss := me_exit_rss E, mm_pgtables_bytes := me_exit_pgtables E\<rparr>)
      (klog [Call ''uprobe_clear_state'', Call ''exit_aio'', Call ''ksm_exit'', Call ''khugepaged_exit'']
        (set_mm mm (\<lambda>m. m\<lparr>mm_users := mm_users m - 1\<rparr>) k)))"
  let ?k2 = "snd (set_mm_exe_file False mm None ?k1)"
  let ?m2 = "?m1\<lparr>mm_exe_file := None\<rparr>"
  let ?k3 = "if mm_on_mmlist m then set_mm mm (\<lambda>m. m\<lparr>mm_on_mmlist := False\<rparr>) ?k2 else ?k2"
  let ?m3 = "if mm_on_mmlist m then ?m2\<lparr>mm_on_mmlist := False\<rparr> else ?m2"
  let ?k4 = "if mm_binfmt m \<noteq> None then klog [Rel R_module] ?k3 else ?k3"
  have k1: "k_mms ?k1 mm = Some ?m1" "k_mms ?k1 = (k_mms k)(mm \<mapsto> ?m1)" "held (k_log ?k1) = held (k_log k)"
    using m u by (simp_all add: fun_eq_iff)
  have k2: "k_mms ?k2 = (k_mms k)(mm \<mapsto> ?m2)" "held (k_log ?k2) = held (k_log k)"
    using set_mm_exe_file_None [OF k1(1)] k1(2,3) by simp_all
  have k4: "k_mms ?k4 = (k_mms k)(mm \<mapsto> ?m3)" "k_mms ?k4 mm = Some ?m3"
    "held (k_log ?k4) r = held (k_log k) r - (if r = R_module \<and> mm_binfmt m \<noteq> None then 1 else 0)"
    using k2 by simp_all
  have eq: "mmput E cur mm k = mmdrop E cur mm ?k4"
    using m u k2(1) unfolding mmput_def mmput_final_def Let_def by simp
  show "\<exists>m'. k_mms (mmput E cur mm k) = (k_mms k)(mm := if mm_count m = 1 then None else Some m') \<and>
      mm_users m' = 0 \<and> mm_count m' = mm_count m - 1"
    unfolding eq mmdrop_spec(1) [OF k4(2)] k4(1)
    by (intro exI [of _ "?m3\<lparr>mm_count := mm_count m - 1\<rparr>"]) auto
  show "held (k_log (mmput E cur mm k)) r = held (k_log k) r - mm_refs m r"
    unfolding eq mmdrop_spec(2) [OF k4(2)] k4(3) by (auto simp: mm_refs_def)
qed

text \<open>Address spaces with users are reference counted by \<^verbatim>\<open>mmget\<close> and \<^verbatim>\<open>mmput\<close>.\<close>

definition mm_cnt :: "kernel \<Rightarrow> addr \<Rightarrow> int option" where
  "mm_cnt k a = (case k_mms k a of Some m \<Rightarrow> if mm_users m = 0 then None else Some (mm_users m) | None \<Rightarrow> None)"

interpretation mmrc: refcounted mm_cnt mmget "mmput E cur" for E cur
proof
  fix k a n
  assume c: "mm_cnt k a = Some n"
  then obtain m where m: "k_mms k a = Some m" "mm_users m = n" by (auto simp: mm_cnt_def split: option.splits if_splits)
  show "mm_cnt (mmget a k) = (mm_cnt k)(a \<mapsto> n + 1)" if "0 < n"
    using m that by (auto simp: mm_cnt_def mmget_def fun_eq_iff)
  show "mm_cnt (mmput E cur a k) = (mm_cnt k)(a \<mapsto> n - 1)" if "1 < n"
    using m that by (auto simp: mm_cnt_def mmput_live fun_eq_iff)
next
  fix k a
  assume c: "mm_cnt k a = Some 1"
  then obtain m where m: "k_mms k a = Some m" "mm_users m = 1" by (auto simp: mm_cnt_def split: option.splits if_splits)
  from mmput_last(1) [OF m, of E cur] obtain m' where
    "k_mms (mmput E cur a k) = (k_mms k)(a := if mm_count m = 1 then None else Some m')" "mm_users m' = 0"
    by blast
  then show "mm_cnt (mmput E cur a k) = (mm_cnt k)(a := None)"
    by (auto simp: mm_cnt_def fun_eq_iff)
qed

section \<open>Frame\<close>

text \<open>Everything but address spaces, files, mappings and the log; nothing here changes it.\<close>

definition mmless :: "kernel \<Rightarrow> kernel" where
  "mmless k = k\<lparr>k_mms := Map.empty, k_file := Map.empty, k_mappings := Map.empty, k_log := []\<rparr>"

named_theorems mmframe \<open>the rest of the kernel state is untouched\<close>

lemma mmless_base [mmframe, simp]:
  "mmless (klog es k) = mmless k" "mmless (set_mm a f k) = mmless k" "mmless (free_mm a k) = mmless k"
  "mmless (k\<lparr>k_mms := h\<rparr>) = mmless k" "mmless (k\<lparr>k_file := fh\<rparr>) = mmless k"
  "mmless (k\<lparr>k_mappings := mh\<rparr>) = mmless k"
  by (simp_all add: mmless_def klog_def set_mm_def free_mm_def)

lemma mmless_files [mmframe, simp]:
  "mmless (get_file f k) = mmless k" "mmless (fput f k) = mmless k" "mmless (allow_write_access f k) = mmless k"
  "mmless (snd (deny_write_access b f k)) = mmless k" "mmless (snd (get_mm_exe_file m k)) = mmless k"
  by (simp_all add: get_file_def fput_def allow_write_access_def deny_write_access_def get_mm_exe_file_def Let_def
      split: option.splits)

lemma mmless_exe [mmframe, simp]:
  "mmless (snd (set_mm_exe_file b mm None k)) = mmless k" "mmless (dup_mm_exe_file E mm oldmm k) = mmless k"
  "mmless (dup_vma_file K u v k) = mmless k" "mmless (check_mm mm k) = mmless k"
  by (simp_all add: set_mm_exe_file_def dup_mm_exe_file_def get_mm_exe_file_def deny_write_access_def
      dup_vma_file_def check_mm_def Let_def split: option.splits)

lemma mmless_if [simp]: "mmless (if b then k else k') = (if b then mmless k else mmless k')"
  by simp

lemma mmless_drop [mmframe, simp]: "mmless (mmdrop E cur mm k) = mmless k"
  by (simp add: mmdrop_def mmdrop_free_def mm_free_pgd_def Let_def del: if_split)

lemma mmless_put [mmframe, simp]: "mmless (mmput E cur mm k) = mmless k"
  by (simp add: mmput_def mmput_final_def Let_def del: if_split)

lemma mmless_dup_vma [mmframe]: "dup_vma K V mm v k = (r, k') \<Longrightarrow> mmless k' = mmless k"
proof -
  have link: "mmless (snd (dup_vma_link K V mm v t k)) = mmless k" for t k
    by (simp add: dup_vma_link_def Let_def split: prod.splits if_splits)
  note defs = dup_vma_def dup_fail_nomem_def dup_fail_policy_def dup_fail_anon_vma_fork_def
    vm_area_dup_def vm_area_free_def Let_def
  have "mmless (snd (dup_vma K V mm v k)) = mmless k"
    by (simp add: defs link split: option.splits if_splits)
  then show "dup_vma K V mm v k = (r, k') \<Longrightarrow> mmless k' = mmless k" by simp
qed

lemma mmless_dup_vmas [mmframe]: "dup_vmas K E mm i vs k = (r, k') \<Longrightarrow> mmless k' = mmless k"
  by (induction K E mm i vs k arbitrary: r k' rule: dup_vmas.induct)
    (auto dest: mmless_dup_vma split: if_splits prod.splits option.splits)

lemma mmless_dup_mmap [mmframe]: "dup_mmap K E mm oldmm k = (r, k') \<Longrightarrow> mmless k' = mmless k"
  by (auto simp: dup_mmap_def dup_mmap_out_def Let_def dest!: mmless_dup_vmas
      split: if_splits prod.splits option.splits)

lemma mm_init_spec:
  assumes "k_mms k mm = Some m0" and "mm_init K E cur mm p ns k = (r, k')"
  shows "mmless k' = mmless k" and
    "case r of
       None \<Rightarrow> k_mms k' = (k_mms k)(mm := None) \<and> held (k_log k') = held (k_log k)
     | Some a \<Rightarrow> a = mm \<and> (\<exists>m. k_mms k' = (k_mms k)(mm \<mapsto> m) \<and> mm_users m = 1 \<and> mm_count m = 1 \<and>
         mm_mmap m = [] \<and> mm_map_count m = 0 \<and> mm_owner m = Some p \<and> mm_binfmt m = mm_binfmt m0 \<and>
         held (k_log k') = (\<lambda>r. held (k_log k) r + (if r \<in> {R_pgd, R_mm_context, R_user_ns} then 1 else 0)))"
proof -
  define m1 where "m1 = mm_init_fields K E (case ts_mm cur of None \<Rightarrow> None | Some a \<Rightarrow> k_mms k a) p m0"
  have m1: "mm_users m1 = 1" "mm_count m1 = 1" "mm_mmap m1 = []" "mm_map_count m1 = 0"
    "mm_owner m1 = Some p" "mm_binfmt m1 = mm_binfmt m0"
    by (simp_all add: m1_def mm_init_fields_def Let_def split: option.splits)
  show "mmless k' = mmless k"
    using assms(2) by (auto simp: mm_init_def mm_alloc_pgd_def mm_free_pgd_def Let_def split: if_splits)
  show "case r of
       None \<Rightarrow> k_mms k' = (k_mms k)(mm := None) \<and> held (k_log k') = held (k_log k)
     | Some a \<Rightarrow> a = mm \<and> (\<exists>m. k_mms k' = (k_mms k)(mm \<mapsto> m) \<and> mm_users m = 1 \<and> mm_count m = 1 \<and>
         mm_mmap m = [] \<and> mm_map_count m = 0 \<and> mm_owner m = Some p \<and> mm_binfmt m = mm_binfmt m0 \<and>
         held (k_log k') = (\<lambda>r. held (k_log k) r + (if r \<in> {R_pgd, R_mm_context, R_user_ns} then 1 else 0)))"
  proof (cases "me_pgd E = None \<or> me_context E \<noteq> None")
    case True
    then have "r = None" "k_mms k' = (k_mms k)(mm := None)"
      using assms by (auto simp: mm_init_def mm_alloc_pgd_def mm_free_pgd_def free_mm_def Let_def split: if_splits)
    moreover have "held (k_log k') = held (k_log k)"
      using True assms by (auto simp: mm_init_def mm_alloc_pgd_def mm_free_pgd_def free_mm_def Let_def fun_eq_iff
          split: if_splits)
    ultimately show ?thesis by simp
  next
    case False
    let ?m = "m1\<lparr>mm_pgd := me_pgd E, mm_user_ns := ns\<rparr>"
    have "r = Some mm" "k_mms k' = (k_mms k)(mm \<mapsto> ?m)"
      using False assms by (auto simp: mm_init_def mm_alloc_pgd_def Let_def m1_def)
    moreover have "held (k_log k') = (\<lambda>r. held (k_log k) r + (if r \<in> {R_pgd, R_mm_context, R_user_ns} then 1 else 0))"
      using False assms by (auto simp: mm_init_def mm_alloc_pgd_def Let_def fun_eq_iff)
    ultimately show ?thesis using m1 by auto
  qed
qed

section \<open>Duplicating an address space\<close>

text \<open>
  VMA objects and policy references of a torn-down address space are given back inside
  \<^verbatim>\<open>exit_mmap\<close>, outside the tree, so the balances below leave those two resources out.
\<close>

abbreviation (input) vma_res :: "resource set" where "vma_res \<equiv> {R_vma, R_vma_policy}"

definition mm_created :: "addr \<Rightarrow> mm_struct \<Rightarrow> kernel \<Rightarrow> kernel \<Rightarrow> bool" where
  "mm_created mm m k k' \<longleftrightarrow> k_mms k' = (k_mms k)(mm \<mapsto> m) \<and> mm_users m = 1 \<and> mm_count m = 1 \<and>
     (\<forall>r. r \<notin> vma_res \<longrightarrow> held (k_log k') r = held (k_log k) r + mm_refs m r)"

lemma mmput_created:
  assumes "mm_created mm m k k1" and "k_mms k mm = None" and "k_mms k2 = k_mms k1"
  shows "k_mms (mmput E cur mm k2) = k_mms k"
proof -
  have m: "k_mms k2 mm = Some m" "mm_users m = 1" "mm_count m = 1" and k2: "k_mms k2 = (k_mms k)(mm \<mapsto> m)"
    using assms(1,3) by (simp_all add: mm_created_def)
  have "k_mms (mmput E cur mm k2) = (k_mms k2)(mm := None)"
    using mmput_last(1) [OF m(1,2), of E cur] m(3) by auto
  also have "\<dots> = k_mms k" unfolding k2 by (simp add: fun_upd_idem assms(2))
  finally show ?thesis .
qed

lemma mmput_created_held:
  assumes "mm_created mm m k k1" and "k_mms k2 = k_mms k1" and "r \<notin> vma_res"
  shows "held (k_log (mmput E cur mm k2)) r = held (k_log k2) r - held (k_log k1) r + held (k_log k) r"
proof -
  have m: "k_mms k2 mm = Some m" "mm_users m = 1"
    using assms(1,2) by (simp_all add: mm_created_def)
  have "held (k_log k1) r = held (k_log k) r + mm_refs m r"
    using assms(1,3) unfolding mm_created_def by blast
  with mmput_last(2) [OF m, of E cur r] show ?thesis by linarith
qed

lemma dup_mm_free_pt_spec:
  fixes k :: kernel
  assumes "k_mms k1 mm = Some m" and "mm_users m = 1" and "mm_count m = 1" and "k_mms k1 = (k_mms k)(mm \<mapsto> m)"
    and "k_mms k mm = None" and "dup_mm_free_pt E cur mm k1 = (r, k')"
    and "\<And>r. r \<notin> vma_res \<Longrightarrow> held (k_log k1) r = held (k_log k) r + (if r \<in> {R_pgd, R_mm_context, R_user_ns} then 1 else 0)"
  shows "r = None" "k_mms k' = k_mms k" "mmless k' = mmless k1"
    "\<And>r. r \<notin> vma_res \<Longrightarrow> held (k_log k') r = held (k_log k) r"
proof -
  let ?m = "m\<lparr>mm_binfmt := None, mm_owner := None\<rparr>"
  let ?k = "mm_init_owner mm None (set_mm mm (\<lambda>m. m\<lparr>mm_binfmt := None\<rparr>) k1)"
  have k: "k_mms ?k = (k_mms k)(mm \<mapsto> ?m)" "k_log ?k = k_log k1"
    using assms(1,4) by (simp_all add: mm_init_owner_def)
  have c: "mm_created mm ?m k ?k"
    using k assms(2,3,7) by (auto simp: mm_created_def mm_refs_def)
  have eq: "k' = mmput E cur mm ?k" "r = None" using assms(6) by (simp_all add: dup_mm_free_pt_def)
  show "r = None" by (rule eq(2))
  show "k_mms k' = k_mms k" unfolding eq(1) by (rule mmput_created [OF c assms(5) refl])
  show "held (k_log k') q = held (k_log k) q" if "q \<notin> vma_res" for q
    using mmput_created_held [OF c refl that, of E cur] unfolding eq(1) by linarith
  show "mmless k' = mmless k1" by (simp add: eq mm_init_owner_def)
qed

definition mm_duplicated :: "kconst \<Rightarrow> mm_env \<Rightarrow> addr \<Rightarrow> mm_struct \<Rightarrow> kernel \<Rightarrow> ptr \<Rightarrow> kernel \<Rightarrow> bool" where
  "mm_duplicated K E tsk old k r k' \<longleftrightarrow> mmless k' = mmless k \<and>
     (case r of
        None \<Rightarrow> k_mms k' = k_mms k \<and> (\<forall>r. r \<notin> vma_res \<longrightarrow> held (k_log k') r = held (k_log k) r)
      | Some mm \<Rightarrow> me_mm E = Some mm \<and> (\<exists>m. mm_created mm m k k' \<and> mm_owner m = Some tsk \<and>
          mm_mmap m = copies K E mm 0 (mm_mmap old) \<and> mm_map_count m = int (length (mm_mmap m))))"

lemma dup_mm_finish_spec:
  assumes m: "k_mms k2 = (k_mms k)(mm \<mapsto> m)" "mm_users m = 1" "mm_count m = 1" "mm_owner m = Some tsk"
    and list: "err = None \<Longrightarrow> mm_mmap m = copies K E mm 0 (mm_mmap old) \<and> mm_map_count m = int (length (mm_mmap m))"
    and h: "\<And>r. r \<notin> vma_res \<Longrightarrow>
      held (k_log k2) r = held (k_log k) r + (if r \<in> {R_pgd, R_mm_context, R_user_ns} then 1 else 0)"
    and l: "mmless k2 = mmless k" and new: "k_mms k mm = None" "me_mm E = Some mm"
    and f: "dup_mm_finish E cur mm err k2 = (r, k')"
  shows "mm_duplicated K E tsk old k r k'"
proof -
  have fail: "mm_duplicated K E tsk old k r k'"
    if "dup_mm_free_pt E cur mm k3 = (r, k')" "k_mms k3 = (k_mms k)(mm \<mapsto> m3)" "mm_users m3 = 1"
      "mm_count m3 = 1" "k_log k3 = k_log k2" "mmless k3 = mmless k" for k3 m3
    using dup_mm_free_pt_spec [of k3 mm m3 k E cur r k'] that new(1) h by (simp add: mm_duplicated_def)
  let ?m = "m\<lparr>mm_hiwater_rss := me_get_rss E m, mm_hiwater_vm := mm_total_vm m\<rparr>"
  let ?k = "set_mm mm (\<lambda>m. m\<lparr>mm_hiwater_rss := me_get_rss E m, mm_hiwater_vm := mm_total_vm m\<rparr>) k2"
  have k: "k_mms ?k = (k_mms k)(mm \<mapsto> ?m)" "mmless ?k = mmless k" using m l by simp_all
  have good: "mm_duplicated K E tsk old k (Some mm) k4"
    if "err = None" "k_mms k4 = (k_mms k)(mm \<mapsto> ?m)" "mmless k4 = mmless k"
      "\<And>r. held (k_log k4) r = held (k_log k2) r + (if r = R_module \<and> mm_binfmt m \<noteq> None then 1 else 0)" for k4
    using that list m h new(2) by (auto simp: mm_duplicated_def mm_created_def mm_refs_def)
  show ?thesis
  proof (cases "err \<noteq> None \<or> mm_binfmt m \<noteq> None \<and> \<not> me_module E")
    case True
    with f fail [OF _ m(1-3) refl l] fail [OF _ k(1) _ _ _ k(2)] m show ?thesis
      by (auto simp: dup_mm_finish_def Let_def split: if_splits)
  next
    case False
    with f m good [of ?k] good [of "klog [Acq R_module] ?k"] l show ?thesis
      by (auto simp: dup_mm_finish_def Let_def split: if_splits)
  qed
qed

lemma dup_mm_spec:
  assumes ok: "vm_bits_ok K" and fresh: "\<forall>a. me_mm E = Some a \<longrightarrow> a \<notin> dom (k_mms k)"
    and old: "k_mms k oldmm = Some old" and d: "dup_mm K E cur tsk oldmm k = (r, k')"
  shows "mm_duplicated K E tsk old k r k'"
proof (cases "me_mm E")
  case None
  with d show ?thesis by (auto simp: dup_mm_def mm_duplicated_def)
next
  case (Some mm)
  with fresh old have mm: "k_mms k mm = None" "mm \<noteq> oldmm" by auto
  let ?k0 = "k\<lparr>k_mms := (k_mms k)(mm \<mapsto> old)\<rparr>"
  obtain a k1 where i: "mm_init K E cur mm tsk (mm_user_ns old) ?k0 = (a, k1)" by (rule prod.exhaust)
  have "k_mms ?k0 mm = Some old" by simp
  note init = mm_init_spec [OF this i]
  show ?thesis
  proof (cases a)
    case None
    with init mm have "k_mms k1 = k_mms k" "held (k_log k1) = held (k_log k)" by auto
    with d Some i None old init(1) show ?thesis by (auto simp: dup_mm_def mm_duplicated_def)
  next
    case a: (Some b)
    with init obtain m where b: "b = mm" and m: "k_mms k1 = (k_mms k)(mm \<mapsto> m)" "mm_users m = 1"
      "mm_count m = 1" "mm_mmap m = []" "mm_map_count m = 0" "mm_owner m = Some tsk"
      and h1: "held (k_log k1) = (\<lambda>r. held (k_log k) r + (if r \<in> {R_pgd, R_mm_context, R_user_ns} then 1 else 0))"
      by auto
    have m1: "k_mms k1 mm = Some m" and o1: "k_mms k1 oldmm = Some old" using m mm old by simp_all
    obtain e k2 where dm: "dup_mmap K E mm oldmm k1 = (e, k2)" by (rule prod.exhaust)
    from dup_mmap_spec [OF ok mm(2) m1 o1 dm] obtain cs ds m2 where
      cs: "copies K E mm 0 (mm_mmap old) = cs @ ds" "e = None \<longrightarrow> ds = []" and c: "mmap_copied K mm m m2 cs k1 k2"
      by blast
    have "dup_mm_finish E cur mm e k2 = (r, k')" using d Some i a b dm old by (simp add: dup_mm_def)
    then show ?thesis
      by (rule dup_mm_finish_spec [rotated -1, where m = m2])
        (use c cs m h1 mm(1) Some mmless_dup_mmap [OF dm] init(1) in
          \<open>auto simp: mmap_copied_def mm_same_def\<close>)
  qed
qed

section \<open>Copying or sharing the address space at fork\<close>

definition mm_copied :: "kconst \<Rightarrow> mm_env \<Rightarrow> u64 \<Rightarrow> task_struct \<Rightarrow> addr \<Rightarrow> kernel \<Rightarrow> kret \<Rightarrow> task_struct \<Rightarrow> kernel \<Rightarrow> bool" where
  "mm_copied K E f cur p k r t' k' \<longleftrightarrow> mmless k' = mmless k \<and>
     (case r of
        Some e \<Rightarrow> k_mms k' = k_mms k \<and> (\<forall>r. r \<notin> vma_res \<longrightarrow> held (k_log k') r = held (k_log k) r)
      | None \<Rightarrow> (case ts_mm t' of
            None \<Rightarrow> ts_mm cur = None \<and> k' = k
          | Some a \<Rightarrow> if has f (CLONE_VM K) then ts_mm cur = Some a \<and> k_mms k' = k_mms (mmget a k) \<and>
                        held (k_log k') = held (k_log k)
                      else me_mm E = Some a \<and> (\<exists>m. mm_created a m k k' \<and> mm_owner m = Some p)))"

lemma copy_mm_spec:
  assumes "vm_bits_ok K" and "\<forall>a. me_mm E = Some a \<longrightarrow> a \<notin> dom (k_mms k)"
    and "\<forall>a. ts_mm cur = Some a \<longrightarrow> k_mms k a \<noteq> None"
    and "copy_mm K E f cur p t k = (r, t', k')"
  shows "mm_copied K E f cur p k r t' k'"
proof (cases "ts_mm cur")
  case None
  with assms(4) show ?thesis by (auto simp: copy_mm_def mm_copied_def)
next
  case (Some oldmm)
  let ?k = "klog [Call ''vmacache_flush''] k"
  from Some assms(3) obtain old where old: "k_mms k oldmm = Some old" by blast
  show ?thesis
  proof (cases "has f (CLONE_VM K)")
    case True
    with Some assms(4) have "r = None" "ts_mm t' = Some oldmm" "k' = mmget oldmm ?k"
      by (auto simp: copy_mm_def Let_def)
    with Some True show ?thesis by (simp add: mm_copied_def mmget_def fun_eq_iff)
  next
    case False
    obtain a k1 where d: "dup_mm K E cur p oldmm ?k = (a, k1)" by (rule prod.exhaust)
    have "\<forall>a. me_mm E = Some a \<longrightarrow> a \<notin> dom (k_mms ?k)" "k_mms ?k oldmm = Some old" using assms(2) old by simp_all
    from dup_mm_spec [OF assms(1) this d] have dup: "mm_duplicated K E p old ?k a k1" .
    have eq: "k' = k1 \<and> (case a of None \<Rightarrow> r \<noteq> None | Some mm \<Rightarrow> r = None \<and> ts_mm t' = Some mm)"
      using Some False assms(4) d by (cases a) (auto simp: copy_mm_def Let_def)
    show ?thesis
      using dup eq False by (cases a) (auto simp: mm_copied_def mm_duplicated_def mm_created_def)
  qed
qed

section \<open>Properties\<close>

definition demo_vma :: vm_area_struct where
  "demo_vma = \<lparr>va_addr = 300, va_start = 0x1000, va_end = 0x5000, va_flags = 0x102000, va_mm = Some 200,
     va_file = None, va_anon_vma = Some 400, va_open = False, va_hugetlb = False\<rparr>"

definition demo_mm :: mm_struct where
  "demo_mm = zero_mm\<lparr>mm_mmap := [demo_vma, demo_vma\<lparr>va_addr := 301, va_flags := 0x20000\<rparr>], mm_users := 1,
     mm_count := 1, mm_map_count := 2\<rparr>"

definition demo_mm_env :: mm_env where
  "demo_mm_env = \<lparr>me_mm = Some 201, me_pgd = Some 500, me_context = None, me_lock_fails = False, me_ksm = None,
     me_khugepaged = None,
     me_vma = (\<lambda>i. \<lparr>ve_fatal = False, ve_nomem = False, ve_new = Some (600 + i), ve_policy = None, ve_uffd = None,
       ve_anon_fails = False, ve_anon_vma = Some 401, ve_copy = None\<rparr>),
     me_arch_dup = None, me_deny_fails = False, me_stat_account = (\<lambda>c f n. c), me_get_rss = (\<lambda>m. 0),
     me_module = True, me_exit_rss = (\<lambda>_. 0), me_exit_pgtables = 0, me_init_mm = 1, me_default_dump_filter = 0\<rparr>"

definition demo_mm_kernel :: kernel where
  "demo_mm_kernel = zero_kernel\<lparr>k_mms := [200 \<mapsto> demo_mm]\<rparr>"

text \<open>A sequence of \<^verbatim>\<open>mmget\<close> and \<^verbatim>\<open>mmput\<close> calls.\<close>

fun mm_run :: "mm_env \<Rightarrow> task_struct \<Rightarrow> addr ref_op list \<Rightarrow> kernel \<Rightarrow> kernel" where
  "mm_run E cur [] k = k"
| "mm_run E cur (Get a # ops) k = mm_run E cur ops (mmget a k)"
| "mm_run E cur (Put a # ops) k = mm_run E cur ops (mmput E cur a k)"

lemma mm_run_eq: "mm_run E cur ops k = mmrc.run E cur ops k"
  by (induction E cur ops k rule: mm_run.induct) simp_all

lemma vm_bits_x86: "vm_bits_ok linux_x86"
  by (simp add: vm_bits_ok_def linux_x86_def)

lemma demo_mm_lookup:
  "k_mms demo_mm_kernel 200 = Some demo_mm" "\<forall>a. me_mm demo_mm_env = Some a \<longrightarrow> a \<notin> dom (k_mms demo_mm_kernel)"
  by (simp_all add: demo_mm_kernel_def demo_mm_env_def zero_kernel_def)

lemma demo_copies:
  "copies linux_x86 demo_mm_env a 0 (mm_mmap demo_mm) =
     [demo_vma\<lparr>va_addr := 600, va_mm := Some a, va_anon_vma := Some 401, va_flags := 0x100000\<rparr>]"
  by (simp add: demo_mm_def demo_vma_def demo_mm_env_def linux_x86_def has_def copy_vma_def)

text \<open>
  C29: \<^verbatim>\<open>dup_mmap\<close> copies mappings in order and all or nothing per mapping. Whatever it returns, the child's
  list is an initial part of the copies of the parent's mappings without \<^verbatim>\<open>VM_DONTCOPY\<close> (all of them when
  it returns 0), \<^verbatim>\<open>map_count\<close> grows by that number, exactly as many VMA objects and policy references are
  held as there are mappings on the list, the pages accounted are those of the accountable mappings on
  the list, both mmap locks and the uprobe section are released, and the parent is unchanged.
\<close>

theorem dup_mmap_accounting:
  assumes "vm_bits_ok K" and "mm \<noteq> oldmm" and "k_mms k mm = Some m" and "mm_mmap m = []"
    and "k_mms k oldmm = Some old" and "dup_mmap K E mm oldmm k = (r, k')"
  shows "\<exists>m' ds. k_mms k' = (k_mms k)(mm \<mapsto> m') \<and>
    copies K E mm 0 (mm_mmap old) = mm_mmap m' @ ds \<and> (r = None \<longrightarrow> ds = []) \<and>
    mm_map_count m' = mm_map_count m + int (length (mm_mmap m')) \<and>
    held (k_log k') R_vma = held (k_log k) R_vma + int (length (mm_mmap m')) \<and>
    held (k_log k') R_vma_policy = held (k_log k) R_vma_policy + int (length (mm_mmap m')) \<and>
    acct_sum (k_log k') = acct_sum (k_log k) + sum_list (map (acct_pages K) (mm_mmap m')) \<and>
    held (k_log k') R_mmap_lock = held (k_log k) R_mmap_lock \<and> held (k_log k') R_uprobe = held (k_log k) R_uprobe"
proof -
  from dup_mmap_spec [OF assms(1-3,5,6)] obtain cs ds m' where
    "copies K E mm 0 (mm_mmap old) = cs @ ds" "r = None \<longrightarrow> ds = []" "mmap_copied K mm m m' cs k k'"
    by blast
  with assms(4) show ?thesis
    by (intro exI [of _ m'] exI [of _ ds]) (simp add: mmap_copied_def)
qed

theorem dup_mmap_accounting_witness:
  "\<exists>r k' m'. dup_mmap linux_x86 demo_mm_env 201 200 (demo_mm_kernel\<lparr>k_mms := (k_mms demo_mm_kernel)(201 \<mapsto> zero_mm)\<rparr>) = (r, k') \<and>
     k_mms k' 201 = Some m' \<and> mm_map_count m' = int (length (mm_mmap m'))"
proof -
  let ?k = "demo_mm_kernel\<lparr>k_mms := (k_mms demo_mm_kernel)(201 \<mapsto> zero_mm)\<rparr>"
  obtain r k' where d: "dup_mmap linux_x86 demo_mm_env 201 200 ?k = (r, k')" by (rule prod.exhaust)
  have "k_mms ?k 201 = Some zero_mm" "k_mms ?k 200 = Some demo_mm" "mm_mmap zero_mm = []" "mm_map_count zero_mm = 0"
    by (simp_all add: demo_mm_lookup zero_mm_def)
  from dup_mmap_accounting [OF vm_bits_x86 _ this(1,3,2) d] this(4) d show ?thesis by auto
qed


lemma demo_dup_mm: "fst (dup_mm linux_x86 demo_mm_env zero_task 9 200 demo_mm_kernel) = Some 201"
  by (simp add: dup_mm_def mm_init_def mm_alloc_pgd_def dup_mmap_def dup_mmap_out_def dup_mm_exe_file_def
      get_mm_exe_file_def dup_mm_finish_def demo_mm_kernel_def zero_kernel_def demo_mm_env_def mm_init_fields_def
      zero_task_def demo_mm_def zero_mm_def demo_vma_def linux_x86_def has_def dup_vma_def vm_area_dup_def
      dup_vma_link_def dup_vma_file_def vm_stat_account_def Let_def)




end
