(* ===== verification/Fork_Stack.thy ===== *)
theory Fork_Stack
  imports Kernel
begin

text \<open>
  Task structures and kernel stacks (\<^verbatim>\<open>kernel/fork.c\<close>): the per-CPU cache of two stacks, their memory
  cgroup charges and the \<^verbatim>\<open>NR_KERNEL_STACK_KB\<close> counter, \<^verbatim>\<open>dup_task_struct\<close> with its error labels, and
  the functions that give a stack and a task structure back. The configuration is the one with
  \<^verbatim>\<open>CONFIG_VMAP_STACK\<close>, \<^verbatim>\<open>CONFIG_THREAD_INFO_IN_TASK\<close> and \<^verbatim>\<open>CONFIG_MEMCG\<close>.

  What the allocator and the other subsystems answer is the record \<open>stack_env\<close>: the task structure
  of \<^verbatim>\<open>kmem_cache_alloc_node\<close>, the stack, its \<^verbatim>\<open>vm_struct\<close> and its pages of \<^verbatim>\<open>__vmalloc_node_range\<close>, the
  result of charging each page (\<open>se_junk\<close> is what the new task structure holds before it is
  filled), and the results of \<^verbatim>\<open>arch_dup_task_struct\<close> and \<^verbatim>\<open>scs_prepare\<close>.
\<close>

section \<open>Operations\<close>

record stack_env =
  se_task :: ptr
  se_junk :: task_struct
  se_vmalloc :: "(addr \<times> addr \<times> addr list) option"
  se_charge :: "addr \<Rightarrow> kret"
  se_arch_dup :: kret
  se_scs_prepare :: kret
  se_canary :: u64
  se_cpu :: nat

abbreviation (input) NR_CACHED_STACKS :: nat where "NR_CACHED_STACKS \<equiv> 2"

definition thread_pages :: "kconst \<Rightarrow> nat" where
  "thread_pages K = unat (THREAD_SIZE K) div 4096"

text \<open>\<^verbatim>\<open>kmem_cache_free\<close> and \<^verbatim>\<open>vfree\<close> of a stack: its \<^verbatim>\<open>vm_struct\<close> is gone afterwards.\<close>

definition vfree_stack :: "addr \<Rightarrow> kernel \<Rightarrow> kernel" where
  "vfree_stack vm k = klog [Rel R_stack] (k\<lparr>k_vms := (k_vms k)(vm := None)\<rparr>)"

fun free_vm_stack_cache_loop :: "ptr list \<Rightarrow> kernel \<Rightarrow> ptr list \<times> kernel" where
  "free_vm_stack_cache_loop [] k = ([], k)"
| "free_vm_stack_cache_loop (None # ss) k =
     (case free_vm_stack_cache_loop ss k of (ss', k') \<Rightarrow> (None # ss', k'))"
| "free_vm_stack_cache_loop (Some vm # ss) k =
     (case free_vm_stack_cache_loop ss (vfree_stack vm k) of (ss', k') \<Rightarrow> (None # ss', k'))"

definition free_vm_stack_cache :: "nat \<Rightarrow> kernel \<Rightarrow> kernel" where
  "free_vm_stack_cache cpu k =
     (case free_vm_stack_cache_loop (k_cached_stacks k cpu) k of (ss, k') \<Rightarrow>
        k'\<lparr>k_cached_stacks := (k_cached_stacks k')(cpu := ss)\<rparr>)"

text \<open>The loop of \<^verbatim>\<open>this_cpu_xchg(cached_stacks[i], NULL)\<close>: the first cached stack is taken out.\<close>

fun take_cached_stack :: "ptr list \<Rightarrow> ptr \<times> ptr list" where
  "take_cached_stack [] = (None, [])"
| "take_cached_stack (None # ss) = (case take_cached_stack ss of (r, ss') \<Rightarrow> (r, None # ss'))"
| "take_cached_stack (Some s # ss) = (Some s, None # ss)"

definition alloc_thread_stack_node ::
    "stack_env \<Rightarrow> task_struct \<Rightarrow> kernel \<Rightarrow> ptr \<times> task_struct \<times> kernel" where
  "alloc_thread_stack_node E tsk k =
     (case take_cached_stack (k_cached_stacks k (se_cpu E)) of
        (Some s, ss) \<Rightarrow>
          let a = vs_addr (deref (k_vms k) s);
              k = klog [Call ''kasan_unpoison_range'', Call ''memset'']
                    (k\<lparr>k_cached_stacks := (k_cached_stacks k)(se_cpu E := ss)\<rparr>)
          in (Some a, tsk\<lparr>ts_stack_vm_area := Some s, ts_stack := Some a\<rparr>, k)
      | (None, ss) \<Rightarrow>
          (case se_vmalloc E of
             None \<Rightarrow> (None, tsk, k)
           | Some (stack, vm, pages) \<Rightarrow>
               (Some stack, tsk\<lparr>ts_stack_vm_area := Some vm, ts_stack := Some stack\<rparr>,
                klog [Acq R_stack]
                  (k\<lparr>k_vms := (k_vms k)(vm \<mapsto> \<lparr>vs_addr = stack, vs_pages = pages\<rparr>)\<rparr>))))"

text \<open>The loop of \<^verbatim>\<open>this_cpu_cmpxchg(cached_stacks[i], NULL, vm)\<close>: the first empty slot, if any.\<close>

fun put_cached_stack :: "addr \<Rightarrow> ptr list \<Rightarrow> (ptr list) option" where
  "put_cached_stack vm [] = None"
| "put_cached_stack vm (None # ss) = Some (Some vm # ss)"
| "put_cached_stack vm (Some s # ss) = map_option ((#) (Some s)) (put_cached_stack vm ss)"

definition free_thread_stack :: "kconst \<Rightarrow> nat \<Rightarrow> task_struct \<Rightarrow> kernel \<Rightarrow> kernel" where
  "free_thread_stack K cpu tsk k =
     (case ts_stack_vm_area tsk of
        Some vm \<Rightarrow>
          let k = k\<lparr>k_charged := k_charged k -
                    set (take (thread_pages K) (vs_pages (deref (k_vms k) vm)))\<rparr>
          in (case put_cached_stack vm (k_cached_stacks k cpu) of
                Some ss \<Rightarrow> k\<lparr>k_cached_stacks := (k_cached_stacks k)(cpu := ss)\<rparr>
              | None \<Rightarrow> vfree_stack vm k)
      | None \<Rightarrow> klog [Call ''__free_pages''] k)"

definition account_kernel_stack :: "kconst \<Rightarrow> task_struct \<Rightarrow> int \<Rightarrow> kernel \<Rightarrow> kernel" where
  "account_kernel_stack K tsk acct k =
     (case ts_stack_vm_area tsk of
        Some vm \<Rightarrow>
          k\<lparr>k_stack_kb := k_stack_kb k +
             (\<Sum>i\<leftarrow>[0..<thread_pages K]. acct * (4096 div 1024))\<rparr>
      | None \<Rightarrow> k\<lparr>k_stack_kb := k_stack_kb k + acct * (uint (THREAD_SIZE K) div 1024)\<rparr>)"

fun memcg_charge_pages :: "(addr \<Rightarrow> kret) \<Rightarrow> addr list \<Rightarrow> addr set \<Rightarrow> kret \<times> addr set" where
  "memcg_charge_pages charge [] c = (None, c)"
| "memcg_charge_pages charge (pg # pgs) c =
     (case charge pg of
        Some e \<Rightarrow> (Some e, c)
      | None \<Rightarrow> memcg_charge_pages charge pgs (insert pg c))"

definition memcg_charge_kernel_stack :: "kconst \<Rightarrow> stack_env \<Rightarrow> task_struct \<Rightarrow> kernel \<Rightarrow> kret \<times> kernel" where
  "memcg_charge_kernel_stack K E tsk k =
     (case ts_stack_vm_area tsk of
        Some vm \<Rightarrow>
          let pages = vs_pages (deref (k_vms k) vm);
              k = (if length pages \<noteq> thread_pages K then klog [Bug] k else k)
          in (case memcg_charge_pages (se_charge E) (take (thread_pages K) pages) (k_charged k) of
                (ret, c) \<Rightarrow> (ret, k\<lparr>k_charged := c\<rparr>))
      | None \<Rightarrow> (None, k))"

definition release_task_stack :: "kconst \<Rightarrow> nat \<Rightarrow> task_struct \<Rightarrow> kernel \<Rightarrow> task_struct \<times> kernel" where
  "release_task_stack K cpu tsk k =
     (if ts_state tsk \<noteq> TASK_DEAD then (tsk, klog [Warn] k)
      else (tsk\<lparr>ts_stack := None, ts_stack_vm_area := None\<rparr>,
            free_thread_stack K cpu tsk (account_kernel_stack K tsk (-1) k)))"

definition put_task_stack :: "kconst \<Rightarrow> nat \<Rightarrow> task_struct \<Rightarrow> kernel \<Rightarrow> task_struct \<times> kernel" where
  "put_task_stack K cpu tsk k =
     (let tsk = tsk\<lparr>ts_stack_refcount := ts_stack_refcount tsk - 1\<rparr>
      in if ts_stack_refcount tsk = 0 then release_task_stack K cpu tsk k else (tsk, k))"

definition free_task :: "task_struct \<Rightarrow> kernel \<Rightarrow> kernel" where
  "free_task tsk k =
     (let k = (if sc_filter (ts_seccomp tsk) \<noteq> None then klog [Warn] k else k);
          k = klog [Call ''release_user_cpus_ptr'', Call ''scs_release''] k;
          k = (if ts_stack_refcount tsk \<noteq> 0 then klog [Warn] k else k);
          k = klog [Call ''rt_mutex_debug_task_free'', Call ''ftrace_graph_exit_task'',
                    Call ''arch_release_task_struct''] k;
          k = (if ts_flags tsk AND PF_KTHREAD \<noteq> 0 then klog [Call ''free_kthread_struct''] k else k)
      in klog [Call ''bpf_task_storage_free'', Rel R_task] k)"

text \<open>
  With \<^verbatim>\<open>CONFIG_MEMCG\<close> the free is deferred by \<^verbatim>\<open>call_rcu\<close> to \<^verbatim>\<open>__delayed_free_task\<close>, which calls
  \<^verbatim>\<open>free_task\<close>; the model runs the callback at once.
\<close>

definition delayed_free_task :: "task_struct \<Rightarrow> kernel \<Rightarrow> kernel" where
  "delayed_free_task tsk k = free_task tsk (klog [Call ''call_rcu''] k)"

text \<open>
  \<^verbatim>\<open>dup_task_struct\<close> with the labels \<^verbatim>\<open>free_stack\<close> and \<^verbatim>\<open>free_tsk\<close>. The fields set on the copy are in
  \<open>dup_task_fields\<close>: from the assignments after \<^verbatim>\<open>arch_dup_task_struct\<close> to the end.
\<close>

definition dup_task_fields :: "stack_env \<Rightarrow> task_struct \<Rightarrow> task_struct \<Rightarrow> task_struct" where
  "dup_task_fields E orig tsk =
     (let tsk = tsk\<lparr>ts_seccomp := (ts_seccomp tsk)\<lparr>sc_filter := None\<rparr>,
                    ts_syscall_work := ts_syscall_work tsk - {SW_SYSCALL_USER_DISPATCH},
                    ts_stack_canary := se_canary E\<rparr>;
          tsk = (if ts_cpus_ptr_own orig then tsk\<lparr>ts_cpus_ptr_own := True\<rparr> else tsk)
      in tsk\<lparr>ts_rcu_users := 2, ts_usage := 1, ts_btrace_seq := 0, ts_splice_pipe := None,
             ts_task_frag_page := None, ts_wake_q_next := None, ts_pf_io_worker := None,
             ts_throttle_queue := None, ts_use_memdelay := False, ts_active_memcg := None\<rparr>)"

definition dup_task_free_tsk :: "kernel \<Rightarrow> (addr \<times> task_struct) option \<times> kernel" where
  "dup_task_free_tsk k = (None, klog [Rel R_task] k)"

definition dup_task_free_stack ::
    "kconst \<Rightarrow> stack_env \<Rightarrow> task_struct \<Rightarrow> kernel \<Rightarrow> (addr \<times> task_struct) option \<times> kernel" where
  "dup_task_free_stack K E tsk k = dup_task_free_tsk (free_thread_stack K (se_cpu E) tsk k)"

definition dup_task_struct ::
    "kconst \<Rightarrow> stack_env \<Rightarrow> task_struct \<Rightarrow> kernel \<Rightarrow> (addr \<times> task_struct) option \<times> kernel" where
  "dup_task_struct K E orig k =
     (case se_task E of
        None \<Rightarrow> (None, k)
      | Some p \<Rightarrow>
          (case alloc_thread_stack_node E (se_junk E) (klog [Acq R_task] k) of
             (None, tsk, k) \<Rightarrow> dup_task_free_tsk k
           | (Some stack, tsk, k) \<Rightarrow>
               (case memcg_charge_kernel_stack K E tsk k of
                  (Some e, k) \<Rightarrow> dup_task_free_stack K E tsk k
                | (None, k) \<Rightarrow>
                    (let stack_vm_area = ts_stack_vm_area tsk;
                         tsk = orig\<lparr>ts_stack := Some stack, ts_stack_vm_area := stack_vm_area,
                                    ts_stack_refcount := 1\<rparr>
                     in if se_arch_dup E \<noteq> None \<or> se_scs_prepare E \<noteq> None
                        then dup_task_free_stack K E tsk k
                        else (let tsk = dup_task_fields E orig tsk;
                                  k = klog [Call ''setup_thread_stack'', Call ''clear_user_return_notifier'',
                                            Call ''clear_tsk_need_resched'', Call ''set_task_stack_end_magic'',
                                            Call ''dup_user_cpus_ptr''] k;
                                  k = account_kernel_stack K tsk 1 k
                              in (Some (p, tsk), klog [Call ''kcov_task_init'', Call ''kmap_local_fork''] k))))))"

section \<open>Stack ownership\<close>

text \<open>
  A stack (a \<^verbatim>\<open>vm_struct\<close>) is either cached on one CPU or live, that is, owned by a task. The
  invariant says that no stack is cached twice, that cached stacks exist and have all their pages,
  and that the pages of a cached stack are charged to nobody.
\<close>

definition slots :: "ptr list \<Rightarrow> addr list" where
  "slots l = map the (filter (\<lambda>x. x \<noteq> None) l)"

definition cached :: "kernel \<Rightarrow> addr set" where
  "cached k = (\<Union>cpu. set (slots (k_cached_stacks k cpu)))"

definition live_stacks :: "kernel \<Rightarrow> addr set" where
  "live_stacks k = dom (k_vms k) - cached k"

definition slots_ok :: "(nat \<Rightarrow> ptr list) \<Rightarrow> bool" where
  "slots_ok f \<longleftrightarrow> (\<forall>c. distinct (slots (f c))) \<and>
     (\<forall>c d. c \<noteq> d \<longrightarrow> set (slots (f c)) \<inter> set (slots (f d)) = {})"

definition pages_ok :: "kconst \<Rightarrow> (addr \<rightharpoonup> vm_struct) \<Rightarrow> bool" where
  "pages_ok K vms \<longleftrightarrow> (\<forall>vm v. vms vm = Some v \<longrightarrow> length (vs_pages v) = thread_pages K) \<and>
     (\<forall>vm vm' v v'. vms vm = Some v \<longrightarrow> vms vm' = Some v' \<longrightarrow> vm \<noteq> vm' \<longrightarrow>
        set (vs_pages v) \<inter> set (vs_pages v') = {})"

definition stack_inv :: "kconst \<Rightarrow> kernel \<Rightarrow> bool" where
  "stack_inv K k \<longleftrightarrow> slots_ok (k_cached_stacks k) \<and> pages_ok K (k_vms k) \<and>
     (\<forall>vm \<in> cached k. \<exists>v. k_vms k vm = Some v \<and> set (vs_pages v) \<inter> k_charged k = {})"

text \<open>What the allocator promises: a stack that is not in use, with uncharged pages of its own.\<close>

definition stack_env_ok :: "kconst \<Rightarrow> stack_env \<Rightarrow> kernel \<Rightarrow> bool" where
  "stack_env_ok K E k \<longleftrightarrow> (\<forall>stack vm pages. se_vmalloc E = Some (stack, vm, pages) \<longrightarrow>
     vm \<notin> dom (k_vms k) \<and> length pages = thread_pages K \<and> set pages \<inter> k_charged k = {} \<and>
     (\<forall>w v. k_vms k w = Some v \<longrightarrow> set pages \<inter> set (vs_pages v) = {}))"

lemma stack_invI:
  assumes "slots_ok (k_cached_stacks k)" and "pages_ok K (k_vms k)"
    and "\<And>vm. vm \<in> cached k \<Longrightarrow> \<exists>v. k_vms k vm = Some v \<and> set (vs_pages v) \<inter> k_charged k = {}"
  shows "stack_inv K k"
  using assms by (simp add: stack_inv_def)

lemma pages_ok_delete: "pages_ok K vms \<Longrightarrow> pages_ok K (vms(vm := None))"
  unfolding pages_ok_def by (simp split: if_splits)

lemma pages_ok_insert:
  assumes "pages_ok K vms" and "length (vs_pages v) = thread_pages K"
    and "\<And>w u. vms w = Some u \<Longrightarrow> set (vs_pages v) \<inter> set (vs_pages u) = {}"
  shows "pages_ok K (vms(vm \<mapsto> v))"
  using assms unfolding pages_ok_def by (simp add: disjoint_iff) blast

lemma slots_simps [simp]:
  "slots [] = []" "slots (None # l) = slots l" "slots (Some s # l) = s # slots l"
  by (simp_all add: slots_def)

lemma take_cached_Some: "take_cached_stack l = (Some s, l') \<Longrightarrow> slots l = s # slots l'"
  by (induction l arbitrary: l' rule: take_cached_stack.induct) (auto split: prod.splits)

lemma take_cached_None: "take_cached_stack l = (None, l') \<Longrightarrow> slots l = []"
  by (induction l arbitrary: l' rule: take_cached_stack.induct) (auto split: prod.splits)

lemma put_cached_Some:
  "put_cached_stack vm l = Some l' \<Longrightarrow>
     set (slots l') = insert vm (set (slots l)) \<and>
     (distinct (slots l) \<longrightarrow> vm \<notin> set (slots l) \<longrightarrow> distinct (slots l'))"
  by (induction vm l arbitrary: l' rule: put_cached_stack.induct) auto

text \<open>Taking a stack out of the cache of a CPU and putting one in, seen on the whole cache.\<close>

lemma slots_ok_take:
  assumes "slots_ok f" and "slots (f c) = s # slots l"
  shows "slots_ok (f(c := l))"
    "(\<Union>d. set (slots ((f(c := l)) d))) = (\<Union>d. set (slots (f d))) - {s}"
proof -
  have s: "s \<notin> set (slots l)" "distinct (slots l)"
    using assms by (auto simp: slots_ok_def dest: spec [of _ c])
  have other: "s \<notin> set (slots (f d))" if "d \<noteq> c" for d
    using assms that unfolding slots_ok_def by (metis disjoint_iff list.set_intros(1))
  have sub: "set (slots l) \<subseteq> set (slots (f c))" using assms(2) by auto
  show "slots_ok (f(c := l))"
    using assms(1) s sub by (auto simp: slots_ok_def) blast+
  show "(\<Union>d. set (slots ((f(c := l)) d))) = (\<Union>d. set (slots (f d))) - {s}"
    using s other assms(2) by (auto split: if_splits) (metis set_ConsD)+
qed

lemma slots_ok_put:
  assumes "slots_ok f" and "put_cached_stack s (f c) = Some l" and "\<And>d. s \<notin> set (slots (f d))"
  shows "slots_ok (f(c := l))"
    "(\<Union>d. set (slots ((f(c := l)) d))) = insert s (\<Union>d. set (slots (f d)))"
proof -
  note p = put_cached_Some [OF assms(2)]
  show "slots_ok (f(c := l))"
    using assms(1,3) p by (auto simp: slots_ok_def)
  show "(\<Union>d. set (slots ((f(c := l)) d))) = insert s (\<Union>d. set (slots (f d)))"
    using p by (auto split: if_splits)
qed

text \<open>
  The stack part of the state, and the two changes to it: a stack leaves the cache or the
  allocator and becomes live (\<open>stack_taken\<close>), or the other way round (\<open>stack_given\<close>).
\<close>

definition stack_taken :: "kconst \<Rightarrow> addr \<Rightarrow> addr \<Rightarrow> kernel \<Rightarrow> kernel \<Rightarrow> bool" where
  "stack_taken K vm stack k k' \<longleftrightarrow> stack_inv K k' \<and> vm \<notin> live_stacks k \<and>
     live_stacks k' = insert vm (live_stacks k) \<and> k_charged k' = k_charged k \<and>
     k_stack_kb k' = k_stack_kb k \<and>
     (\<exists>v. k_vms k' vm = Some v \<and> vs_addr v = stack \<and> set (vs_pages v) \<inter> k_charged k = {})"

lemma stack_inv_cong:
  "k_vms k' = k_vms k \<Longrightarrow> k_cached_stacks k' = k_cached_stacks k \<Longrightarrow> k_charged k' = k_charged k \<Longrightarrow>
     stack_inv K k' = stack_inv K k \<and> live_stacks k' = live_stacks k \<and> cached k' = cached k"
  by (simp add: stack_inv_def live_stacks_def cached_def)

lemma stack_klog [simp]:
  "stack_inv K (klog es k) = stack_inv K k" "live_stacks (klog es k) = live_stacks k"
  "cached (klog es k) = cached k"
  using stack_inv_cong [of "klog es k" k] by auto

lemma stack_kb_upd [simp]:
  "stack_inv K (k\<lparr>k_stack_kb := n\<rparr>) = stack_inv K k"
  "live_stacks (k\<lparr>k_stack_kb := n\<rparr>) = live_stacks k" "cached (k\<lparr>k_stack_kb := n\<rparr>) = cached k"
  using stack_inv_cong [of "k\<lparr>k_stack_kb := n\<rparr>" k] by auto

lemma alloc_stack_spec:
  assumes inv: "stack_inv K k" and env: "stack_env_ok K E k"
    and a: "alloc_thread_stack_node E tsk k = (Some stack, tsk', k')"
  obtains vm where "ts_stack_vm_area tsk' = Some vm" "stack_taken K vm stack k k'"
    "\<exists>es. k_log k' = es @ k_log k \<and> (\<forall>r. r \<noteq> R_stack \<longrightarrow> held es r = 0)"
proof (cases "take_cached_stack (k_cached_stacks k (se_cpu E))")
  case (Pair r ss)
  show ?thesis
  proof (cases r)
    case (Some s)
    note sl = take_cached_Some [OF Pair [unfolded Some]]
    note ok = inv [unfolded stack_inv_def]
    note st = slots_ok_take [OF conjunct1 [OF ok] sl]
    have sc: "s \<in> cached k" unfolding cached_def using sl by (metis UN_iff UNIV_I list.set_intros(1))
    with ok obtain v where v: "k_vms k s = Some v" "set (vs_pages v) \<inter> k_charged k = {}" by blast
    have k': "k' = klog [Call ''kasan_unpoison_range'', Call ''memset'']
        (k\<lparr>k_cached_stacks := (k_cached_stacks k)(se_cpu E := ss)\<rparr>)"
      "ts_stack_vm_area tsk' = Some s" "stack = vs_addr v"
      using a by (auto simp: alloc_thread_stack_node_def Pair Some v Let_def)
    have c: "cached k' = cached k - {s}" using st(2) by (simp add: k' cached_def)
    have "stack_inv K k'"
      by (rule stack_invI) (use ok st(1) c in \<open>auto simp: k'\<close>)
    then have "stack_taken K s stack k k'"
      using sc v c by (auto simp: stack_taken_def live_stacks_def k')
    then show ?thesis using that [of s] k'(2) by (simp add: k')
  next
    case None
    with a obtain vm pages where e: "se_vmalloc E = Some (stack, vm, pages)"
      by (auto simp: alloc_thread_stack_node_def Pair split: option.splits)
    with a Pair None have k': "k' = klog [Acq R_stack]
        (k\<lparr>k_vms := (k_vms k)(vm \<mapsto> \<lparr>vs_addr = stack, vs_pages = pages\<rparr>)\<rparr>)"
      "ts_stack_vm_area tsk' = Some vm"
      by (auto simp: alloc_thread_stack_node_def)
    have n: "vm \<notin> cached k" "vm \<notin> dom (k_vms k)"
      using inv env e by (auto simp: stack_inv_def stack_env_ok_def)
    have c: "cached k' = cached k" by (simp add: k' cached_def)
    have "stack_inv K k'"
    proof (rule stack_invI)
      show "pages_ok K (k_vms k')"
        unfolding k' using inv env e
        by (simp add: stack_inv_def stack_env_ok_def) (rule pages_ok_insert; simp)
    qed (use inv n c in \<open>auto simp: k' stack_inv_def\<close>)
    then have "stack_taken K vm stack k k'"
      using env e n c by (auto simp: stack_taken_def live_stacks_def k' stack_env_ok_def)
    then show ?thesis using that [of vm] k'(2) by (simp add: k')
  qed
qed

lemma memcg_charge_pages_spec:
  "memcg_charge_pages f pgs c = (r, c') \<Longrightarrow>
     c \<subseteq> c' \<and> c' \<subseteq> c \<union> set pgs \<and> (r = None \<longrightarrow> c' = c \<union> set pgs)"
  by (induction f pgs c arbitrary: c' rule: memcg_charge_pages.induct)
    (auto split: option.splits)

text \<open>Charging pages of a live stack, all or some of them, keeps the invariant.\<close>

lemma stack_inv_charge:
  assumes "stack_inv K k" and "k_vms k vm = Some v" and "vm \<in> live_stacks k"
    and "c \<subseteq> k_charged k \<union> set (vs_pages v)"
  shows "stack_inv K (k\<lparr>k_charged := c\<rparr>)" "live_stacks (k\<lparr>k_charged := c\<rparr>) = live_stacks k"
proof -
  have c: "cached (k\<lparr>k_charged := c\<rparr>) = cached k" by (simp add: cached_def)
  have "set (vs_pages w) \<inter> c = {}" if "u \<in> cached k" "k_vms k u = Some w" for u w
  proof -
    have "u \<noteq> vm" using assms(3) that by (auto simp: live_stacks_def)
    with assms(1,2) that have "set (vs_pages w) \<inter> set (vs_pages v) = {}"
      "set (vs_pages w) \<inter> k_charged k = {}"
      unfolding stack_inv_def pages_ok_def by (blast, fastforce)
    with assms(4) show ?thesis by blast
  qed
  then show "stack_inv K (k\<lparr>k_charged := c\<rparr>)"
    by (intro stack_invI) (use assms(1) in \<open>fastforce simp: stack_inv_def c\<close>)+
  show "live_stacks (k\<lparr>k_charged := c\<rparr>) = live_stacks k" by (simp add: live_stacks_def c)
qed

lemma free_stack_spec:
  assumes inv: "stack_inv K k" and vm: "ts_stack_vm_area tsk = Some vm" "k_vms k vm = Some v"
    "vm \<in> live_stacks k"
    and k'_def: "k' = free_thread_stack K cpu tsk k"
  shows "stack_inv K k'" "live_stacks k' = live_stacks k - {vm}"
    "k_charged k' = k_charged k - set (vs_pages v)" "k_stack_kb k' = k_stack_kb k"
    "\<exists>es. k_log k' = es @ k_log k \<and> (\<forall>r. r \<noteq> R_stack \<longrightarrow> held es r = 0)"
proof -
  have len: "take (thread_pages K) (vs_pages v) = vs_pages v"
    using inv vm by (simp add: stack_inv_def pages_ok_def)
  have nc: "vm \<notin> cached k" using vm by (simp add: live_stacks_def)
  then have nd: "vm \<notin> set (slots (k_cached_stacks k d))" for d by (auto simp: cached_def)
  let ?k = "k\<lparr>k_charged := k_charged k - set (vs_pages v)\<rparr>"
  have c: "cached ?k = cached k" by (simp add: cached_def)
  note i = inv [unfolded stack_inv_def]
  have *: "stack_inv K k' \<and> live_stacks k' = live_stacks k - {vm} \<and>
      k_charged k' = k_charged k - set (vs_pages v) \<and> k_stack_kb k' = k_stack_kb k \<and>
      (\<exists>es. k_log k' = es @ k_log k \<and> (\<forall>r. r \<noteq> R_stack \<longrightarrow> held es r = 0))"
  proof (cases "put_cached_stack vm (k_cached_stacks k cpu)")
    case None
    then have k': "k' = klog [Rel R_stack] (?k\<lparr>k_vms := (k_vms k)(vm := None)\<rparr>)"
      by (simp add: k'_def free_thread_stack_def vm len vfree_stack_def)
    have c': "cached k' = cached k" by (simp add: k' cached_def)
    have "stack_inv K k'"
    proof (rule stack_invI)
      fix u assume "u \<in> cached k'"
      then have "u \<in> cached k" "u \<noteq> vm" using c' nc by auto
      with i show "\<exists>w. k_vms k' u = Some w \<and> set (vs_pages w) \<inter> k_charged k' = {}"
        by (fastforce simp: k')
    qed (use i in \<open>simp_all add: k' pages_ok_delete\<close>)
    then show ?thesis unfolding live_stacks_def c' by (auto simp: k')
  next
    case (Some ss)
    then have k': "k' = ?k\<lparr>k_cached_stacks := (k_cached_stacks k)(cpu := ss)\<rparr>"
      by (simp add: k'_def free_thread_stack_def vm len)
    note sp = slots_ok_put [OF conjunct1 [OF i] Some nd]
    have c': "cached k' = insert vm (cached k)" using sp(2) by (simp add: k' cached_def)
    have "stack_inv K k'"
    proof (rule stack_invI)
      fix u assume "u \<in> cached k'"
      then have "u \<in> cached k \<or> u = vm" using c' by auto
      with i vm show "\<exists>w. k_vms k' u = Some w \<and> set (vs_pages w) \<inter> k_charged k' = {}"
        by (fastforce simp: k')
    qed (use i sp(1) in \<open>simp_all add: k'\<close>)
    then show ?thesis unfolding live_stacks_def c' by (auto simp: k')
  qed
  then show "stack_inv K k'" "live_stacks k' = live_stacks k - {vm}"
    "k_charged k' = k_charged k - set (vs_pages v)" "k_stack_kb k' = k_stack_kb k"
    "\<exists>es. k_log k' = es @ k_log k \<and> (\<forall>r. r \<noteq> R_stack \<longrightarrow> held es r = 0)"
    by blast+
qed

section \<open>Duplicating and releasing a task\<close>

text \<open>Everything but the stacks and the log; the functions of this theory leave it alone.\<close>

definition stackless :: "kernel \<Rightarrow> kernel" where
  "stackless k = k\<lparr>k_vms := Map.empty, k_cached_stacks := \<lambda>_. [], k_charged := {}, k_stack_kb := 0,
     k_log := []\<rparr>"

lemma stackless_simps [simp]:
  "stackless (klog es k) = stackless k" "stackless (k\<lparr>k_vms := a\<rparr>) = stackless k"
  "stackless (k\<lparr>k_cached_stacks := b\<rparr>) = stackless k" "stackless (k\<lparr>k_charged := c\<rparr>) = stackless k"
  "stackless (k\<lparr>k_stack_kb := n\<rparr>) = stackless k"
  by (simp_all add: stackless_def klog_def)

lemma stackless_alloc: "alloc_thread_stack_node E t k = (r, t', k') \<Longrightarrow> stackless k' = stackless k"
  by (auto simp: alloc_thread_stack_node_def Let_def split: prod.splits option.splits)

lemma stackless_free [simp]: "stackless (free_thread_stack K cpu t k) = stackless k"
  by (simp add: free_thread_stack_def vfree_stack_def Let_def split: option.splits)

lemma stackless_charge: "memcg_charge_kernel_stack K E t k = (r, k') \<Longrightarrow> stackless k' = stackless k"
  by (auto simp: memcg_charge_kernel_stack_def Let_def split: option.splits prod.splits if_splits)

lemma stackless_account [simp]: "stackless (account_kernel_stack K t n k) = stackless k"
  by (simp add: account_kernel_stack_def split: option.splits)

lemma account_spec:
  "ts_stack_vm_area t = Some vm \<Longrightarrow>
     account_kernel_stack K t n k = k\<lparr>k_stack_kb := k_stack_kb k + n * 4 * int (thread_pages K)\<rparr>"
  by (simp add: account_kernel_stack_def sum_list_triv)

lemma dup_task_fields_sel [simp]:
  "ts_stack_vm_area (dup_task_fields E orig t) = ts_stack_vm_area t"
  "ts_stack (dup_task_fields E orig t) = ts_stack t"
  "ts_stack_refcount (dup_task_fields E orig t) = ts_stack_refcount t"
  "sc_filter (ts_seccomp (dup_task_fields E orig t)) = None"
  "ts_usage (dup_task_fields E orig t) = 1" "ts_rcu_users (dup_task_fields E orig t) = 2"
  "ts_flags (dup_task_fields E orig t) = ts_flags t"
  by (simp_all add: dup_task_fields_def Let_def)

lemma charge_spec:
  assumes "stack_inv K k" "ts_stack_vm_area t = Some vm" "k_vms k vm = Some v" "vm \<in> live_stacks k"
    and "memcg_charge_kernel_stack K E t k = (r, k')"
  shows "stack_inv K k'" "live_stacks k' = live_stacks k" "k_vms k' = k_vms k"
    "k_stack_kb k' = k_stack_kb k" "k_log k' = k_log k"
    "k_charged k \<subseteq> k_charged k'" "k_charged k' \<subseteq> k_charged k \<union> set (vs_pages v)"
    "r = None \<longrightarrow> k_charged k' = k_charged k \<union> set (vs_pages v)"
proof -
  have len: "length (vs_pages v) = thread_pages K"
    using assms(1,3) by (simp add: stack_inv_def pages_ok_def)
  obtain c where c: "memcg_charge_pages (se_charge E) (vs_pages v) (k_charged k) = (r, c)"
    and k': "k' = k\<lparr>k_charged := c\<rparr>"
    using assms(2,3,5) len by (auto simp: memcg_charge_kernel_stack_def split: prod.splits)
  note m = memcg_charge_pages_spec [OF c]
  show "stack_inv K k'" "live_stacks k' = live_stacks k"
    using stack_inv_charge [OF assms(1,3,4)] m by (simp_all add: k')
  show "k_vms k' = k_vms k" "k_stack_kb k' = k_stack_kb k" "k_log k' = k_log k"
    "k_charged k \<subseteq> k_charged k'" "k_charged k' \<subseteq> k_charged k \<union> set (vs_pages v)"
    "r = None \<longrightarrow> k_charged k' = k_charged k \<union> set (vs_pages v)"
    using m by (simp_all add: k')
qed

text \<open>The two results of \<^verbatim>\<open>dup_task_struct\<close>, as far as stacks go.\<close>

definition stack_restored :: "kconst \<Rightarrow> kernel \<Rightarrow> kernel \<Rightarrow> bool" where
  "stack_restored K k k' \<longleftrightarrow> stack_inv K k' \<and> stackless k' = stackless k \<and>
     live_stacks k' = live_stacks k \<and> k_charged k' = k_charged k \<and> k_stack_kb k' = k_stack_kb k"

definition stack_owned :: "kconst \<Rightarrow> task_struct \<Rightarrow> kernel \<Rightarrow> kernel \<Rightarrow> bool" where
  "stack_owned K t k k' \<longleftrightarrow> stack_inv K k' \<and> stackless k' = stackless k \<and> ts_stack_refcount t = 1 \<and>
     (\<exists>vm v. ts_stack_vm_area t = Some vm \<and> k_vms k' vm = Some v \<and> ts_stack t = Some (vs_addr v) \<and>
        vm \<notin> live_stacks k \<and> live_stacks k' = insert vm (live_stacks k) \<and>
        set (vs_pages v) \<inter> k_charged k = {} \<and> k_charged k' = k_charged k \<union> set (vs_pages v) \<and>
        k_stack_kb k' = k_stack_kb k + 4 * int (thread_pages K))"

text \<open>Only stacks may be acquired or released between the two logs.\<close>

definition log_stack_only :: "kernel \<Rightarrow> kernel \<Rightarrow> bool" where
  "log_stack_only k k' \<longleftrightarrow> (\<forall>r. r \<noteq> R_stack \<longrightarrow> held (k_log k') r = held (k_log k) r)"

lemma log_stack_onlyI:
  "\<exists>es. k_log k' = es @ k_log k \<and> (\<forall>r. r \<noteq> R_stack \<longrightarrow> held es r = 0) \<Longrightarrow> log_stack_only k k'"
  by (auto simp: log_stack_only_def held_append)

lemma free_after_charge:
  assumes "stack_inv K k" and "stack_taken K vm stack k k1" and "ts_stack_vm_area t = Some vm"
    and "memcg_charge_kernel_stack K E t k1 = (r, k2)" and "ts_stack_vm_area t' = Some vm"
    and "stackless k1 = stackless k"
  shows "stack_restored K k (free_thread_stack K cpu t' k2)"
    "log_stack_only k2 (free_thread_stack K cpu t' k2)"
proof -
  from assms(2) obtain v where v: "k_vms k1 vm = Some v" "set (vs_pages v) \<inter> k_charged k = {}"
    and t: "stack_inv K k1" "vm \<in> live_stacks k1" "vm \<notin> live_stacks k"
      "live_stacks k1 = insert vm (live_stacks k)" "k_charged k1 = k_charged k"
      "k_stack_kb k1 = k_stack_kb k"
    unfolding stack_taken_def by auto
  note c = charge_spec [OF t(1) assms(3) v(1) t(2) assms(4)]
  have v2: "k_vms k2 vm = Some v" "vm \<in> live_stacks k2" using c(2,3) v(1) t(2) by simp_all
  note f = free_stack_spec [OF c(1) assms(5) v2 refl, of cpu]
  have "k_charged k2 - set (vs_pages v) = k_charged k"
    using c(6,7) t(5) v(2) by blast
  then show "stack_restored K k (free_thread_stack K cpu t' k2)"
    using f c(2,4) t(3,4,6) stackless_charge [OF assms(4)] assms(6) by (simp add: stack_restored_def)
  show "log_stack_only k2 (free_thread_stack K cpu t' k2)"
    by (rule log_stack_onlyI [OF f(5)])
qed

lemma dup_task_struct_spec:
  assumes inv: "stack_inv K k" and env: "stack_env_ok K E k"
    and d: "dup_task_struct K E orig k = (r, k')"
  shows "case r of None \<Rightarrow> stack_restored K k k' \<and> log_stack_only k k'
    | Some (p, t) \<Rightarrow> se_task E = Some p \<and> stack_owned K t k k' \<and> log_stack_only (klog [Acq R_task] k) k'"
proof (cases "se_task E")
  case None
  with d inv show ?thesis by (auto simp: dup_task_struct_def stack_restored_def log_stack_only_def)
next
  case (Some p)
  let ?k = "klog [Acq R_task] k"
  obtain s t1 k1 where a: "alloc_thread_stack_node E (se_junk E) ?k = (s, t1, k1)" by (rule prod_cases3)
  note sl1 = stackless_alloc [OF a]
  show ?thesis
  proof (cases s)
    case None
    with a have "k1 = ?k" by (auto simp: alloc_thread_stack_node_def Let_def split: prod.splits option.splits)
    with d Some None a inv show ?thesis
      by (auto simp: dup_task_struct_def dup_task_free_tsk_def stack_restored_def log_stack_only_def)
  next
    case (Some stack)
    have "stack_inv K ?k" "stack_env_ok K E ?k" using inv env by (simp_all add: stack_env_ok_def)
    from alloc_stack_spec [OF this a [unfolded Some]] obtain vm where
      vm: "ts_stack_vm_area t1 = Some vm" "stack_taken K vm stack ?k k1" and l1: "log_stack_only ?k k1"
      using log_stack_onlyI by metis
    obtain c k2 where ch: "memcg_charge_kernel_stack K E t1 k1 = (c, k2)" by (rule prod.exhaust)
    note fr = free_after_charge [OF _ vm(2) vm(1) ch _ sl1]
    have l2: "k_log k2 = k_log k1"
      using charge_spec(5) [OF _ vm(1) _ _ ch] vm(2) by (auto simp: stack_taken_def)
    have fail: "stack_restored K k (klog [Rel R_task] (free_thread_stack K (se_cpu E) t k2)) \<and>
        log_stack_only k (klog [Rel R_task] (free_thread_stack K (se_cpu E) t k2))"
      if "ts_stack_vm_area t = Some vm" for t
      using fr [OF _ that, of "se_cpu E"] inv l1 l2 by (simp add: stack_restored_def log_stack_only_def)
    let ?t = "orig\<lparr>ts_stack := Some stack, ts_stack_vm_area := Some vm, ts_stack_refcount := 1\<rparr>"
    have ok: "stack_owned K (dup_task_fields E orig ?t) k
        (k2\<lparr>k_stack_kb := k_stack_kb k2 + 4 * int (thread_pages K)\<rparr>)" if "c = None"
    proof -
      from vm(2) obtain v where v: "k_vms k1 vm = Some v" "vm \<in> live_stacks k1" "vs_addr v = stack"
        and t: "stack_inv K k1" by (auto simp: stack_taken_def)
      note c = charge_spec [OF t vm(1) v(1,2) ch]
      show ?thesis
        using c that v vm(2) sl1 stackless_charge [OF ch]
        by (simp add: stack_owned_def stack_taken_def)
    qed
    show ?thesis
      using d \<open>se_task E = Some p\<close> a Some ch vm(1) fail ok l1 l2
      by (auto simp: dup_task_struct_def dup_task_free_stack_def dup_task_free_tsk_def Let_def
          account_spec log_stack_only_def stack_owned_def split: option.splits if_splits)
  qed
qed

lemma put_task_stack_spec:
  assumes own: "stack_owned K t k k1" and inv: "stack_inv K k"
    and t': "ts_stack_vm_area t' = ts_stack_vm_area t" "ts_stack_refcount t' = 1" "ts_state t' = TASK_DEAD"
    and k2: "stack_inv K k2" "live_stacks k2 = live_stacks k1" "k_vms k2 = k_vms k1"
      "k_charged k2 = k_charged k1" "k_stack_kb k2 = k_stack_kb k1"
    and p: "put_task_stack K cpu t' k2 = (t'', k')"
  shows "stack_inv K k'" "live_stacks k' = live_stacks k" "k_charged k' = k_charged k"
    "k_stack_kb k' = k_stack_kb k" "stackless k' = stackless k2" "log_stack_only k2 k'"
    "ts_stack t'' = None" "ts_stack_refcount t'' = 0" "ts_seccomp t'' = ts_seccomp t'"
    "ts_flags t'' = ts_flags t'"
proof -
  from own obtain vm v where v: "ts_stack_vm_area t = Some vm" "k_vms k1 vm = Some v"
    and o: "vm \<notin> live_stacks k" "live_stacks k1 = insert vm (live_stacks k)"
      "set (vs_pages v) \<inter> k_charged k = {}" "k_charged k1 = k_charged k \<union> set (vs_pages v)"
      "k_stack_kb k1 = k_stack_kb k + 4 * int (thread_pages K)"
    by (auto simp: stack_owned_def)
  let ?t = "t'\<lparr>ts_stack_refcount := 0\<rparr>" and
    ?k = "k2\<lparr>k_stack_kb := k_stack_kb k2 + (- 1) * 4 * int (thread_pages K)\<rparr>"
  have vm': "ts_stack_vm_area ?t = Some vm" using v t' by simp
  have eq: "t'' = ?t\<lparr>ts_stack := None, ts_stack_vm_area := None\<rparr>"
    "k' = free_thread_stack K cpu ?t ?k"
    using p t' account_spec [OF vm', of K "- 1" k2]
    by (simp_all add: put_task_stack_def release_task_stack_def Let_def)
  have kk: "stack_inv K ?k" "k_vms ?k vm = Some v" "vm \<in> live_stacks ?k" using k2 v o by simp_all
  note f = free_stack_spec [OF kk(1) vm' kk(2,3) eq(2)]
  show "stack_inv K k'" "live_stacks k' = live_stacks k" "k_charged k' = k_charged k"
    "k_stack_kb k' = k_stack_kb k"
    using f(1-4) k2 o by auto
  show "stackless k' = stackless k2" by (simp add: eq)
  show "log_stack_only k2 k'"
    using log_stack_onlyI [OF f(5)] by (simp add: log_stack_only_def)
  show "ts_stack t'' = None" "ts_stack_refcount t'' = 0" "ts_seccomp t'' = ts_seccomp t'"
    "ts_flags t'' = ts_flags t'" by (simp_all add: eq)
qed

section \<open>Properties\<close>

definition demo_stack_env :: stack_env where
  "demo_stack_env = \<lparr>se_task = Some 900, se_junk = zero_task, se_vmalloc = Some (5000, 70, [1, 2, 3, 4]),
     se_charge = \<lambda>_. None, se_arch_dup = None, se_scs_prepare = None, se_canary = 7, se_cpu = 0\<rparr>"

lemma thread_pages_x86: "thread_pages linux_x86 = 4"
  by (simp add: thread_pages_def linux_x86_def)

lemma demo_stack_env_ok: "stack_env_ok linux_x86 demo_stack_env zero_kernel"
  by (simp add: stack_env_ok_def demo_stack_env_def zero_kernel_def thread_pages_x86)

lemma zero_kernel_stack_inv: "stack_inv K zero_kernel"
  by (simp add: stack_inv_def slots_ok_def pages_ok_def cached_def zero_kernel_def)

lemma demo_dup:
  obtains t k' where "dup_task_struct linux_x86 demo_stack_env zero_task zero_kernel = (Some (900, t), k')"
  by (simp add: dup_task_struct_def alloc_thread_stack_node_def demo_stack_env_def zero_kernel_def
      memcg_charge_kernel_stack_def thread_pages_x86 Let_def numeral_2_eq_2)

text \<open>
  C11: \<^verbatim>\<open>dup_task_struct\<close> gives the new task a kernel stack that no other task owns and that is in no
  CPU's cache, with every page charged and counted; when it returns NULL, whichever step failed,
  the live stacks, the charges, the \<^verbatim>\<open>NR_KERNEL_STACK_KB\<close> counter and the task structures in use are
  those before the call. The hypotheses are the cache invariant and that \<^verbatim>\<open>vmalloc\<close> returns fresh memory.
\<close>

theorem dup_task_struct_stack:
  assumes "stack_inv K k" and "stack_env_ok K E k" and "dup_task_struct K E orig k = (r, k')"
  shows "stack_inv K k' \<and>
    (case r of
       None \<Rightarrow> live_stacks k' = live_stacks k \<and> k_charged k' = k_charged k \<and>
         k_stack_kb k' = k_stack_kb k \<and> held (k_log k') R_task = held (k_log k) R_task
     | Some (p, t) \<Rightarrow> held (k_log k') R_task = held (k_log k) R_task + 1 \<and>
         (\<exists>vm v. ts_stack_vm_area t = Some vm \<and> k_vms k' vm = Some v \<and> ts_stack t = Some (vs_addr v) \<and>
            vm \<notin> live_stacks k \<and> live_stacks k' = insert vm (live_stacks k) \<and>
            k_charged k' = k_charged k \<union> set (vs_pages v) \<and>
            k_stack_kb k' = k_stack_kb k + 4 * int (thread_pages K)))"
  using dup_task_struct_spec [OF assms]
  by (auto simp: stack_restored_def stack_owned_def log_stack_only_def split: option.splits)

theorem dup_task_struct_stack_witness:
  "\<exists>t k'. dup_task_struct linux_x86 demo_stack_env zero_task zero_kernel = (Some (900, t), k') \<and>
     live_stacks k' \<noteq> {} \<and> k_stack_kb k' = 16"
proof -
  obtain t k' where d: "dup_task_struct linux_x86 demo_stack_env zero_task zero_kernel = (Some (900, t), k')"
    by (rule demo_dup)
  from dup_task_struct_stack [OF zero_kernel_stack_inv demo_stack_env_ok this] d show ?thesis
    by (auto simp: thread_pages_x86 zero_kernel_def)
qed

text \<open>
  Giving a duplicated task back, as the error path of a fork does (mark it dead, drop the stack
  reference, free the structure), undoes \<^verbatim>\<open>dup_task_struct\<close>: live stacks, page charges, the stack
  counter and the number of task structures are restored, no warning is raised, and every other
  part of the kernel state is untouched.
\<close>

theorem dup_then_free_task:
  assumes "stack_inv K k" and "stack_env_ok K E k" and "dup_task_struct K E orig k = (Some (p, t), k1)"
    and "put_task_stack K cpu (t\<lparr>ts_state := TASK_DEAD\<rparr>) k1 = (t2, k2)" and "k3 = delayed_free_task t2 k2"
  shows "live_stacks k3 = live_stacks k \<and> k_charged k3 = k_charged k \<and> k_stack_kb k3 = k_stack_kb k \<and>
    held (k_log k3) R_task = held (k_log k) R_task \<and> stackless k3 = stackless k \<and>
    count_list (k_log k3) Warn = count_list (k_log k2) Warn"
proof -
  note d = dup_task_struct_spec [OF assms(1-3), simplified]
  have o: "stack_owned K t k k1" using d by blast
  note p = put_task_stack_spec [OF o assms(1) _ _ _ _ refl refl refl refl assms(4)]
  have f: "sc_filter (ts_seccomp t) = None" "ts_stack_refcount t = 1" "stack_inv K k1" "stackless k1 = stackless k"
    using assms(3) o by (auto simp: stack_owned_def dup_task_struct_def dup_task_free_tsk_def dup_task_free_stack_def
        Let_def split: option.splits prod.splits if_splits)
  note p' = p [simplified, OF f(2) f(3)]
  show ?thesis
    using p' d f unfolding assms(5)
    by (auto simp: delayed_free_task_def free_task_def Let_def log_stack_only_def stack_kb_upd)
qed

theorem dup_then_free_task_witness:
  "\<exists>t k1 t2 k2. dup_task_struct linux_x86 demo_stack_env zero_task zero_kernel = (Some (900, t), k1) \<and>
     put_task_stack linux_x86 3 (t\<lparr>ts_state := TASK_DEAD\<rparr>) k1 = (t2, k2) \<and>
     live_stacks (delayed_free_task t2 k2) = {} \<and> k_stack_kb (delayed_free_task t2 k2) = 0"
proof -
  obtain t k1 where d: "dup_task_struct linux_x86 demo_stack_env zero_task zero_kernel = (Some (900, t), k1)"
    by (rule demo_dup)
  obtain t2 k2 where p: "put_task_stack linux_x86 3 (t\<lparr>ts_state := TASK_DEAD\<rparr>) k1 = (t2, k2)"
    by (rule prod.exhaust)
  from dup_then_free_task [OF zero_kernel_stack_inv demo_stack_env_ok d p refl] d p show ?thesis
    by (auto simp: zero_kernel_def live_stacks_def)
qed

end
