(* ===== verification/Fork_Limits.thy ===== *)
theory Fork_Limits
  imports Kernel
begin

text \<open>
  The thread limit and the process counters of \<^verbatim>\<open>kernel/fork.c\<close>: \<^verbatim>\<open>nr_processes\<close>, \<^verbatim>\<open>set_max_threads\<close>,
  \<^verbatim>\<open>fork_init\<close>, \<^verbatim>\<open>coredump_filter_setup\<close> and \<^verbatim>\<open>sysctl_max_threads\<close>. The 64-bit arithmetic is that of
  the source; the theorems say that the multiplication never wraps and how much memory the threads
  the limit admits can take.
\<close>

section \<open>Operations\<close>

abbreviation (input) MIN_THREADS :: u64 where "MIN_THREADS \<equiv> 20"

abbreviation (input) MAX_THREADS :: "kconst \<Rightarrow> u64" where "MAX_THREADS K \<equiv> FUTEX_TID_MASK K"

text \<open>
  \<^verbatim>\<open>total += per_cpu(process_counts, cpu)\<close> adds an \<^verbatim>\<open>unsigned long\<close> to an \<^verbatim>\<open>int\<close>: the sum is computed
  in 64 bits and cut to 32. The argument lists the possible CPUs.
\<close>

fun nr_processes_loop :: "nat list \<Rightarrow> (nat \<Rightarrow> u64) \<Rightarrow> c_int \<Rightarrow> c_int" where
  "nr_processes_loop [] process_counts acc = acc"
| "nr_processes_loop (cpu # cpus) process_counts acc =
     nr_processes_loop cpus process_counts (ucast (scast acc + process_counts cpu :: u64))"

definition nr_processes :: "nat list \<Rightarrow> kernel \<Rightarrow> c_int" where
  "nr_processes possible_cpus k = nr_processes_loop possible_cpus (k_process_counts k) 0"

definition clamp_u64 :: "u64 \<Rightarrow> u64 \<Rightarrow> u64 \<Rightarrow> u64" where
  "clamp_u64 val lo hi = min (max val lo) hi"

definition set_max_threads :: "kconst \<Rightarrow> u64 \<Rightarrow> u32 \<Rightarrow> kernel \<Rightarrow> kernel" where
  "set_max_threads K nr_pages max_threads_suggested k =
     (let threads =
            (if fls64 nr_pages + fls64 PAGE_SIZE > 64 then MAX_THREADS K
             else (nr_pages * PAGE_SIZE) div (THREAD_SIZE K * 8));
          threads = (if threads > ucast max_threads_suggested then ucast max_threads_suggested
                     else threads)
      in k\<lparr>k_max_threads := sint (ucast (clamp_u64 threads MIN_THREADS (MAX_THREADS K)) :: c_int)\<rparr>)"

text \<open>
  \<^verbatim>\<open>proc_dointvec_minmax\<close> is a parameter: from the limits and the old value it gives its return
  value and the value it leaves in \<^verbatim>\<open>threads\<close>.
\<close>

definition sysctl_max_threads ::
    "kconst \<Rightarrow> (int \<Rightarrow> int \<Rightarrow> int \<Rightarrow> kret \<times> int) \<Rightarrow> bool \<Rightarrow> kernel \<Rightarrow> kret \<times> kernel" where
  "sysctl_max_threads K proc_dointvec_minmax write_access k =
     (case proc_dointvec_minmax 1 (uint (MAX_THREADS K)) (k_max_threads k) of (ret, threads) \<Rightarrow>
        if ret \<noteq> None \<or> \<not> write_access then (ret, k)
        else (None, k\<lparr>k_max_threads := threads\<rparr>))"

text \<open>
  \<^verbatim>\<open>fork_init\<close> sets the thread limit and derives the limits of the first task and of the initial
  user namespace from it. The indices of the limit tables come from headers outside the tree;
  \<^verbatim>\<open>set_rlimit_ucount_max\<close> is a parameter.
\<close>

record limit_index =
  RLIMIT_NPROC :: nat
  RLIMIT_SIGPENDING :: nat
  MAX_PER_NAMESPACE_UCOUNTS :: nat
  UCOUNT_RLIMIT_NPROC :: nat
  UCOUNT_RLIMIT_MSGQUEUE :: nat
  UCOUNT_RLIMIT_SIGPENDING :: nat
  UCOUNT_RLIMIT_MEMLOCK :: nat
  RLIM_INFINITY :: u64

fun init_ucounts :: "nat \<Rightarrow> u64 \<Rightarrow> (nat \<Rightarrow> u64) \<Rightarrow> nat \<Rightarrow> u64" where
  "init_ucounts 0 v u = u"
| "init_ucounts (Suc i) v u = (init_ucounts i v u)(i := v)"

definition fork_init ::
    "kconst \<Rightarrow> limit_index \<Rightarrow> u64 \<Rightarrow> (nat \<Rightarrow> u64 \<Rightarrow> (nat \<Rightarrow> u64) \<Rightarrow> nat \<Rightarrow> u64) \<Rightarrow> addr \<Rightarrow>
     (nat \<Rightarrow> u64) \<Rightarrow> kernel \<Rightarrow> (nat \<Rightarrow> u64) \<times> kernel" where
  "fork_init K L nr_pages set_rlimit_ucount_max init_signal ucount_max k =
     (let k = klog [Call ''task_struct_whitelist'', Call ''kmem_cache_create_usercopy'',
                    Call ''arch_task_cache_init''] k;
          k = set_max_threads K nr_pages (ucast (MAX_THREADS K)) k;
          half = word_of_int (k_max_threads k div 2);
          k = k\<lparr>k_signals := upd init_signal
                 (\<lambda>sig. sig\<lparr>sg_rlim := (sg_rlim sig)(RLIMIT_NPROC L := (half, half))\<rparr>)
                 (k_signals k)\<rparr>;
          k = k\<lparr>k_signals := upd init_signal
                 (\<lambda>sig. sig\<lparr>sg_rlim := (sg_rlim sig)
                    (RLIMIT_SIGPENDING L := sg_rlim sig (RLIMIT_NPROC L))\<rparr>)
                 (k_signals k)\<rparr>;
          u = init_ucounts (MAX_PER_NAMESPACE_UCOUNTS L) half ucount_max;
          u = set_rlimit_ucount_max (UCOUNT_RLIMIT_NPROC L) (RLIM_INFINITY L) u;
          u = set_rlimit_ucount_max (UCOUNT_RLIMIT_MSGQUEUE L) (RLIM_INFINITY L) u;
          u = set_rlimit_ucount_max (UCOUNT_RLIMIT_SIGPENDING L) (RLIM_INFINITY L) u;
          u = set_rlimit_ucount_max (UCOUNT_RLIMIT_MEMLOCK L) (RLIM_INFINITY L) u
      in (u, klog [Call ''cpuhp_setup_state'', Call ''scs_init'', Call ''lockdep_init_task'',
                   Call ''uprobes_init''] k))"

text \<open>The value \<^verbatim>\<open>simple_strtoul(s, NULL, 0)\<close> is the argument; the new \<^verbatim>\<open>default_dump_filter\<close> the result.\<close>

definition coredump_filter_setup :: "kconst \<Rightarrow> u64 \<Rightarrow> u64" where
  "coredump_filter_setup K v = push_bit (MMF_DUMP_FILTER_SHIFT K) v AND MMF_DUMP_FILTER_MASK K"

section \<open>Lemmas\<close>

lemma nr_processes_loop_sum:
  "nr_processes_loop cpus pc t = t + ucast (sum_list (map pc cpus))"
proof (induction cpus arbitrary: t)
  case Nil
  then show ?case by simp
next
  case (Cons c cs)
  then show ?case
    by (simp add: ucast_int_add ucast_scast_id add.assoc)
qed

lemma fls64_le_iff: "fls64 w \<le> n \<longleftrightarrow> unat w < 2 ^ n"
  by (simp add: fls64_def fls_nat_le_iff)

lemma fls64_page: "fls64 PAGE_SIZE = 13"
  by (simp add: fls64_def fls_nat_pos)

lemma pages_bytes_no_wrap:
  assumes "\<not> fls64 nr_pages + fls64 PAGE_SIZE > 64"
  shows "unat (nr_pages * PAGE_SIZE) = unat nr_pages * 4096"
proof -
  have "unat nr_pages < 2 ^ 51"
    using assms fls64_le_iff [of nr_pages 51] by (simp add: fls64_page)
  then show ?thesis by (simp add: unat_word_ariths)
qed

lemma pages_large:
  assumes "fls64 nr_pages + fls64 PAGE_SIZE > 64"
  shows "2 ^ 51 \<le> unat nr_pages"
  using assms fls64_le_iff [of nr_pages 51] by (simp add: fls64_page not_le not_less)

text \<open>What \<^verbatim>\<open>set_max_threads\<close> stores, as natural numbers, when the upper limit fits an \<^verbatim>\<open>int\<close>.\<close>

lemma unat_clamp: "unat (clamp_u64 v lo hi) = min (max (unat v) (unat lo)) (unat hi)"
  by (auto simp: clamp_u64_def min_def max_def word_le_nat_alt)

lemma k_max_threads_set:
  assumes "unat (MAX_THREADS K) < 2 ^ 31"
  shows "k_max_threads (set_max_threads K nr_pages s k) =
    int (min (max (min (if fls64 nr_pages + fls64 PAGE_SIZE > 64 then unat (MAX_THREADS K)
                        else unat nr_pages * 4096 div unat (THREAD_SIZE K * 8)) (unat s)) 20)
             (unat (MAX_THREADS K)))"
proof -
  have "unat (clamp_u64 v MIN_THREADS (MAX_THREADS K)) < 2 ^ 31" for v
    using assms by (simp add: unat_clamp)
  then show ?thesis
    by (simp add: set_max_threads_def Let_def sint_ucast_small unat_clamp pages_bytes_no_wrap
        unat_div min_def word_le_nat_alt word_less_nat_alt unat_ucast_u32)
qed

text \<open>
  Written through sysctl the limit stays in range when \<^verbatim>\<open>proc_dointvec_minmax\<close> does what it is
  documented to do, namely to store only values between its two limits.
\<close>

lemma sysctl_max_threads_range:
  assumes "\<And>lo hi old r v. pdm lo hi old = (r, v) \<Longrightarrow> r = None \<Longrightarrow> lo \<le> v \<and> v \<le> hi"
    and "1 \<le> k_max_threads k \<and> k_max_threads k \<le> uint (FUTEX_TID_MASK K)"
    and "sysctl_max_threads K pdm w k = (ret, k')"
  shows "1 \<le> k_max_threads k' \<and> k_max_threads k' \<le> uint (FUTEX_TID_MASK K)"
  using assms by (auto simp: sysctl_max_threads_def split: prod.splits if_splits)

section \<open>Properties\<close>

text \<open>
  \<^verbatim>\<open>set_max_threads\<close> leaves a limit between \<^verbatim>\<open>MIN_THREADS\<close> and \<^verbatim>\<open>MAX_THREADS\<close> that exceeds the
  suggested value only at the minimum, and, above that minimum, the kernel stacks of that many
  threads take at most one eighth of the memory: \<^verbatim>\<open>fls64\<close> keeps the multiplication from wrapping.
  The hypotheses are that \<^verbatim>\<open>FUTEX_TID_MASK\<close> lies between 20 and the largest \<^verbatim>\<open>int\<close> and that a thread
  stack is non-empty and at most 1 MiB.
\<close>

theorem set_max_threads_bounds:
  assumes "20 \<le> unat (FUTEX_TID_MASK K)" and "unat (FUTEX_TID_MASK K) < 2 ^ 31"
    and "0 < unat (THREAD_SIZE K)" and "unat (THREAD_SIZE K) \<le> 2 ^ 20"
  shows "let m = nat (k_max_threads (set_max_threads K nr_pages s k)) in
    20 \<le> m \<and> m \<le> unat (FUTEX_TID_MASK K) \<and> (m = 20 \<or> m \<le> unat s) \<and>
    (m = 20 \<or> m * (unat (THREAD_SIZE K) * 8) \<le> unat nr_pages * 4096)"
proof -
  let ?B = "unat nr_pages * 4096" and ?S = "unat (THREAD_SIZE K)" and ?F = "unat (FUTEX_TID_MASK K)"
  define m where "m = nat (k_max_threads (set_max_threads K nr_pages s k))"
  have S: "unat (THREAD_SIZE K * 8) = ?S * 8"
    using assms(4) by (simp add: unat_word_ariths)
  have m: "m = min (max (min (if fls64 nr_pages + fls64 PAGE_SIZE > 64 then ?F else ?B div (?S * 8))
                          (unat s)) 20) ?F"
    by (simp add: m_def k_max_threads_set [OF assms(2)] S)
  have le: "m = 20 \<or> m * (?S * 8) \<le> ?B"
  proof (cases "fls64 nr_pages + fls64 PAGE_SIZE > 64")
    case True
    have "m * (?S * 8) \<le> 2 ^ 31 * (2 ^ 20 * 8)"
      using assms(2,4) by (intro mult_mono) (auto simp: m)
    also have "\<dots> \<le> ?B" using pages_large [OF True] by simp
    finally show ?thesis ..
  next
    case False
    then have "m = 20 \<or> m \<le> ?B div (?S * 8)"
      using assms(1) by (auto simp: m)
    then show ?thesis
      using assms(3) by (auto simp: less_eq_div_iff_mult_less_eq)
  qed
  have "20 \<le> m \<and> m \<le> ?F \<and> (m = 20 \<or> m \<le> unat s)"
    using assms(1) by (auto simp: m)
  with le show ?thesis
    by (simp add: Let_def flip: m_def)
qed

theorem set_max_threads_bounds_witness:
  "\<forall>k. let m = nat (k_max_threads (set_max_threads linux_x86 0x100000 0xffffffff k)) in
    20 \<le> m \<and> m \<le> 0x3fffffff \<and> (m = 20 \<or> m * 0x20000 \<le> 0x100000000)"
  using set_max_threads_bounds [of linux_x86 "0x100000" "0xffffffff"]
  by (simp add: linux_x86_def Let_def)

text \<open>
  \<^verbatim>\<open>nr_processes\<close> is the sum of the per-CPU counters modulo 2^32, although each counter alone may
  have wrapped (a process counted on one CPU may be uncounted on another) and every addition is
  cut to an \<^verbatim>\<open>int\<close>: when the 64-bit sum of the counters is a number below 2^31, that number is returned.
\<close>

theorem nr_processes_sum:
  assumes "unat (sum_list (map (k_process_counts k) cpus)) < 2 ^ 31"
  shows "sint (nr_processes cpus k) = uint (sum_list (map (k_process_counts k) cpus))"
  using sint_ucast_small [OF assms] by (simp add: nr_processes_def nr_processes_loop_sum)

theorem nr_processes_sum_witness:
  "\<exists>k. k_process_counts k 3 = -2 \<and> sint (nr_processes [2, 3] k) = 5"
proof -
  define k :: kernel where "k = undefined\<lparr>k_process_counts := (\<lambda>_. 0)(2 := 7, 3 := -2)\<rparr>"
  have "sint (nr_processes [2, 3] k) = 5"
    using nr_processes_sum [of k "[2, 3]"] by (simp add: k_def)
  then show ?thesis by (intro exI [of _ k]) (simp add: k_def)
qed

end
