(* ===== verification/Fork_Copy.thy ===== *)
theory Fork_Copy
  imports Mm_Refs Fork_Stack Fork_Limits
begin

text \<open>
  The parts of a process that \<^verbatim>\<open>copy_process\<close> copies or shares one by one (\<^verbatim>\<open>kernel/fork.c\<close>): files, file
  system context, I/O context, signal handlers and signal structure, seccomp state; the release of the
  last reference to a task; and the completion that \<^verbatim>\<open>vfork\<close> waits for. A task under construction is
  passed as a value and returned updated; its address is \<open>p\<close>.

  What the other subsystems answer during one call of \<^verbatim>\<open>copy_process\<close> is the record \<open>cp_env\<close>. The
  functions \<^verbatim>\<open>exit_fs\<close>, \<^verbatim>\<open>exit_files\<close> and \<^verbatim>\<open>exit_io_context\<close> of other directories are fields of it, and
  \<open>exits_ok\<close> says what they are documented to do: drop the task's reference, and the object with the
  last one.
\<close>

section \<open>Answers of other subsystems\<close>

record cp_env =
  ce_stack :: stack_env
  ce_mm :: mm_env
  ce_active_pid_ns :: addr
  ce_node :: addr
  ce_sigpending :: bool
  ce_delayed :: "nat set"
  ce_creds :: kret
  ce_overlimit :: bool
  ce_init_user :: bool
  ce_cap_resource :: bool
  ce_cap_admin :: bool
  ce_mpol :: "errno + addr"
  ce_sched :: kret
  ce_perf :: kret
  ce_audit :: kret
  ce_security :: kret
  ce_semundo :: kret
  ce_dup_fd :: "errno + addr \<times> files_struct"
  ce_fs :: "(addr \<times> fs_struct) option"
  ce_sighand :: ptr
  ce_flush :: "(nat \<Rightarrow> sigaction) \<Rightarrow> nat \<Rightarrow> sigaction"
  ce_signal :: ptr
  ce_namespaces :: "errno + ptr"
  ce_ioprio_valid :: "nat \<Rightarrow> bool"
  ce_ioc :: "(addr \<times> io_context) option"
  ce_thread :: kret
  ce_pid :: "errno + addr"
  ce_pid_nr :: "addr \<Rightarrow> int"
  ce_fd :: "errno + int"
  ce_pidfile :: "errno + addr"
  ce_put_user :: kret
  ce_kv :: ptr
  ce_kv_junk :: kv_store
  ce_can_fork :: kret
  ce_start_time :: u64
  ce_start_boottime :: u64
  ce_ns_adding :: bool
  ce_fatal :: bool
  ce_pgrp :: ptr
  ce_session :: ptr
  ce_child_reaper :: bool
  ce_exit_fs :: "task_struct \<Rightarrow> kernel \<Rightarrow> kernel"
  ce_exit_files :: "task_struct \<Rightarrow> kernel \<Rightarrow> kernel"
  ce_exit_io :: "task_struct \<Rightarrow> kernel \<Rightarrow> kernel"

section \<open>Signal structures\<close>

definition zero_signal :: signal_struct where
  "zero_signal = \<lparr>sg_sigcnt = 0, sg_live = 0, sg_nr_threads = 0, sg_thread_head = [], sg_curr_target = None,
     sg_shared_pending = {}, sg_multiprocess = [], sg_rlim = \<lambda>_. (0, 0), sg_cpu_limit = 0,
     sg_oom_score_adj = 0, sg_oom_score_adj_min = 0, sg_oom_mm = None, sg_flags = 0, sg_pids = \<lambda>_. None,
     sg_tty = None, sg_has_child_subreaper = False, sg_is_child_subreaper = False\<rparr>"

definition set_signal :: "addr \<Rightarrow> (signal_struct \<Rightarrow> signal_struct) \<Rightarrow> kernel \<Rightarrow> kernel" where
  "set_signal a f k = k\<lparr>k_signals := upd a f (k_signals k)\<rparr>"

definition free_signal_struct :: "addr \<Rightarrow> kernel \<Rightarrow> kernel" where
  "free_signal_struct sig k =
     (let oom_mm = sg_oom_mm (deref (k_signals k) sig);
          k = klog [Call ''taskstats_tgid_free'', Call ''sched_autogroup_exit''] k;
          k = (case oom_mm of Some mm \<Rightarrow> mmdrop_async mm k | None \<Rightarrow> k)
      in k\<lparr>k_signals := (k_signals k)(sig := None)\<rparr>)"

definition put_signal_struct :: "addr \<Rightarrow> kernel \<Rightarrow> kernel" where
  "put_signal_struct sig k =
     (let k = set_signal sig (\<lambda>s. s\<lparr>sg_sigcnt := sg_sigcnt s - 1\<rparr>) k
      in if sg_sigcnt (deref (k_signals k) sig) = 0 then free_signal_struct sig k else k)"

text \<open>\<^verbatim>\<open>refcount_inc(&sig->sigcnt)\<close>.\<close>

definition get_signal_struct :: "addr \<Rightarrow> kernel \<Rightarrow> kernel" where
  "get_signal_struct sig k = set_signal sig (\<lambda>s. s\<lparr>sg_sigcnt := sg_sigcnt s + 1\<rparr>) k"

text \<open>
  The last reference to a task: \<open>cur\<close> is the address of the running task, \<open>handoff\<close> the answer of
  \<^verbatim>\<open>profile_handoff_task\<close>.
\<close>

definition put_task_struct_final :: "bool \<Rightarrow> addr \<Rightarrow> addr \<Rightarrow> task_struct \<Rightarrow> kernel \<Rightarrow> kernel" where
  "put_task_struct_final handoff cur p tsk k =
     (let k = (if ts_exit_state tsk = 0 then klog [Warn] k else k);
          k = (if ts_usage tsk \<noteq> 0 then klog [Warn] k else k);
          k = (if p = cur then klog [Warn] k else k);
          k = klog [Call ''io_uring_free'', Call ''cgroup_free'', Call ''task_numa_free'', Rel R_security,
                    Rel R_creds, Rel R_delayacct] k;
          k = (case ts_signal tsk of Some sig \<Rightarrow> put_signal_struct sig k | None \<Rightarrow> klog [Bug] k);
          k = klog [Rel R_sched_core] k
      in if handoff then k else free_task tsk k)"

section \<open>Waiting for a vfork child\<close>

text \<open>A completion is identified by its address; \<^verbatim>\<open>complete\<close> is logged.\<close>

definition complete_vfork_done :: "task_struct \<Rightarrow> kernel \<Rightarrow> task_struct \<times> kernel" where
  "complete_vfork_done tsk k =
     (let k = klog [Acq R_task_lock] k in
      case ts_vfork_done tsk of
        Some vfork \<Rightarrow> (tsk\<lparr>ts_vfork_done := None\<rparr>, klog [Call ''complete'', Rel R_task_lock] k)
      | None \<Rightarrow> (tsk, klog [Rel R_task_lock] k))"

text \<open>\<open>killed\<close> is the answer of \<^verbatim>\<open>wait_for_completion_killable\<close>.\<close>

definition wait_for_vfork_done :: "kret \<Rightarrow> task_struct \<Rightarrow> kernel \<Rightarrow> kret \<times> task_struct \<times> kernel" where
  "wait_for_vfork_done killed child k =
     (let k = klog [Call ''freezer_do_not_count'', Call ''cgroup_enter_frozen'', Call ''wait_for_completion_killable'',
                    Call ''cgroup_leave_frozen'', Call ''freezer_count''] k;
          (child, k) = (if killed \<noteq> None
             then (child\<lparr>ts_vfork_done := None\<rparr>, klog [Acq R_task_lock, Rel R_task_lock] k) else (child, k))
      in (killed, child\<lparr>ts_usage := ts_usage child - 1\<rparr>, k))"

definition mm_release :: "kconst \<Rightarrow> task_struct \<Rightarrow> addr \<Rightarrow> kernel \<Rightarrow> task_struct \<times> kernel" where
  "mm_release K tsk mm k =
     (let k = klog [Call ''uprobe_free_utask'', Call ''deactivate_mm''] k;
          (tsk, k) = (case ts_clear_child_tid tsk of
             None \<Rightarrow> (tsk, k)
           | Some tid \<Rightarrow>
               (let k = (if \<not> has (sg_flags (deref (k_signals k) (the (ts_signal tsk)))) (SIGNAL_GROUP_COREDUMP K) \<and>
                            1 < mm_users (the_mm k mm)
                         then klog [Call ''put_user'', Call ''do_futex''] k else k)
                in (tsk\<lparr>ts_clear_child_tid := None\<rparr>, k)))
      in if ts_vfork_done tsk \<noteq> None then complete_vfork_done tsk k else (tsk, k))"

definition exit_mm_release :: "kconst \<Rightarrow> task_struct \<Rightarrow> addr \<Rightarrow> kernel \<Rightarrow> task_struct \<times> kernel" where
  "exit_mm_release K tsk mm k = mm_release K tsk mm (klog [Call ''futex_exit_release''] k)"

definition exec_mm_release :: "kconst \<Rightarrow> task_struct \<Rightarrow> addr \<Rightarrow> kernel \<Rightarrow> task_struct \<times> kernel" where
  "exec_mm_release K tsk mm k = mm_release K tsk mm (klog [Call ''futex_exec_release''] k)"

section \<open>Copying or sharing\<close>

definition copy_fs :: "kconst \<Rightarrow> cp_env \<Rightarrow> u64 \<Rightarrow> task_struct \<Rightarrow> task_struct \<Rightarrow> kernel \<Rightarrow> kret \<times> task_struct \<times> kernel" where
  "copy_fs K E clone_flags cur tsk k =
     (let fs = the (ts_fs cur) in
      if has clone_flags (CLONE_FS K)
      then if fs_in_exec (deref (k_fss k) fs) then (Some EAGAIN, tsk, k)
           else (None, tsk, k\<lparr>k_fss := upd fs (\<lambda>f. f\<lparr>fs_users := fs_users f + 1\<rparr>) (k_fss k)\<rparr>)
      else case ce_fs E of
             None \<Rightarrow> (Some ENOMEM, tsk\<lparr>ts_fs := None\<rparr>, k)
           | Some (a, f) \<Rightarrow> (None, tsk\<lparr>ts_fs := Some a\<rparr>, k\<lparr>k_fss := (k_fss k)(a \<mapsto> f)\<rparr>))"

definition copy_files :: "kconst \<Rightarrow> cp_env \<Rightarrow> u64 \<Rightarrow> task_struct \<Rightarrow> task_struct \<Rightarrow> kernel \<Rightarrow> kret \<times> task_struct \<times> kernel" where
  "copy_files K E clone_flags cur tsk k =
     (case ts_files cur of
        None \<Rightarrow> (None, tsk, k)
      | Some oldf \<Rightarrow>
          if has clone_flags (CLONE_FILES K)
          then (None, tsk, k\<lparr>k_fds := upd oldf (\<lambda>f. f\<lparr>fl_count := fl_count f + 1\<rparr>) (k_fds k)\<rparr>)
          else case ce_dup_fd E of
                 Inl e \<Rightarrow> (Some e, tsk, k)
               | Inr (newf, f) \<Rightarrow> (None, tsk\<lparr>ts_files := Some newf\<rparr>, k\<lparr>k_fds := (k_fds k)(newf \<mapsto> f)\<rparr>))"

text \<open>
  \<^verbatim>\<open>get_task_io_context\<close> creates a context, attaches it to the task and returns it with one more
  reference, which \<^verbatim>\<open>put_io_context\<close> drops again; \<open>ioc_active_ref\<close> counts the tasks attached.
\<close>

definition copy_io :: "kconst \<Rightarrow> cp_env \<Rightarrow> u64 \<Rightarrow> task_struct \<Rightarrow> task_struct \<Rightarrow> kernel \<Rightarrow> kret \<times> task_struct \<times> kernel" where
  "copy_io K E clone_flags cur tsk k =
     (case ts_io_context cur of
        None \<Rightarrow> (None, tsk, k)
      | Some ioc \<Rightarrow>
          if has clone_flags (CLONE_IO K)
          then (None, tsk\<lparr>ts_io_context := Some ioc\<rparr>,
                k\<lparr>k_iocs := upd ioc (\<lambda>c. c\<lparr>ioc_active_ref := ioc_active_ref c + 1\<rparr>) (k_iocs k)\<rparr>)
          else if ce_ioprio_valid E (ioc_ioprio (deref (k_iocs k) ioc))
          then case ce_ioc E of
                 None \<Rightarrow> (Some ENOMEM, tsk, k)
               | Some (a, c) \<Rightarrow>
                   (None, tsk\<lparr>ts_io_context := Some a\<rparr>,
                    klog [Call ''put_io_context'']
                      (k\<lparr>k_iocs := (k_iocs k)(a \<mapsto> c\<lparr>ioc_ioprio := ioc_ioprio (deref (k_iocs k) ioc)\<rparr>)\<rparr>))
          else (None, tsk, k))"

definition get_sighand :: "addr \<Rightarrow> kernel \<Rightarrow> kernel" where
  "get_sighand a k = k\<lparr>k_sighands := upd a (\<lambda>s. s\<lparr>sh_count := sh_count s + 1\<rparr>) (k_sighands k)\<rparr>"

definition copy_sighand :: "kconst \<Rightarrow> cp_env \<Rightarrow> u64 \<Rightarrow> task_struct \<Rightarrow> task_struct \<Rightarrow> kernel \<Rightarrow> kret \<times> task_struct \<times> kernel" where
  "copy_sighand K E clone_flags cur tsk k =
     (let old = the (ts_sighand cur) in
      if has clone_flags (CLONE_SIGHAND K) then (None, tsk, get_sighand old k)
      else
        let sig = ce_sighand E; tsk = tsk\<lparr>ts_sighand := sig\<rparr>
        in case sig of
             None \<Rightarrow> (Some ENOMEM, tsk, k)
           | Some a \<Rightarrow>
               let action = sh_action (deref (k_sighands k) old);
                   k = klog [Acq R_siglock, Rel R_siglock] k;
                   action = (if has clone_flags (CLONE_CLEAR_SIGHAND K) then ce_flush E action else action)
               in (None, tsk, k\<lparr>k_sighands := (k_sighands k)(a \<mapsto> \<lparr>sh_count = 1, sh_action = action\<rparr>)\<rparr>))"

definition cleanup_sighand :: "addr \<Rightarrow> kernel \<Rightarrow> kernel" where
  "cleanup_sighand sighand k =
     (let k = k\<lparr>k_sighands := upd sighand (\<lambda>s. s\<lparr>sh_count := sh_count s - 1\<rparr>) (k_sighands k)\<rparr>
      in if sh_count (deref (k_sighands k) sighand) = 0
         then klog [Call ''signalfd_cleanup''] (k\<lparr>k_sighands := (k_sighands k)(sighand := None)\<rparr>)
         else k)"

text \<open>\<open>RLIMIT_CPU\<close> is index 0 of the limits.\<close>

definition posix_cpu_timers_init_group :: "signal_struct \<Rightarrow> signal_struct" where
  "posix_cpu_timers_init_group sig = sig\<lparr>sg_cpu_limit := fst (sg_rlim sig 0)\<rparr>"

definition copy_signal :: "kconst \<Rightarrow> cp_env \<Rightarrow> u64 \<Rightarrow> task_struct \<Rightarrow> addr \<Rightarrow> task_struct \<Rightarrow> kernel \<Rightarrow> kret \<times> task_struct \<times> kernel" where
  "copy_signal K E clone_flags cur p tsk k =
     (if has clone_flags (CLONE_THREAD K) then (None, tsk, k)
      else
        let tsk = tsk\<lparr>ts_signal := ce_signal E\<rparr>
        in case ce_signal E of
             None \<Rightarrow> (Some ENOMEM, tsk, k)
           | Some a \<Rightarrow>
               let sig = zero_signal\<lparr>sg_nr_threads := 1, sg_live := 1, sg_sigcnt := 1, sg_thread_head := [p],
                           sg_curr_target := Some p\<rparr>;
                   cursig = deref (k_signals k) (the (ts_signal cur));
                   k = klog [Acq R_task_lock, Rel R_task_lock, Call ''tty_audit_fork'', Call ''sched_autogroup_fork''] k;
                   sig = posix_cpu_timers_init_group (sig\<lparr>sg_rlim := sg_rlim cursig\<rparr>);
                   sig = sig\<lparr>sg_oom_score_adj := sg_oom_score_adj cursig,
                             sg_oom_score_adj_min := sg_oom_score_adj_min cursig\<rparr>
               in (None, tsk, k\<lparr>k_signals := (k_signals k)(a \<mapsto> sig)\<rparr>))"

definition task_no_new_privs :: "task_struct \<Rightarrow> bool" where
  "task_no_new_privs p = TASK_PFA_TEST PFA_NO_NEW_PRIVS p"

definition task_set_no_new_privs :: "task_struct \<Rightarrow> task_struct" where
  "task_set_no_new_privs p = TASK_PFA_SET PFA_NO_NEW_PRIVS p"

definition copy_seccomp :: "kconst \<Rightarrow> task_struct \<Rightarrow> task_struct \<Rightarrow> kernel \<Rightarrow> task_struct \<times> kernel" where
  "copy_seccomp K cur p k =
     (let k = klog [Acq R_seccomp_filter] k;
          p = p\<lparr>ts_seccomp := ts_seccomp cur\<rparr>;
          p = (if task_no_new_privs cur then task_set_no_new_privs p else p);
          p = (if sc_mode (ts_seccomp p) \<noteq> SECCOMP_MODE_DISABLED K
               then p\<lparr>ts_syscall_work := insert SW_SECCOMP (ts_syscall_work p)\<rparr> else p)
      in (p, k))"

definition set_tid_address :: "(task_struct \<Rightarrow> int) \<Rightarrow> ptr \<Rightarrow> task_struct \<Rightarrow> int \<times> task_struct" where
  "set_tid_address pid_vnr tidptr cur =
     (let cur = cur\<lparr>ts_clear_child_tid := tidptr\<rparr> in (pid_vnr cur, cur))"

definition rt_mutex_init_task :: "task_struct \<Rightarrow> task_struct" where
  "rt_mutex_init_task p = p\<lparr>ts_pi_waiters := [], ts_pi_top_task := None, ts_pi_blocked_on := None\<rparr>"

definition init_task_pid :: "task_struct \<Rightarrow> pid_type \<Rightarrow> ptr \<Rightarrow> kernel \<Rightarrow> task_struct \<times> kernel" where
  "init_task_pid task type pid k =
     (if type = PIDTYPE_PID then (task\<lparr>ts_thread_pid := pid\<rparr>, k)
      else (task, set_signal (the (ts_signal task)) (\<lambda>s. s\<lparr>sg_pids := (sg_pids s)(type := pid)\<rparr>) k))"

definition rcu_copy_process :: "task_struct \<Rightarrow> task_struct" where
  "rcu_copy_process p = p\<lparr>ts_rcu_read_lock_nesting := 0, ts_rcu_read_unlock_special := 0, ts_rcu_blocked_node := None,
     ts_rcu_tasks_holdout := False, ts_rcu_tasks_idle_cpu := -1, ts_trc_reader_nesting := 0,
     ts_trc_reader_special := 0\<rparr>"

definition copy_oom_score_adj :: "kconst \<Rightarrow> u64 \<Rightarrow> task_struct \<Rightarrow> task_struct \<Rightarrow> kernel \<Rightarrow> kernel" where
  "copy_oom_score_adj K clone_flags cur tsk k =
     (case ts_mm tsk of
        None \<Rightarrow> k
      | Some mm \<Rightarrow>
          if clone_flags AND (CLONE_VM K OR CLONE_THREAD K OR CLONE_VFORK K) \<noteq> CLONE_VM K then k
          else
            let cursig = deref (k_signals k) (the (ts_signal cur))
            in set_signal (the (ts_signal tsk)) (\<lambda>s. s\<lparr>sg_oom_score_adj := sg_oom_score_adj cursig,
                   sg_oom_score_adj_min := sg_oom_score_adj_min cursig\<rparr>)
                 (set_mm mm (\<lambda>m. m\<lparr>mm_flags := set_bit (MMF_MULTIPROCESS K) (mm_flags m)\<rparr>) k))"

section \<open>Reference counts\<close>

text \<open>Signal handler tables and signal structures follow the reference count contract.\<close>

definition sh_cnt :: "kernel \<Rightarrow> addr \<Rightarrow> int option" where
  "sh_cnt k a = map_option sh_count (k_sighands k a)"

interpretation shrc: refcounted sh_cnt get_sighand cleanup_sighand
  by unfold_locales (auto simp: sh_cnt_def get_sighand_def cleanup_sighand_def fun_eq_iff)

definition sg_cnt :: "kernel \<Rightarrow> addr \<Rightarrow> int option" where
  "sg_cnt k a = map_option sg_sigcnt (k_signals k a)"

lemma signals_mmdrop_async [simp]: "k_signals (mmdrop_async mm k) = k_signals k"
  by (simp add: mmdrop_async_def set_mm_def Let_def)

lemma signals_free [simp]: "k_signals (free_signal_struct a k) = (k_signals k)(a := None)"
  by (simp add: free_signal_struct_def Let_def split: option.splits)

interpretation sgrc: refcounted sg_cnt get_signal_struct put_signal_struct
  by unfold_locales (auto simp: sg_cnt_def get_signal_struct_def put_signal_struct_def set_signal_def fun_eq_iff Let_def)

section \<open>What each copy function does\<close>

text \<open>The documented behaviour of the three exit functions: drop the task's reference.\<close>

definition drop_fs :: "ptr \<Rightarrow> kernel \<Rightarrow> kernel" where
  "drop_fs p k = (case p of None \<Rightarrow> k | Some a \<Rightarrow>
     case k_fss k a of None \<Rightarrow> k | Some f \<Rightarrow>
       k\<lparr>k_fss := (k_fss k)(a := if fs_users f = 1 then None else Some (f\<lparr>fs_users := fs_users f - 1\<rparr>))\<rparr>)"

definition drop_files :: "ptr \<Rightarrow> kernel \<Rightarrow> kernel" where
  "drop_files p k = (case p of None \<Rightarrow> k | Some a \<Rightarrow>
     case k_fds k a of None \<Rightarrow> k | Some f \<Rightarrow>
       k\<lparr>k_fds := (k_fds k)(a := if fl_count f = 1 then None else Some (f\<lparr>fl_count := fl_count f - 1\<rparr>))\<rparr>)"

definition drop_ioc :: "ptr \<Rightarrow> kernel \<Rightarrow> kernel" where
  "drop_ioc p k = (case p of None \<Rightarrow> k | Some a \<Rightarrow>
     case k_iocs k a of None \<Rightarrow> k | Some c \<Rightarrow>
       k\<lparr>k_iocs := (k_iocs k)(a := if ioc_active_ref c = 1 then None else Some (c\<lparr>ioc_active_ref := ioc_active_ref c - 1\<rparr>))\<rparr>)"

definition exits_ok :: "cp_env \<Rightarrow> bool" where
  "exits_ok E \<longleftrightarrow> (\<forall>t k. ce_exit_fs E t k = drop_fs (ts_fs t) k) \<and>
     (\<forall>t k. ce_exit_files E t k = drop_files (ts_files t) k) \<and>
     (\<forall>t k. ce_exit_io E t k = drop_ioc (ts_io_context t) k)"

text \<open>
  The references of the running task are valid, and what the allocators return is fresh with one
  reference.
\<close>

definition fs_ok :: "cp_env \<Rightarrow> task_struct \<Rightarrow> (addr \<rightharpoonup> fs_struct) \<Rightarrow> bool" where
  "fs_ok E cur h \<longleftrightarrow> (\<exists>a f. ts_fs cur = Some a \<and> h a = Some f \<and> 0 < fs_users f) \<and>
     (\<forall>a f. ce_fs E = Some (a, f) \<longrightarrow> h a = None \<and> fs_users f = 1)"

definition files_ok :: "cp_env \<Rightarrow> task_struct \<Rightarrow> (addr \<rightharpoonup> files_struct) \<Rightarrow> bool" where
  "files_ok E cur h \<longleftrightarrow> (\<forall>a. ts_files cur = Some a \<longrightarrow> (\<exists>f. h a = Some f \<and> 0 < fl_count f)) \<and>
     (\<forall>a f. ce_dup_fd E = Inr (a, f) \<longrightarrow> h a = None \<and> fl_count f = 1)"

definition ioc_ok :: "cp_env \<Rightarrow> task_struct \<Rightarrow> (addr \<rightharpoonup> io_context) \<Rightarrow> bool" where
  "ioc_ok E cur h \<longleftrightarrow> (\<forall>a. ts_io_context cur = Some a \<longrightarrow> (\<exists>c. h a = Some c \<and> 0 < ioc_active_ref c)) \<and>
     (\<forall>a c. ce_ioc E = Some (a, c) \<longrightarrow> h a = None \<and> ioc_active_ref c = 1)"

definition sighand_ok :: "cp_env \<Rightarrow> task_struct \<Rightarrow> (addr \<rightharpoonup> sighand_struct) \<Rightarrow> bool" where
  "sighand_ok E cur h \<longleftrightarrow> (\<exists>a s. ts_sighand cur = Some a \<and> h a = Some s \<and> 0 < sh_count s) \<and>
     (\<forall>a. ce_sighand E = Some a \<longrightarrow> h a = None)"

definition signal_ok :: "cp_env \<Rightarrow> task_struct \<Rightarrow> (addr \<rightharpoonup> signal_struct) \<Rightarrow> bool" where
  "signal_ok E cur h \<longleftrightarrow> (\<exists>a s. ts_signal cur = Some a \<and> h a = Some s) \<and>
     (\<forall>a. ce_signal E = Some a \<longrightarrow> h a = None)"

lemma copy_fs_undo:
  assumes "fs_ok E cur (k_fss k)" and "ts_fs t = ts_fs cur" and "copy_fs K E f cur t k = (None, t', k')"
  shows "drop_fs (ts_fs t') k' = k"
  using assms by (auto simp: copy_fs_def fs_ok_def drop_fs_def Let_def fun_upd_idem split: if_splits option.splits)

lemma copy_files_undo:
  assumes ok: "files_ok E cur (k_fds k)" and t: "ts_files t = ts_files cur"
    and c: "copy_files K E f cur t k = (None, t', k')"
  shows "drop_files (ts_files t') k' = k"
proof (cases "ts_files cur")
  case None
  with t c show ?thesis by (simp add: copy_files_def drop_files_def)
next
  case (Some a)
  with ok obtain g where g: "k_fds k a = Some g" "0 < fl_count g" by (auto simp: files_ok_def)
  show ?thesis
  proof (cases "has f (CLONE_FILES K)")
    case True
    with Some t c g have "k' = k\<lparr>k_fds := (k_fds k)(a \<mapsto> g\<lparr>fl_count := fl_count g + 1\<rparr>)\<rparr>" "ts_files t' = Some a"
      by (auto simp: copy_files_def)
    with g show ?thesis by (simp add: drop_files_def fun_upd_idem)
  next
    case False
    with Some c obtain b h where b: "ce_dup_fd E = Inr (b, h)" "k' = k\<lparr>k_fds := (k_fds k)(b \<mapsto> h)\<rparr>"
      "ts_files t' = Some b" by (auto simp: copy_files_def split: sum.splits)
    with ok have "k_fds k b = None" "fl_count h = 1" by (auto simp: files_ok_def)
    with b show ?thesis by (simp add: drop_files_def fun_upd_idem)
  qed
qed

lemma copy_io_undo:
  assumes ok: "ioc_ok E cur (k_iocs k)" and t: "ts_io_context t = None"
    and c: "copy_io K E f cur t k = (None, t', k')"
  obtains es where "drop_ioc (ts_io_context t') k' = klog es k" "held (rev es) = (\<lambda>_. 0)"
proof (cases "ts_io_context cur")
  case None
  with t c show ?thesis by (intro that [of "[]"]) (simp_all add: copy_io_def drop_ioc_def fun_eq_iff)
next
  case (Some a)
  with ok obtain g where g: "k_iocs k a = Some g" "0 < ioc_active_ref g" by (auto simp: ioc_ok_def)
  consider "has f (CLONE_IO K)" | "\<not> has f (CLONE_IO K)" "ce_ioprio_valid E (ioc_ioprio g)"
    | "\<not> has f (CLONE_IO K)" "\<not> ce_ioprio_valid E (ioc_ioprio g)" by blast
  then show ?thesis
  proof cases
    case 1
    with Some t c g have "k' = k\<lparr>k_iocs := (k_iocs k)(a \<mapsto> g\<lparr>ioc_active_ref := ioc_active_ref g + 1\<rparr>)\<rparr>"
      "ts_io_context t' = Some a" by (auto simp: copy_io_def)
    with g show ?thesis by (intro that [of "[]"]) (simp_all add: drop_ioc_def fun_upd_idem fun_eq_iff)
  next
    case 2
    with Some c g obtain b h where b: "ce_ioc E = Some (b, h)" "ts_io_context t' = Some b"
      "k' = klog [Call ''put_io_context''] (k\<lparr>k_iocs := (k_iocs k)(b \<mapsto> h\<lparr>ioc_ioprio := ioc_ioprio g\<rparr>)\<rparr>)"
      by (auto simp: copy_io_def split: option.splits)
    with ok have "k_iocs k b = None" "ioc_active_ref h = 1" by (auto simp: ioc_ok_def)
    with b show ?thesis
      by (intro that [of "[Call ''put_io_context'']"]) (simp_all add: drop_ioc_def fun_upd_idem klog_def fun_eq_iff)
  next
    case 3
    with Some t c g show ?thesis by (intro that [of "[]"]) (simp_all add: copy_io_def drop_ioc_def fun_eq_iff)
  qed
qed

lemma copy_fails:
  "copy_fs K E f cur t k = (Some e, t', k') \<Longrightarrow> k' = k"
  "copy_files K E f cur t k = (Some e, t', k') \<Longrightarrow> k' = k \<and> t' = t"
  "copy_io K E f cur t k = (Some e, t', k') \<Longrightarrow> k' = k \<and> t' = t"
  "copy_sighand K E f cur t k = (Some e, t', k') \<Longrightarrow> k' = k"
  "copy_signal K E f cur p t k = (Some e, t', k') \<Longrightarrow> k' = k"
  by (auto simp: copy_fs_def copy_files_def copy_io_def copy_sighand_def copy_signal_def Let_def
      split: if_splits option.splits sum.splits)

lemma copy_sighand_undo:
  assumes "sighand_ok E cur (k_sighands k)" and "ts_sighand t = ts_sighand cur"
    and "copy_sighand K E f cur t k = (None, t', k')"
  obtains a es where "ts_sighand t' = Some a" "cleanup_sighand a k' = klog es k" "held (rev es) = (\<lambda>_. 0)"
proof (cases "has f (CLONE_SIGHAND K)")
  case True
  from assms(1) obtain a s where a: "ts_sighand cur = Some a" "k_sighands k a = Some s" "0 < sh_count s"
    by (auto simp: sighand_ok_def)
  with True assms(2,3) have "cleanup_sighand a k' = klog [] k" "ts_sighand t' = Some a"
    by (auto simp: copy_sighand_def cleanup_sighand_def get_sighand_def Let_def fun_upd_idem)
  then show ?thesis by (intro that [of a "[]"]) (simp_all add: fun_eq_iff)
next
  case False
  with assms(1,3) obtain a where a: "ce_sighand E = Some a" "ts_sighand t' = Some a" "k_sighands k a = None"
    by (auto simp: copy_sighand_def sighand_ok_def Let_def split: option.splits)
  with False assms(3) have "cleanup_sighand a k' = klog [Acq R_siglock, Rel R_siglock, Call ''signalfd_cleanup''] k"
    by (auto simp: copy_sighand_def cleanup_sighand_def Let_def fun_upd_idem klog_def)
  with a(2) show ?thesis by (intro that) (auto simp: fun_eq_iff)
qed

lemma copy_signal_undo:
  assumes "signal_ok E cur (k_signals k)" and "\<not> has f (CLONE_THREAD K)"
    and "copy_signal K E f cur p t k = (None, t', k')"
  obtains a es where "ts_signal t' = Some a" "free_signal_struct a k' = klog es k" "held (rev es) = (\<lambda>_. 0)"
proof -
  let ?es = "[Acq R_task_lock, Rel R_task_lock, Call ''tty_audit_fork'', Call ''sched_autogroup_fork'']"
  from assms obtain a where a: "ce_signal E = Some a" "k_signals k a = None"
    by (cases "ce_signal E") (auto simp: copy_signal_def signal_ok_def Let_def)
  define sig where "sig = deref (k_signals k') a"
  have t': "ts_signal t' = Some a" using assms(2,3) a by (auto simp: copy_signal_def Let_def)
  have k': "k' = (klog ?es k)\<lparr>k_signals := (k_signals k)(a \<mapsto> sig)\<rparr>" "sg_oom_mm sig = None"
  proof -
    have "k' = snd (snd (copy_signal K E f cur p t k))" using assms(3) by simp
    with assms(2) a show "k' = (klog ?es k)\<lparr>k_signals := (k_signals k)(a \<mapsto> sig)\<rparr>" "sg_oom_mm sig = None"
      by (simp_all add: sig_def copy_signal_def Let_def posix_cpu_timers_init_group_def zero_signal_def)
  qed
  have "free_signal_struct a k' = klog (?es @ [Call ''taskstats_tgid_free'', Call ''sched_autogroup_exit'']) k"
    unfolding free_signal_struct_def Let_def k'(1) using k'(2) fun_upd_idem [of "k_signals k" a None] a(2)
    by (simp add: klog_def)
  with t' show ?thesis by (intro that) (auto simp: fun_eq_iff)
qed

end
