(* ===== verification/Task_Flags.thy ===== *)
theory Task_Flags
  imports Fork_Copy
begin

text \<open>
  The atomic flags of a task (\<^verbatim>\<open>atomic_flags\<close> in \<^verbatim>\<open>include/linux/sched.h\<close>): the functions that the macros
  \<^verbatim>\<open>TASK_PFA_TEST\<close>, \<^verbatim>\<open>TASK_PFA_SET\<close> and \<^verbatim>\<open>TASK_PFA_CLEAR\<close> generate for each of them, and which flags
  can never be taken back.
\<close>

section \<open>Flags and functions\<close>

definition PFA_SPREAD_PAGE :: nat where "PFA_SPREAD_PAGE = 1"
definition PFA_SPREAD_SLAB :: nat where "PFA_SPREAD_SLAB = 2"
definition PFA_SPEC_SSB_DISABLE :: nat where "PFA_SPEC_SSB_DISABLE = 3"
definition PFA_SPEC_SSB_FORCE_DISABLE :: nat where "PFA_SPEC_SSB_FORCE_DISABLE = 4"
definition PFA_SPEC_IB_DISABLE :: nat where "PFA_SPEC_IB_DISABLE = 5"
definition PFA_SPEC_IB_FORCE_DISABLE :: nat where "PFA_SPEC_IB_FORCE_DISABLE = 6"
definition PFA_SPEC_SSB_NOEXEC :: nat where "PFA_SPEC_SSB_NOEXEC = 7"

definition task_spread_page :: "task_struct \<Rightarrow> bool" where
  "task_spread_page p = TASK_PFA_TEST PFA_SPREAD_PAGE p"

definition task_set_spread_page :: "task_struct \<Rightarrow> task_struct" where
  "task_set_spread_page p = TASK_PFA_SET PFA_SPREAD_PAGE p"

definition task_clear_spread_page :: "task_struct \<Rightarrow> task_struct" where
  "task_clear_spread_page p = TASK_PFA_CLEAR PFA_SPREAD_PAGE p"

definition task_spread_slab :: "task_struct \<Rightarrow> bool" where
  "task_spread_slab p = TASK_PFA_TEST PFA_SPREAD_SLAB p"

definition task_set_spread_slab :: "task_struct \<Rightarrow> task_struct" where
  "task_set_spread_slab p = TASK_PFA_SET PFA_SPREAD_SLAB p"

definition task_clear_spread_slab :: "task_struct \<Rightarrow> task_struct" where
  "task_clear_spread_slab p = TASK_PFA_CLEAR PFA_SPREAD_SLAB p"

definition task_spec_ssb_disable :: "task_struct \<Rightarrow> bool" where
  "task_spec_ssb_disable p = TASK_PFA_TEST PFA_SPEC_SSB_DISABLE p"

definition task_set_spec_ssb_disable :: "task_struct \<Rightarrow> task_struct" where
  "task_set_spec_ssb_disable p = TASK_PFA_SET PFA_SPEC_SSB_DISABLE p"

definition task_clear_spec_ssb_disable :: "task_struct \<Rightarrow> task_struct" where
  "task_clear_spec_ssb_disable p = TASK_PFA_CLEAR PFA_SPEC_SSB_DISABLE p"

definition task_spec_ssb_noexec :: "task_struct \<Rightarrow> bool" where
  "task_spec_ssb_noexec p = TASK_PFA_TEST PFA_SPEC_SSB_NOEXEC p"

definition task_set_spec_ssb_noexec :: "task_struct \<Rightarrow> task_struct" where
  "task_set_spec_ssb_noexec p = TASK_PFA_SET PFA_SPEC_SSB_NOEXEC p"

definition task_clear_spec_ssb_noexec :: "task_struct \<Rightarrow> task_struct" where
  "task_clear_spec_ssb_noexec p = TASK_PFA_CLEAR PFA_SPEC_SSB_NOEXEC p"

definition task_spec_ssb_force_disable :: "task_struct \<Rightarrow> bool" where
  "task_spec_ssb_force_disable p = TASK_PFA_TEST PFA_SPEC_SSB_FORCE_DISABLE p"

definition task_set_spec_ssb_force_disable :: "task_struct \<Rightarrow> task_struct" where
  "task_set_spec_ssb_force_disable p = TASK_PFA_SET PFA_SPEC_SSB_FORCE_DISABLE p"

definition task_spec_ib_disable :: "task_struct \<Rightarrow> bool" where
  "task_spec_ib_disable p = TASK_PFA_TEST PFA_SPEC_IB_DISABLE p"

definition task_set_spec_ib_disable :: "task_struct \<Rightarrow> task_struct" where
  "task_set_spec_ib_disable p = TASK_PFA_SET PFA_SPEC_IB_DISABLE p"

definition task_clear_spec_ib_disable :: "task_struct \<Rightarrow> task_struct" where
  "task_clear_spec_ib_disable p = TASK_PFA_CLEAR PFA_SPEC_IB_DISABLE p"

definition task_spec_ib_force_disable :: "task_struct \<Rightarrow> bool" where
  "task_spec_ib_force_disable p = TASK_PFA_TEST PFA_SPEC_IB_FORCE_DISABLE p"

definition task_set_spec_ib_force_disable :: "task_struct \<Rightarrow> task_struct" where
  "task_set_spec_ib_force_disable p = TASK_PFA_SET PFA_SPEC_IB_FORCE_DISABLE p"

section \<open>What the functions do\<close>

text \<open>Every function that changes an atomic flag.\<close>

definition pfa_functions :: "(task_struct \<Rightarrow> task_struct) list" where
  "pfa_functions =
     [task_set_no_new_privs,
      task_set_spread_page,
      task_set_spread_slab,
      task_set_spec_ssb_disable,
      task_set_spec_ssb_noexec,
      task_set_spec_ssb_force_disable,
      task_set_spec_ib_disable,
      task_set_spec_ib_force_disable,
      task_clear_spread_page,
      task_clear_spread_slab,
      task_clear_spec_ssb_disable,
      task_clear_spec_ssb_noexec,
      task_clear_spec_ib_disable]"

lemmas pfa_defs = PFA_SPREAD_PAGE_def
  PFA_SPREAD_SLAB_def
  PFA_SPEC_SSB_DISABLE_def
  PFA_SPEC_SSB_NOEXEC_def
  PFA_SPEC_SSB_FORCE_DISABLE_def
  PFA_SPEC_IB_DISABLE_def
  PFA_SPEC_IB_FORCE_DISABLE_def
  task_no_new_privs_def
  task_spread_page_def
  task_spread_slab_def
  task_spec_ssb_disable_def
  task_spec_ssb_noexec_def
  task_spec_ssb_force_disable_def
  task_spec_ib_disable_def
  task_spec_ib_force_disable_def
  task_set_no_new_privs_def
  task_set_spread_page_def
  task_set_spread_slab_def
  task_set_spec_ssb_disable_def
  task_set_spec_ssb_noexec_def
  task_set_spec_ssb_force_disable_def
  task_set_spec_ib_disable_def
  task_set_spec_ib_force_disable_def
  task_clear_spread_page_def
  task_clear_spread_slab_def
  task_clear_spec_ssb_disable_def
  task_clear_spec_ssb_noexec_def
  task_clear_spec_ib_disable_def

lemma pfa_set_test: "n < 64 \<Longrightarrow> TASK_PFA_TEST n (TASK_PFA_SET m p) \<longleftrightarrow> n = m \<or> TASK_PFA_TEST n p"
  by (auto simp: TASK_PFA_TEST_def TASK_PFA_SET_def bit_set_bit_iff)

lemma pfa_clear_test: "TASK_PFA_TEST n (TASK_PFA_CLEAR m p) \<longleftrightarrow> n \<noteq> m \<and> TASK_PFA_TEST n p"
  by (auto simp: TASK_PFA_TEST_def TASK_PFA_CLEAR_def bit_unset_bit_iff)

lemma pfa_frame:
  "f \<in> set pfa_functions \<Longrightarrow> (f p)\<lparr>ts_atomic_flags := ts_atomic_flags p\<rparr> = p"
  by (auto simp: pfa_functions_def pfa_defs TASK_PFA_SET_def TASK_PFA_CLEAR_def)

text \<open>The flags with no function that clears them, as one predicate over two tasks.\<close>

definition sticky :: "task_struct \<Rightarrow> task_struct \<Rightarrow> bool" where
  "sticky p q \<longleftrightarrow>
     (task_no_new_privs p \<longrightarrow> task_no_new_privs q) \<and>
     (task_spec_ssb_force_disable p \<longrightarrow> task_spec_ssb_force_disable q) \<and>
     (task_spec_ib_force_disable p \<longrightarrow> task_spec_ib_force_disable q)"

lemma sticky_refl: "sticky p p"
  by (simp add: sticky_def)

lemma sticky_step: "f \<in> set pfa_functions \<Longrightarrow> sticky p q \<Longrightarrow> sticky p (f q)"
  by (auto simp: pfa_functions_def sticky_def pfa_defs pfa_set_test pfa_clear_test)

lemma sticky_fold: "set fs \<subseteq> set pfa_functions \<Longrightarrow> sticky p (fold (\<lambda>f. f) fs p)"
proof (induction fs rule: rev_induct)
  case (snoc f fs)
  then show ?case by (simp add: sticky_step)
qed (simp add: sticky_refl)

lemma fold_frame:
  "set fs \<subseteq> set pfa_functions \<Longrightarrow> (fold (\<lambda>f. f) fs p)\<lparr>ts_atomic_flags := ts_atomic_flags p\<rparr> = p"
proof (induction fs rule: rev_induct)
  case (snoc f fs)
  then have "(f (fold (\<lambda>f. f) fs p))\<lparr>ts_atomic_flags := ts_atomic_flags (fold (\<lambda>f. f) fs p)\<rparr> = fold (\<lambda>f. f) fs p"
    by (intro pfa_frame) simp
  from arg_cong [OF this, of "ts_atomic_flags_update (\<lambda>_. ts_atomic_flags p)"] snoc show ?case by simp
qed simp

section \<open>Properties\<close>

text \<open>
  Whatever sequence of the functions that change atomic flags runs on a task, a task that may not
  gain new privileges, or whose speculation is permanently restricted, stays so, and nothing but the
  atomic flags of the task changes.
\<close>

theorem pfa_sticky:
  assumes "set fs \<subseteq> set pfa_functions"
  shows "sticky p (fold (\<lambda>f. f) fs p) \<and>
    (fold (\<lambda>f. f) fs p)\<lparr>ts_atomic_flags := ts_atomic_flags p\<rparr> = p"
  using sticky_fold [OF assms] fold_frame [OF assms] by simp

theorem pfa_sticky_witness:
  "sticky (task_set_no_new_privs zero_task)
     (fold (\<lambda>f. f) [task_set_spread_page, task_clear_spec_ssb_disable] (task_set_no_new_privs zero_task))"
  using pfa_sticky [of "[task_set_spread_page, task_clear_spec_ssb_disable]" "task_set_no_new_privs zero_task"]
  by (simp add: pfa_functions_def)

end
