(* ===== verification/Kv_Conc.thy ===== *)
theory Kv_Conc
  imports Kv_Store
begin

text \<open>
  Threads of one process in the system calls of \<^verbatim>\<open>kernel/kv_store.c\<close> at the same time. They share
  one store, so each access to it is a step of its own: taking a bucket's lock, reading the head of
  the list, each turn of \<^verbatim>\<open>hlist_for_each_entry\<close>, the store into the old entry, \<^verbatim>\<open>kmalloc\<close>, the two
  stores into the new entry, \<^verbatim>\<open>hlist_add_head\<close>, and the unlock. Steps of different threads
  interleave in every order that the locks allow. The theory shows that the answers are those of
  some serial order of the calls, and that the threads always get their answers.
\<close>

section \<open>Steps of one thread\<close>

datatype kv_op = WriteKv c_int c_int | ReadKv c_int

fun op_key :: "kv_op \<Rightarrow> c_int" where
  "op_key (WriteKv k v) = k"
| "op_key (ReadKv k) = k"

abbreviation op_hash :: "kv_op \<Rightarrow> nat" where
  "op_hash c \<equiv> kv_hash (op_key c)"

text \<open>
  Where a thread is: outside the critical section (\<open>Outside\<close>, which includes spinning on the lock),
  past the lock, at a position of the list (\<open>None\<close> is the end), at the old entry, past the list with
  no entry, with a new entry whose key and value are not yet stored, whose key is, and whose both
  are, and before the unlock with its answer.
\<close>

datatype kv_pc = Outside | Entered | Scan ptr | Hit addr | Miss | Fresh addr | Keyed addr
  | Filled addr | Leaving c_long

fun hfirst :: "addr list \<Rightarrow> ptr" where
  "hfirst [] = None"
| "hfirst (a # as) = Some a"

definition hnext :: "addr list \<Rightarrow> addr \<Rightarrow> ptr" where
  "hnext as a = hfirst (tl (dropWhile (\<lambda>b. b \<noteq> a) as))"

record kv_mem =
  km_nodes :: "addr \<rightharpoonup> kv_node"
  km_store :: kv_store

text \<open>
  One step of thread \<open>t\<close> in call \<open>c\<close>: the new place, the new memory and the answer, if the step
  decides it. \<open>kmalloc\<close> is what \<^verbatim>\<open>kmalloc\<close> returns if the step calls it, \<open>junk\<close> the contents of that
  memory. \<open>None\<close> means that the thread cannot step: it waits for a lock, or it would use a node
  that does not exist.
\<close>

fun kv_act ::
    "ptr \<Rightarrow> kv_node \<Rightarrow> addr \<Rightarrow> kv_op \<Rightarrow> kv_pc \<Rightarrow> kv_mem \<Rightarrow> (kv_pc \<times> kv_mem \<times> c_long option) option"
  where
  "kv_act kmalloc junk t c Outside m =
     (case spin_lock (op_hash c) t (km_store m) of
        Done st \<Rightarrow> Some (Entered, m\<lparr>km_store := st\<rparr>, None)
      | _ \<Rightarrow> None)"
| "kv_act kmalloc junk t c Entered m =
     Some (Scan (hfirst (kvs_head (km_store m) (op_hash c))), m, None)"
| "kv_act kmalloc junk t c (Scan None) m = Some (Miss, m, None)"
| "kv_act kmalloc junk t c (Scan (Some a)) m =
     (case km_nodes m a of
        None \<Rightarrow> None
      | Some n \<Rightarrow>
          Some (if kv_key n = op_key c then Hit a
                else Scan (hnext (kvs_head (km_store m) (op_hash c)) a), m, None))"
| "kv_act kmalloc junk t (WriteKv k v) (Hit a) m =
     (case km_nodes m a of
        None \<Rightarrow> None
      | Some n \<Rightarrow>
          Some (Leaving 4, m\<lparr>km_nodes := (km_nodes m)(a \<mapsto> n\<lparr>kv_value := v\<rparr>)\<rparr>, Some 4))"
| "kv_act kmalloc junk t (ReadKv k) (Hit a) m =
     (case km_nodes m a of
        None \<Rightarrow> None
      | Some n \<Rightarrow> Some (Leaving (scast (kv_value n)), m, Some (scast (kv_value n))))"
| "kv_act kmalloc junk t (WriteKv k v) Miss m =
     (case kmalloc of
        None \<Rightarrow> Some (Leaving (-1), m, Some (-1))
      | Some a \<Rightarrow> Some (Fresh a, m\<lparr>km_nodes := (km_nodes m)(a \<mapsto> junk)\<rparr>, None))"
| "kv_act kmalloc junk t (ReadKv k) Miss m = Some (Leaving (-1), m, Some (-1))"
| "kv_act kmalloc junk t (WriteKv k v) (Fresh a) m =
     (case km_nodes m a of
        None \<Rightarrow> None
      | Some n \<Rightarrow> Some (Keyed a, m\<lparr>km_nodes := (km_nodes m)(a \<mapsto> n\<lparr>kv_key := k\<rparr>)\<rparr>, None))"
| "kv_act kmalloc junk t (WriteKv k v) (Keyed a) m =
     (case km_nodes m a of
        None \<Rightarrow> None
      | Some n \<Rightarrow> Some (Filled a, m\<lparr>km_nodes := (km_nodes m)(a \<mapsto> n\<lparr>kv_value := v\<rparr>)\<rparr>, None))"
| "kv_act kmalloc junk t (WriteKv k v) (Filled a) m =
     (case km_nodes m a of
        None \<Rightarrow> None
      | Some n \<Rightarrow> Some (Leaving 4, m\<lparr>km_store := push_node k a (km_store m)\<rparr>, Some 4))"
| "kv_act kmalloc junk t c (Leaving r) m =
     Some (Outside, m\<lparr>km_store := spin_unlock (op_hash c) (km_store m)\<rparr>, None)"
| "kv_act kmalloc junk t (ReadKv k) pc m = None"

section \<open>Steps of the process\<close>

text \<open>
  A process is its memory, the place of every thread, the calls every thread still has to make (the
  first one is in progress unless the thread is outside) and the answers that it has. The history
  lists the calls in the order in which their answers were decided.
\<close>

record kv_proc =
  kp_mem :: kv_mem
  kp_pc :: "addr \<Rightarrow> kv_pc"
  kp_todo :: "addr \<Rightarrow> kv_op list"
  kp_done :: "addr \<Rightarrow> (kv_op \<times> c_long) list"
  kp_hist :: "(addr \<times> kv_op \<times> c_long) list"

definition decide :: "addr \<Rightarrow> kv_op \<Rightarrow> c_long option \<Rightarrow> (addr \<times> kv_op \<times> c_long) list" where
  "decide t c e = (case e of None \<Rightarrow> [] | Some r \<Rightarrow> [(t, c, r)])"

text \<open>The last step of a call hands the answer to the thread, which goes on to its next call.\<close>

definition kv_move :: "addr \<Rightarrow> kv_pc \<times> kv_mem \<times> c_long option \<Rightarrow> kv_proc \<Rightarrow> kv_proc" where
  "kv_move t = (\<lambda>(pc, m, e) s.
     let c = hd (kp_todo s t); s' = s\<lparr>kp_mem := m, kp_pc := (kp_pc s)(t := pc),
           kp_hist := kp_hist s @ decide t c e\<rparr> in
     case kp_pc s t of
       Leaving r \<Rightarrow> s'\<lparr>kp_todo := (kp_todo s)(t := tl (kp_todo s t)),
                      kp_done := (kp_done s)(t := kp_done s t @ [(c, r)])\<rparr>
     | _ \<Rightarrow> s')"

text \<open>Memory that \<^verbatim>\<open>kmalloc\<close> returns is not in use.\<close>

definition kmalloc_ok :: "kv_mem \<Rightarrow> ptr \<Rightarrow> bool" where
  "kmalloc_ok m p = (case p of None \<Rightarrow> True | Some a \<Rightarrow> km_nodes m a = None)"

inductive kv_step :: "kv_proc \<Rightarrow> kv_proc \<Rightarrow> bool" where
  step: "kp_todo s t = c # cs \<Longrightarrow> kmalloc_ok (kp_mem s) p \<Longrightarrow>
    kv_act p junk t c (kp_pc s t) (kp_mem s) = Some r \<Longrightarrow> kv_step s (kv_move t r s)"

definition kv_begin :: "kv_mem \<Rightarrow> (addr \<Rightarrow> kv_op list) \<Rightarrow> kv_proc" where
  "kv_begin m prog = \<lparr>kp_mem = m, kp_pc = (\<lambda>_. Outside), kp_todo = prog, kp_done = (\<lambda>_. []), kp_hist = []\<rparr>"

section \<open>Serial executions\<close>

text \<open>
  What a single call may answer and does to the map. Only a write of a new key may fail, when
  there is no memory for its entry.
\<close>

fun kv_spec :: "kv_op \<Rightarrow> c_long \<Rightarrow> (c_int \<rightharpoonup> c_int) \<Rightarrow> (c_int \<rightharpoonup> c_int) option" where
  "kv_spec (WriteKv k v) r M =
     (if r = 4 then Some (M(k \<mapsto> v)) else if r = -1 \<and> M k = None then Some M else None)"
| "kv_spec (ReadKv k) r M =
     (if r = (case M k of None \<Rightarrow> -1 | Some v \<Rightarrow> scast v) then Some M else None)"

fun serial :: "(c_int \<rightharpoonup> c_int) \<Rightarrow> (addr \<times> kv_op \<times> c_long) list \<Rightarrow> (c_int \<rightharpoonup> c_int) option" where
  "serial M [] = Some M"
| "serial M ((t, c, r) # h) = Option.bind (kv_spec c r M) (\<lambda>M. serial M h)"

lemma serial_append: "serial M (h @ h') = Option.bind (serial M h) (\<lambda>M. serial M h')"
  by (induction M h rule: serial.induct) (auto split: Option.bind_split)

section \<open>The invariant of one thread\<close>

text \<open>
  What a thread inside the critical section knows about its bucket: the nodes before its position
  do not have the key, the old entry does, a new entry is not in any list yet.
\<close>

definition no_key :: "kv_mem \<Rightarrow> c_int \<Rightarrow> addr list \<Rightarrow> bool" where
  "no_key m k as \<longleftrightarrow> (\<forall>a \<in> set as. node_key (km_nodes m) a \<noteq> Some k)"

fun own_node :: "kv_pc \<Rightarrow> ptr" where
  "own_node (Fresh a) = Some a"
| "own_node (Keyed a) = Some a"
| "own_node (Filled a) = Some a"
| "own_node _ = None"

abbreviation op_bucket :: "kv_mem \<Rightarrow> kv_op \<Rightarrow> addr list" where
  "op_bucket m c \<equiv> kvs_head (km_store m) (op_hash c)"

definition scan_ok :: "kv_mem \<Rightarrow> kv_op \<Rightarrow> ptr \<Rightarrow> bool" where
  "scan_ok m c p \<longleftrightarrow>
     (\<exists>as bs. op_bucket m c = as @ bs \<and> p = hfirst bs \<and> no_key m (op_key c) as)"

lemma scan_okI:
  "op_bucket m c = as @ bs \<Longrightarrow> p = hfirst bs \<Longrightarrow> no_key m (op_key c) as \<Longrightarrow> scan_ok m c p"
  by (auto simp: scan_ok_def)

fun place_ok :: "kv_mem \<Rightarrow> kv_op \<Rightarrow> kv_pc \<Rightarrow> bool" where
  "place_ok m c (Scan p) = scan_ok m c p"
| "place_ok m c (Hit a) =
     (a \<in> set (op_bucket m c) \<and> node_key (km_nodes m) a = Some (op_key c))"
| "place_ok m c Miss = no_key m (op_key c) (op_bucket m c)"
| "place_ok m (WriteKv k v) (Fresh a) = no_key m k (kvs_head (km_store m) (kv_hash k))"
| "place_ok m (WriteKv k v) (Keyed a) =
     (no_key m k (kvs_head (km_store m) (kv_hash k)) \<and> node_key (km_nodes m) a = Some k)"
| "place_ok m (WriteKv k v) (Filled a) =
     (no_key m k (kvs_head (km_store m) (kv_hash k)) \<and>
      km_nodes m a = Some \<lparr>kv_key = k, kv_value = v\<rparr>)"
| "place_ok m (ReadKv k) (Fresh a) = False"
| "place_ok m (ReadKv k) (Keyed a) = False"
| "place_ok m (ReadKv k) (Filled a) = False"
| "place_ok m c _ = True"

definition own_ok :: "kv_mem \<Rightarrow> kv_pc \<Rightarrow> bool" where
  "own_ok m pc \<longleftrightarrow>
     (\<forall>a. own_node pc = Some a \<longrightarrow> a \<in> dom (km_nodes m) \<and> a \<notin> store_nodes (km_store m))"

abbreviation mem_map :: "kv_mem \<Rightarrow> c_int \<rightharpoonup> c_int" where
  "mem_map m \<equiv> kv_lookup (km_nodes m) (km_store m)"

abbreviation mem_wf :: "kv_mem \<Rightarrow> bool" where
  "mem_wf m \<equiv> kv_wf (km_nodes m) (km_store m)"

lemma hfirst_Some: "Some a = hfirst bs \<longleftrightarrow> (\<exists>ds. bs = a # ds)"
  by (cases bs) auto

lemma hnext_split: "distinct (as @ a # bs) \<Longrightarrow> hnext (as @ a # bs) a = hfirst bs"
  by (induction as) (auto simp: hnext_def)

lemma kv_lookup_locks [simp]: "kv_lookup N (st\<lparr>kvs_locks := l\<rparr>) = kv_lookup N st"
  by (simp add: kv_lookup_def fun_eq_iff)

lemma kv_wf_locks [simp]: "kv_wf N (st\<lparr>kvs_locks := l\<rparr>) = kv_wf N st"
  by (simp add: kv_wf_def)

lemma store_nodes_locks [simp]: "store_nodes (st\<lparr>kvs_locks := l\<rparr>) = store_nodes st"
  by (simp add: store_nodes_def)

lemma in_bucket_nodes: "a \<in> set (kvs_head st (kv_hash k)) \<Longrightarrow> a \<in> store_nodes st"
  by (rule in_store_nodes [OF _ kv_hash_less])

lemma bucket_distinct: "kv_wf N st \<Longrightarrow> distinct (kvs_head st (kv_hash k))"
  using kv_wf_bucket [of N st "kv_hash k"] by (simp add: bucket_wf_def distinct_map)

lemma bucket_node: "kv_wf N st \<Longrightarrow> a \<in> set (kvs_head st (kv_hash k)) \<Longrightarrow> \<exists>n. N a = Some n"
  using kv_wf_bucket [of N st "kv_hash k"] by (auto simp: bucket_wf_def)

lemma no_key_lookup:
  "mem_wf m \<Longrightarrow> no_key m k (kvs_head (km_store m) (kv_hash k)) \<longleftrightarrow> mem_map m k = None"
  by (simp add: kv_lookup_None_iff find_NoneE no_key_def)

text \<open>A node outside the lists may change at will.\<close>

lemma outside_wf: "kv_wf N st \<Longrightarrow> a \<notin> store_nodes st \<Longrightarrow> kv_wf (N(a := x)) st"
  by (erule kv_wf_frame) auto

lemma outside_lookup: "a \<notin> store_nodes st \<Longrightarrow> kv_lookup (N(a := x)) st = kv_lookup N st"
  by (rule ext, rule kv_lookup_frame) auto

text \<open>Linking a node that is complete but outside the lists.\<close>

lemma link_node:
  assumes wf: "kv_wf N st" and out: "a \<notin> store_nodes st" and new: "kv_lookup N st k = None"
    and a: "N a = Some \<lparr>kv_key = k, kv_value = v\<rparr>"
  shows "kv_wf N (push_node k a st)" and "kv_lookup N (push_node k a st) = (kv_lookup N st)(k \<mapsto> v)"
proof -
  let ?M = "N(a := None)"
  have N: "?M(a \<mapsto> \<lparr>kv_key = k, kv_value = v\<rparr>) = N" using a by auto
  have M: "kv_wf ?M st" "kv_lookup ?M st = kv_lookup N st"
    using outside_wf [OF wf out] outside_lookup [OF out] by auto
  show "kv_wf N (push_node k a st)"
    using kv_wf_push [OF M(1), of a k v] M(2) new by (simp only: N) simp
  show "kv_lookup N (push_node k a st) = (kv_lookup N st)(k \<mapsto> v)"
    using kv_lookup_push [OF M(1), of a k v] M(2) by (simp only: N) simp
qed

lemma hit_find:
  assumes "mem_wf m" "a \<in> set (op_bucket m c)" "node_key (km_nodes m) a = Some (op_key c)"
  shows "find (\<lambda>a. node_key (km_nodes m) a = Some (op_key c)) (op_bucket m c) = Some a"
proof (rule find_unique)
  show "b = a" if "b \<in> set (op_bucket m c)" "node_key (km_nodes m) b = Some (op_key c)" for b
    using kv_wf_bucket [OF assms(1), of "op_hash c"] assms that
    by (auto simp: bucket_wf_def dest: inj_on_mapD)
qed (use assms in auto)

section \<open>What one step does\<close>

text \<open>
  A step of a thread that knows its bucket keeps the lists well formed; a step that decides the
  answer does to the map what the call is specified to do, every other step keeps the map.
\<close>

lemma act_spec:
  assumes act: "kv_act p junk t c pc m = Some (pc', m', e)"
    and wf: "mem_wf m" and place: "place_ok m c pc" and own: "own_ok m pc"
    and fresh: "kmalloc_ok m p"
  shows "mem_wf m' \<and>
    (case e of None \<Rightarrow> mem_map m' = mem_map m
     | Some r \<Rightarrow> pc' = Leaving r \<and> kv_spec c r (mem_map m) = Some (mem_map m'))"
proof -
  have new: "a \<notin> store_nodes (km_store m)" if "p = Some a" for a
    using fresh store_nodes_alloc [OF wf] that by (auto simp: kmalloc_ok_def)
  have out: "a \<notin> store_nodes (km_store m)" if "own_node pc = Some a" for a
    using own that by (simp add: own_ok_def)
  note frame = outside_wf [OF wf] outside_lookup
  show ?thesis
  proof (cases pc)
    case (Scan q)
    then show ?thesis using act wf by (cases q) (auto split: option.splits)
  next
    case (Hit a)
    then obtain n where n: "km_nodes m a = Some n" "kv_key n = op_key c"
      using place by (auto simp: node_key_def)
    have f: "find (\<lambda>a. node_key (km_nodes m) a = Some (op_key c)) (op_bucket m c) = Some a"
      using hit_find [OF wf] place Hit by simp
    show ?thesis
    proof (cases c)
      case (WriteKv k v)
      then show ?thesis
        using act Hit n f kv_wf_update_value [OF wf n(1)] kv_lookup_update_value [OF wf n(1)]
        by auto
    next
      case (ReadKv k)
      then show ?thesis using act Hit n f wf by (auto simp: kv_lookup_def)
    qed
  next
    case Miss
    then show ?thesis using act wf place new frame no_key_lookup [OF wf, of "op_key c"]
      by (cases c) (auto split: option.splits)
  next
    case (Fresh a)
    then show ?thesis using act out frame by (cases c) (auto split: option.splits)
  next
    case (Keyed a)
    then show ?thesis using act out frame by (cases c) (auto split: option.splits)
  next
    case (Filled a)
    then show ?thesis
      using act place out no_key_lookup [OF wf, of "op_key c"] link_node [OF wf]
      by (cases c) auto
  qed (use act wf in \<open>auto simp: spin_unlock_def split: kv_result.splits\<close>)
qed

text \<open>A thread keeps what it knows about its own bucket.\<close>

lemma act_place:
  assumes act: "kv_act p junk t c pc m = Some (pc', m', e)"
    and wf: "mem_wf m" and place: "place_ok m c pc" and own: "own_ok m pc"
    and fresh: "kmalloc_ok m p"
  shows "place_ok m' c pc' \<and> own_ok m' pc'"
proof (cases pc)
  case Entered
  moreover have "scan_ok m c (hfirst (op_bucket m c))"
    by (rule scan_okI [of m c "[]"]) (simp_all add: no_key_def)
  ultimately show ?thesis using act by (auto simp: own_ok_def)
next
  case (Scan q)
  then obtain as bs where bs: "op_bucket m c = as @ bs" "q = hfirst bs" "no_key m (op_key c) as"
    using place by (auto simp: scan_ok_def)
  show ?thesis
  proof (cases bs)
    case Nil
    with bs Scan act show ?thesis by (auto simp: own_ok_def)
  next
    case (Cons a ds)
    have nx: "hnext (op_bucket m c) a = hfirst ds"
      using bucket_distinct [OF wf, of "op_key c"] bs(1) Cons by (simp only: hnext_split)
    have "scan_ok m c (hfirst ds)" if "node_key (km_nodes m) a \<noteq> Some (op_key c)"
      using bs that Cons by (intro scan_okI [of m c "as @ [a]" ds]) (auto simp: no_key_def)
    with bs Scan act nx Cons show ?thesis
      by (auto simp: own_ok_def node_key_def split: option.splits if_splits)
  qed
next
  case Miss
  have "no_key (m\<lparr>km_nodes := (km_nodes m)(a \<mapsto> junk)\<rparr>) k (kvs_head (km_store m) (kv_hash k))"
    if "c = WriteKv k v" "p = Some a" for k v a
    using place Miss fresh that bucket_node [OF wf, of _ k]
    by (fastforce simp: no_key_def node_key_def kmalloc_ok_def)
  moreover have "a \<notin> store_nodes (km_store m)" if "p = Some a" for a
    using fresh store_nodes_alloc [OF wf] that by (auto simp: kmalloc_ok_def)
  ultimately show ?thesis
    using act Miss by (cases c) (auto simp: own_ok_def split: option.splits)
next
  case (Fresh a)
  then show ?thesis using act own place in_bucket_nodes
    by (cases c) (auto simp: own_ok_def no_key_def node_key_def split: option.splits if_splits)
next
  case (Keyed a)
  then show ?thesis using act own place in_bucket_nodes
    by (cases c) (auto simp: own_ok_def no_key_def node_key_def split: option.splits if_splits)
next
  case (Filled a)
  then show ?thesis using act by (cases c) (auto simp: own_ok_def split: option.splits)
next
  case (Hit a)
  then show ?thesis using act by (cases c) (auto simp: own_ok_def split: option.splits)
qed (use act in \<open>auto simp: own_ok_def split: kv_result.splits\<close>)

text \<open>
  A step touches only the bucket of its own call: another bucket keeps its lock, its list and its
  nodes, and an entry that another thread has not linked yet keeps its contents.
\<close>

lemma act_other_bucket:
  assumes "kv_act p junk t c pc m = Some (pc', m', e)" and "h \<noteq> op_hash c"
  shows "kvs_head (km_store m') h = kvs_head (km_store m) h \<and>
    kvs_locks (km_store m') h = kvs_locks (km_store m) h"
  using assms
  by (cases "(p, junk, t, c, pc, m)" rule: kv_act.cases)
    (auto simp: spin_unlock_def split: option.splits kv_result.splits)

lemma act_own_lock:
  assumes "kv_act p junk t c pc m = Some (pc', m', e)"
    and "pc \<noteq> Outside \<Longrightarrow> kvs_locks (km_store m) (op_hash c) = Some t"
  shows "kvs_locks (km_store m') (op_hash c) = (if pc' = Outside then None else Some t)"
  using assms
  by (cases "(p, junk, t, c, pc, m)" rule: kv_act.cases)
    (auto simp: spin_unlock_def split: option.splits kv_result.splits if_splits)

lemma act_nodes:
  assumes "kv_act p junk t c pc m = Some (pc', m', e)" and "place_ok m c pc" and "kmalloc_ok m p"
    and "a \<in> dom (km_nodes m)" and "a \<notin> set (op_bucket m c)" and "own_node pc \<noteq> Some a"
  shows "km_nodes m' a = km_nodes m a"
  using assms
  by (cases "(p, junk, t, c, pc, m)" rule: kv_act.cases)
    (auto simp: kmalloc_ok_def split: option.splits kv_result.splits)

lemma act_dom:
  assumes "kv_act p junk t c pc m = Some (pc', m', e)"
  shows "dom (km_nodes m) \<subseteq> dom (km_nodes m')"
  using assms
  by (cases "(p, junk, t, c, pc, m)" rule: kv_act.cases)
    (auto split: option.splits kv_result.splits if_splits)

lemma act_store_nodes:
  assumes "kv_act p junk t c pc m = Some (pc', m', e)" and "a \<in> store_nodes (km_store m')"
  shows "a \<in> store_nodes (km_store m) \<or> own_node pc = Some a"
  using assms
  by (cases "(p, junk, t, c, pc, m)" rule: kv_act.cases)
    (auto simp: spin_unlock_def store_nodes_def split: option.splits kv_result.splits if_splits)

lemma act_own_node:
  assumes "kv_act p junk t c pc m = Some (pc', m', e)" and "kmalloc_ok m p"
    and "own_node pc' = Some a"
  shows "own_node pc = Some a \<or> a \<notin> dom (km_nodes m)"
  using assms
  by (cases "(p, junk, t, c, pc, m)" rule: kv_act.cases)
    (auto simp: kmalloc_ok_def split: option.splits kv_result.splits if_splits)

lemma act_leaving:
  assumes "kv_act p junk t c pc m = Some (pc', m', e)"
  shows "e = (case pc' of Leaving r \<Rightarrow> Some r | _ \<Rightarrow> None)" and "(\<exists>r. pc = Leaving r) \<longleftrightarrow> pc' = Outside"
  using assms
  by (cases "(p, junk, t, c, pc, m)" rule: kv_act.cases;
      auto split: option.splits kv_result.splits if_splits)+

lemma place_ok_cong:
  assumes "op_bucket m' c = op_bucket m c"
    and "\<And>a. a \<in> set (op_bucket m c) \<or> own_node pc = Some a \<Longrightarrow> km_nodes m' a = km_nodes m a"
  shows "place_ok m' c pc = place_ok m c pc"
proof -
  have key: "node_key (km_nodes m') a = node_key (km_nodes m) a"
    if "a \<in> set (op_bucket m c) \<or> own_node pc = Some a" for a
    using assms(2) [OF that] by (simp add: node_key_def)
  have *: "no_key m' (op_key c) as = no_key m (op_key c) as" if "set as \<subseteq> set (op_bucket m c)" for as
    unfolding no_key_def using key that by (metis subsetD)
  then have "scan_ok m' c p = scan_ok m c p" for p
    unfolding scan_ok_def assms(1) by (metis Un_upper1 set_append)
  with * show ?thesis using assms key
    by (cases "(m, c, pc)" rule: place_ok.cases) auto
qed

section \<open>The invariant of the process\<close>

text \<open>
  A bucket's lock is held exactly by the thread whose call is inside that bucket, every thread knows
  its bucket, and no two threads have the same unlinked entry.
\<close>

definition cur_op :: "kv_proc \<Rightarrow> addr \<Rightarrow> kv_op" where
  "cur_op s t = hd (kp_todo s t)"

definition inside :: "kv_proc \<Rightarrow> addr \<Rightarrow> bool" where
  "inside s t \<longleftrightarrow> kp_pc s t \<noteq> Outside"

definition locks_ok :: "kv_proc \<Rightarrow> bool" where
  "locks_ok s \<longleftrightarrow>
     (\<forall>t. inside s t \<longrightarrow> kp_todo s t \<noteq> []) \<and>
     (\<forall>h t. h < KV_BUCKETS \<longrightarrow>
        (kvs_locks (km_store (kp_mem s)) h = Some t \<longleftrightarrow> inside s t \<and> op_hash (cur_op s t) = h))"

definition threads_ok :: "kv_proc \<Rightarrow> bool" where
  "threads_ok s \<longleftrightarrow>
     (\<forall>t. place_ok (kp_mem s) (cur_op s t) (kp_pc s t) \<and> own_ok (kp_mem s) (kp_pc s t)) \<and>
     (\<forall>t u a. own_node (kp_pc s t) = Some a \<longrightarrow> own_node (kp_pc s u) = Some a \<longrightarrow> t = u)"

definition kv_inv :: "kv_proc \<Rightarrow> bool" where
  "kv_inv s \<longleftrightarrow> mem_wf (kp_mem s) \<and> locks_ok s \<and> threads_ok s"

text \<open>
  The history is a serial execution that ends in the present map. The calls of a thread are in it in
  the order of its program, each with the answer that the thread has or is about to get.
\<close>

definition undelivered :: "kv_proc \<Rightarrow> addr \<Rightarrow> (kv_op \<times> c_long) list" where
  "undelivered s t = (case kp_pc s t of Leaving r \<Rightarrow> [(cur_op s t, r)] | _ \<Rightarrow> [])"

definition hist_of :: "addr \<Rightarrow> (addr \<times> kv_op \<times> c_long) list \<Rightarrow> (kv_op \<times> c_long) list" where
  "hist_of t h = map snd (filter (\<lambda>x. fst x = t) h)"

definition hist_ok :: "(c_int \<rightharpoonup> c_int) \<Rightarrow> (addr \<Rightarrow> kv_op list) \<Rightarrow> kv_proc \<Rightarrow> bool" where
  "hist_ok M prog s \<longleftrightarrow>
     serial M (kp_hist s) = Some (mem_map (kp_mem s)) \<and>
     (\<forall>t. hist_of t (kp_hist s) = kp_done s t @ undelivered s t \<and>
          prog t = map fst (kp_done s t) @ kp_todo s t)"

lemma kv_move_simps [simp]:
  "kp_mem (kv_move t (pc, m, e) s) = m"
  "kp_pc (kv_move t (pc, m, e) s) = (kp_pc s)(t := pc)"
  "kp_hist (kv_move t (pc, m, e) s) = kp_hist s @ decide t (cur_op s t) e"
  by (auto simp: kv_move_def cur_op_def Let_def split: kv_pc.splits)

lemma kv_move_todo:
  "kp_todo (kv_move t (pc, m, e) s) =
     (case kp_pc s t of Leaving r \<Rightarrow> (kp_todo s)(t := tl (kp_todo s t)) | _ \<Rightarrow> kp_todo s)"
  "kp_done (kv_move t (pc, m, e) s) =
     (case kp_pc s t of Leaving r \<Rightarrow> (kp_done s)(t := kp_done s t @ [(cur_op s t, r)]) | _ \<Rightarrow> kp_done s)"
  by (auto simp: kv_move_def cur_op_def Let_def split: kv_pc.splits)

lemma kv_move_others [simp]:
  "u \<noteq> t \<Longrightarrow> cur_op (kv_move t r s) u = cur_op s u"
  "u \<noteq> t \<Longrightarrow> kp_todo (kv_move t r s) u = kp_todo s u"
  "u \<noteq> t \<Longrightarrow> inside (kv_move t r s) u = inside s u"
  by (cases r; auto simp: cur_op_def inside_def kv_move_todo split: kv_pc.splits)+

lemma kv_move_self:
  assumes "kv_act p junk t c (kp_pc s t) m = Some (pc', m', e)" "pc' \<noteq> Outside"
  shows "kp_todo (kv_move t (pc', m', e) s) = kp_todo s" "cur_op (kv_move t (pc', m', e) s) t = cur_op s t"
  using act_leaving(2) [OF assms(1)] assms(2)
  by (auto simp: kv_move_todo cur_op_def split: kv_pc.splits)

text \<open>Two threads inside the same bucket are the same thread.\<close>

lemma bucket_exclusive:
  "locks_ok s \<Longrightarrow> inside s t \<Longrightarrow> inside s u \<Longrightarrow> op_hash (cur_op s t) = op_hash (cur_op s u) \<Longrightarrow> t = u"
  unfolding locks_ok_def by (metis kv_hash_less option.inject)

lemma act_hash_neq:
  assumes lk: "locks_ok s" and act: "kv_act p junk t (cur_op s t) (kp_pc s t) (kp_mem s) = Some r"
    and u: "inside s u" "u \<noteq> t"
  shows "op_hash (cur_op s u) \<noteq> op_hash (cur_op s t)"
proof (cases "inside s t")
  case True
  with bucket_exclusive [OF lk] u show ?thesis by blast
next
  case False
  then have "kvs_locks (km_store (kp_mem s)) (op_hash (cur_op s t)) = None"
    using act by (auto simp: inside_def split: kv_result.splits)
  moreover have "kvs_locks (km_store (kp_mem s)) (op_hash (cur_op s u)) = Some u"
    using lk u by (simp add: locks_ok_def)
  ultimately show ?thesis by auto
qed

lemma locks_ok_step:
  assumes lk: "locks_ok s" and todo: "kp_todo s t \<noteq> []"
    and act: "kv_act p junk t (cur_op s t) (kp_pc s t) (kp_mem s) = Some (pc', m', e)"
  shows "locks_ok (kv_move t (pc', m', e) s)"
proof -
  let ?s = "kv_move t (pc', m', e) s" and ?h = "op_hash (cur_op s t)"
  let ?l = "kvs_locks (km_store m')"
  have own: "?l ?h = (if pc' = Outside then None else Some t)"
    using act_own_lock [OF act] lk by (simp add: locks_ok_def inside_def)
  have others: "?l h = kvs_locks (km_store (kp_mem s)) h" if "h \<noteq> ?h" for h
    using act_other_bucket [OF act that] by simp
  have t: "inside ?s t \<longleftrightarrow> pc' \<noteq> Outside" by (simp add: inside_def)
  have "inside ?s u \<Longrightarrow> kp_todo ?s u \<noteq> []" for u
    using lk todo t kv_move_self(1) [OF act] by (cases "u = t") (auto simp: locks_ok_def)
  moreover have "?l h = Some u \<longleftrightarrow> inside ?s u \<and> op_hash (cur_op ?s u) = h"
    if h: "h < KV_BUCKETS" for h u
  proof (cases "u = t")
    case True
    have cur: "cur_op ?s t = cur_op s t" if "inside ?s t"
      using kv_move_self(2) [OF act] t that by blast
    have "kvs_locks (km_store (kp_mem s)) h \<noteq> Some t" if "h \<noteq> ?h"
      using lk h that by (auto simp: locks_ok_def)
    then have "?l h = Some t \<longleftrightarrow> pc' \<noteq> Outside \<and> h = ?h"
      using own others [of h] by (cases "h = ?h") simp_all
    with True t cur show ?thesis by metis
  next
    case False
    have "kvs_locks (km_store (kp_mem s)) h = Some u \<longleftrightarrow> inside s u \<and> op_hash (cur_op s u) = h"
      using lk h by (simp add: locks_ok_def)
    moreover have "h \<noteq> ?h" if "?l h = Some u \<or> inside s u \<and> op_hash (cur_op s u) = h"
      using that own False act_hash_neq [OF lk act, of u] by (auto split: if_splits)
    ultimately show ?thesis using False others [of h] by auto
  qed
  ultimately show ?thesis by (simp add: locks_ok_def)
qed

text \<open>What another thread knows is not disturbed.\<close>

lemma place_ok_other:
  assumes inv: "kv_inv s" and fresh: "kmalloc_ok (kp_mem s) p"
    and act: "kv_act p junk t (cur_op s t) (kp_pc s t) (kp_mem s) = Some (pc', m', e)" and u: "u \<noteq> t"
  shows "place_ok m' (cur_op s u) (kp_pc s u) \<and> own_ok m' (kp_pc s u)"
proof (cases "inside s u")
  case False
  then show ?thesis by (simp add: inside_def own_ok_def)
next
  case True
  let ?m = "kp_mem s"
  from inv have wf: "mem_wf ?m" and lk: "locks_ok s" and th: "threads_ok s" by (simp_all add: kv_inv_def)
  have ok: "place_ok ?m (cur_op s v) (kp_pc s v)" "own_ok ?m (kp_pc s v)" for v
    using th by (simp_all add: threads_ok_def)
  note neq = act_hash_neq [OF lk act True u]
  have apart: "own_node (kp_pc s t) \<noteq> Some a" if "own_node (kp_pc s u) = Some a" for a
    using th that u by (auto simp: threads_ok_def)
  have linked: "own_node (kp_pc s v) \<noteq> Some a" if "a \<in> store_nodes (km_store ?m)" for v a
    using ok(2) [of v] that by (auto simp: own_ok_def)
  have same: "km_nodes m' a = km_nodes ?m a"
    if a: "a \<in> set (op_bucket ?m (cur_op s u)) \<or> own_node (kp_pc s u) = Some a" for a
  proof (rule act_nodes [OF act ok(1) fresh])
    show "a \<in> dom (km_nodes ?m)"
      using a ok(2) [of u] bucket_node [OF wf] by (auto simp: own_ok_def)
    show "a \<notin> set (op_bucket ?m (cur_op s t))"
      using a linked [OF in_bucket_nodes, of a] neq
        bucket_wf_hash_disjoint [OF kv_wf_bucket [OF wf kv_hash_less] kv_wf_bucket [OF wf kv_hash_less] neq]
      by blast
    show "own_node (kp_pc s t) \<noteq> Some a"
      using a apart linked [OF in_bucket_nodes, of a] by blast
  qed
  have "place_ok m' (cur_op s u) (kp_pc s u)"
    using place_ok_cong [OF _ same] act_other_bucket [OF act neq] ok(1) [of u] by auto
  moreover have "own_ok m' (kp_pc s u)"
    using ok(2) [of u] act_dom [OF act] act_store_nodes [OF act] apart by (fastforce simp: own_ok_def)
  ultimately show ?thesis by blast
qed

lemma threads_ok_step:
  assumes inv: "kv_inv s" and fresh: "kmalloc_ok (kp_mem s) p"
    and act: "kv_act p junk t (cur_op s t) (kp_pc s t) (kp_mem s) = Some (pc', m', e)"
  shows "threads_ok (kv_move t (pc', m', e) s)"
proof -
  let ?s = "kv_move t (pc', m', e) s"
  from inv have th: "threads_ok s" and wf: "mem_wf (kp_mem s)" by (simp_all add: kv_inv_def)
  have t: "place_ok m' (cur_op s t) pc' \<and> own_ok m' pc'"
    using act_place [OF act wf] th fresh by (simp add: threads_ok_def)
  have "place_ok m' (cur_op ?s u) (kp_pc ?s u) \<and> own_ok m' (kp_pc ?s u)" for u
  proof (cases "u = t")
    case True
    then show ?thesis using t kv_move_self(2) [OF act] by (cases "pc' = Outside") simp_all
  next
    case False
    then show ?thesis using place_ok_other [OF inv fresh act False] by simp
  qed
  moreover have "u = t" if "own_node pc' = Some a" "own_node (kp_pc s u) = Some a" for u a
    using act_own_node [OF act fresh that(1)] th that(2) by (auto simp: threads_ok_def own_ok_def)
  moreover have "u = v" if "own_node (kp_pc s u) = Some a" "own_node (kp_pc s v) = Some a" for u v a
    using th that by (auto simp: threads_ok_def)
  ultimately show ?thesis by (auto simp: threads_ok_def)
qed

lemma hist_ok_step:
  assumes inv: "kv_inv s" and todo: "kp_todo s t \<noteq> []" and fresh: "kmalloc_ok (kp_mem s) p"
    and act: "kv_act p junk t (cur_op s t) (kp_pc s t) (kp_mem s) = Some (pc', m', e)"
    and hist: "hist_ok M prog s"
  shows "hist_ok M prog (kv_move t (pc', m', e) s)"
proof -
  let ?s = "kv_move t (pc', m', e) s"
  have "mem_wf m' \<and> (case e of None \<Rightarrow> mem_map m' = mem_map (kp_mem s)
     | Some r \<Rightarrow> pc' = Leaving r \<and> kv_spec (cur_op s t) r (mem_map (kp_mem s)) = Some (mem_map m'))"
    using act_spec [OF act] inv fresh by (simp add: kv_inv_def threads_ok_def)
  then have "serial M (kp_hist ?s) = Some (mem_map m')"
    using hist by (auto simp: hist_ok_def serial_append decide_def split: option.splits)
  moreover have "hist_of u (kp_hist ?s) = kp_done ?s u @ undelivered ?s u \<and>
      prog u = map fst (kp_done ?s u) @ kp_todo ?s u" for u
  proof (cases "u = t")
    case False
    then show ?thesis
      using hist by (auto simp: hist_ok_def hist_of_def decide_def undelivered_def cur_op_def kv_move_todo
          split: option.splits kv_pc.splits)
  next
    case True
    then show ?thesis
      using hist todo act_leaving [OF act]
      by (cases "kp_todo s t")
        (auto simp: hist_ok_def hist_of_def decide_def undelivered_def cur_op_def kv_move_todo
          split: option.splits kv_pc.splits)
  qed
  ultimately show ?thesis by (simp add: hist_ok_def)
qed

lemma kv_inv_step: "kv_step s s' \<Longrightarrow> kv_inv s \<Longrightarrow> hist_ok M prog s \<Longrightarrow> kv_inv s' \<and> hist_ok M prog s'"
proof (induction rule: kv_step.induct)
  case (step s t c cs p junk r)
  then obtain pc' m' e where r: "r = (pc', m', e)" by (cases r)
  have c: "cur_op s t = c" and todo: "kp_todo s t \<noteq> []" using step(1) by (simp_all add: cur_op_def)
  note act = step(3) [unfolded r, folded c]
  have "mem_wf m'" using act_spec [OF act] step by (simp add: kv_inv_def threads_ok_def)
  moreover have "locks_ok (kv_move t r s)" "threads_ok (kv_move t r s)" "hist_ok M prog (kv_move t r s)"
    unfolding r using locks_ok_step [OF _ todo act] threads_ok_step [OF step(4,2) act]
      hist_ok_step [OF step(4) todo step(2) act step(5)] step(4) by (simp_all add: kv_inv_def)
  ultimately show ?case by (simp add: kv_inv_def r)
qed

lemma kv_inv_begin:
  "mem_wf m \<Longrightarrow> kv_unlocked (km_store m) \<Longrightarrow> kv_inv (kv_begin m prog) \<and> hist_ok (mem_map m) prog (kv_begin m prog)"
  by (auto simp: kv_inv_def kv_begin_def locks_ok_def threads_ok_def own_ok_def inside_def hist_ok_def
      hist_of_def undelivered_def kv_unlocked_def)

lemma kv_inv_reachable:
  assumes "kv_step\<^sup>*\<^sup>* (kv_begin m prog) s" and "mem_wf m" and "kv_unlocked (km_store m)"
  shows "kv_inv s \<and> hist_ok (mem_map m) prog s"
  using assms(1)
proof (induction rule: rtranclp_induct)
  case base
  show ?case using kv_inv_begin assms(2,3) by blast
next
  case (step s s')
  then show ?case using kv_inv_step by blast
qed

section \<open>Every run ends\<close>

text \<open>
  The stages of a call are numbered; every step moves the call to a later stage, except a turn of
  the loop, which shortens what is left of the list. The lists may grow while a thread waits for a
  lock, but not while it scans one.
\<close>

fun stage :: "kv_pc \<Rightarrow> nat" where
  "stage Outside = 0"
| "stage Entered = 1"
| "stage (Scan p) = 2"
| "stage (Hit a) = 3"
| "stage Miss = 3"
| "stage (Fresh a) = 4"
| "stage (Keyed a) = 5"
| "stage (Filled a) = 6"
| "stage (Leaving r) = 7"

definition left_to_scan :: "kv_mem \<Rightarrow> kv_op \<Rightarrow> kv_pc \<Rightarrow> nat" where
  "left_to_scan m c pc =
     (case pc of Scan (Some a) \<Rightarrow> length (dropWhile (\<lambda>b. b \<noteq> a) (op_bucket m c)) | _ \<Rightarrow> 0)"

definition steps_left :: "kv_proc \<Rightarrow> addr \<Rightarrow> nat" where
  "steps_left s t = 8 * length (kp_todo s t) - stage (kp_pc s t)"

definition progress :: "addr set \<Rightarrow> (kv_proc \<times> kv_proc) set" where
  "progress T = inv_image (less_than <*lex*> less_than)
     (\<lambda>s. (\<Sum>t\<in>T. steps_left s t,
           \<Sum>t\<in>T. left_to_scan (kp_mem s) (cur_op s t) (kp_pc s t)))"

lemma progress_wf: "wf (progress T)"
  by (auto simp: progress_def)

lemma act_stage:
  assumes "kv_act p junk t c pc m = Some (pc', m', e)"
  shows "(case pc of Leaving r \<Rightarrow> pc' = Outside
    | Scan (Some a) \<Rightarrow> pc' = Scan (hnext (op_bucket m c) a) \<and> m' = m \<or> stage pc < stage pc'
    | _ \<Rightarrow> stage pc < stage pc')"
  using assms
  by (cases "(p, junk, t, c, pc, m)" rule: kv_act.cases)
    (auto split: option.splits kv_result.splits if_splits)

lemma left_to_scan_next:
  assumes "mem_wf m" and "scan_ok m c (Some a)"
  shows "left_to_scan m c (Scan (hnext (op_bucket m c) a)) < left_to_scan m c (Scan (Some a))"
proof -
  obtain as bs where b: "op_bucket m c = as @ a # bs"
    using assms(2) by (auto simp: scan_ok_def hfirst_Some)
  then have d: "distinct (as @ a # bs)" using bucket_distinct [OF assms(1), of "op_key c"] by simp
  have drop: "dropWhile (\<lambda>b. b \<noteq> x) (xs @ x # ys) = x # ys" if "x \<notin> set xs" for x :: addr and xs ys
    using that by (induction xs) auto
  show ?thesis
  proof (cases bs)
    case Nil
    then show ?thesis using d drop [of a as bs] by (simp add: left_to_scan_def b hnext_split)
  next
    case (Cons x ds)
    then have "dropWhile (\<lambda>b. b \<noteq> x) (op_bucket m c) = x # ds"
      using d drop [of x "as @ [a]" ds] by (simp add: b)
    then show ?thesis using Cons d drop [of a as bs] by (simp add: left_to_scan_def b hnext_split)
  qed
qed

lemma stage_le: "stage pc \<le> 7"
  by (cases pc) auto

lemma steps_left_self:
  assumes todo: "kp_todo s t = c # cs"
    and act: "kv_act p junk t c (kp_pc s t) (kp_mem s) = Some (pc', m', e)"
    and moved: "stage (kp_pc s t) < stage pc' \<or> pc' = Outside"
  shows "steps_left (kv_move t (pc', m', e) s) t < steps_left s t"
proof (cases "pc' = Outside")
  case True
  then obtain r where "kp_pc s t = Leaving r" using act_leaving(2) [OF act] by auto
  then show ?thesis using True todo by (simp add: steps_left_def kv_move_todo)
next
  case False
  then show ?thesis
    using moved todo kv_move_self(1) [OF act] stage_le [of pc'] by (simp add: steps_left_def)
qed

lemma sum_decreases:
  assumes "finite T" "t \<in> T" "f t < g t" "\<And>u. u \<noteq> t \<Longrightarrow> f u = (g u :: nat)"
  shows "sum f T < sum g T"
  by (rule sum_strict_mono_ex1) (use assms in \<open>auto intro: order.strict_implies_order\<close>, metis le_refl less_imp_le)

lemma step_progress:
  assumes step: "kv_step s s'" and inv: "kv_inv s" and T: "finite T" "\<And>t. kp_todo s t \<noteq> [] \<Longrightarrow> t \<in> T"
  shows "(s', s) \<in> progress T"
  using step
proof (cases rule: kv_step.cases)
  case (step t c cs p junk r)
  then obtain pc' m' e where r: "r = (pc', m', e)" by (cases r)
  have t: "t \<in> T" and c: "cur_op s t = c" using T(2) [of t] step by (simp_all add: cur_op_def)
  note act = step(4) [unfolded r]
  have others: "steps_left s' u = steps_left s u" if "u \<noteq> t" for u
    using that step(1) by (simp add: steps_left_def r)
  show ?thesis
  proof (cases "stage (kp_pc s t) < stage pc' \<or> pc' = Outside")
    case True
    then have "steps_left s' t < steps_left s t"
      using steps_left_self [OF step(2) act] step(1) by (simp add: r)
    then have "(\<Sum>t\<in>T. steps_left s' t) < (\<Sum>t\<in>T. steps_left s t)"
      using sum_decreases [of T t "steps_left s'" "steps_left s"] T(1) t others by blast
    then show ?thesis by (simp add: progress_def)
  next
    case False
    then obtain a where a: "kp_pc s t = Scan (Some a)" "pc' = Scan (hnext (op_bucket (kp_mem s) c) a)"
      "m' = kp_mem s"
      using act_stage [OF act] by (auto split: kv_pc.splits option.splits)
    have same: "kp_todo s' = kp_todo s" using kv_move_self(1) [OF act] a step(1) by (simp add: r)
    let ?f = "\<lambda>s t. left_to_scan (kp_mem s) (cur_op s t) (kp_pc s t)"
    have "?f s' t < ?f s t"
      using left_to_scan_next [of "kp_mem s" c a] inv a c same step(1)
      by (simp add: kv_inv_def threads_ok_def r cur_op_def) (metis list.sel(1) place_ok.simps(1) step(2))
    moreover have "?f s' u = ?f s u" if "u \<noteq> t" for u using that a step(1) by (simp add: r)
    ultimately have "(\<Sum>t\<in>T. ?f s' t) < (\<Sum>t\<in>T. ?f s t)"
      using sum_decreases [of T t "?f s'" "?f s"] T(1) t by blast
    moreover have "steps_left s' u = steps_left s u" for u
      using others a same step(1) by (cases "u = t") (simp_all add: steps_left_def r)
    ultimately show ?thesis by (simp add: progress_def)
  qed
qed

text \<open>A thread inside its bucket is never stuck, and with nobody inside every lock is free.\<close>

lemma act_enabled:
  assumes "mem_wf m" and "place_ok m c pc" and "own_ok m pc" and "pc \<noteq> Outside"
  shows "\<exists>r. kv_act None junk t c pc m = Some r"
proof -
  have scan: "\<exists>n. km_nodes m a = Some n" if "scan_ok m c (Some a)" for a
    using that bucket_node [OF assms(1), of a "op_key c"] by (auto simp: scan_ok_def hfirst_Some)
  have own: "\<exists>n. km_nodes m a = Some n" if "own_node pc = Some a" for a
    using assms(3) that by (auto simp: own_ok_def)
  show ?thesis using assms(2,4)
    by (cases "(None :: ptr, junk, t, c, pc, m)" rule: kv_act.cases)
      (auto simp: node_key_def dest!: scan, (use own in force)+)
qed

lemma kv_not_stuck:
  assumes inv: "kv_inv s" and todo: "kp_todo s t \<noteq> []"
  shows "\<exists>s'. kv_step s s'"
proof -
  from inv have lk: "locks_ok s" by (simp add: kv_inv_def)
  have go: "\<exists>s'. kv_step s s'"
    if "kp_todo s u \<noteq> []" "kv_act None junk u (cur_op s u) (kp_pc s u) (kp_mem s) = Some r" for u junk r
    using that kv_step.step [of s u "cur_op s u" "tl (kp_todo s u)" None junk r]
    by (auto simp: cur_op_def kmalloc_ok_def)
  show ?thesis
  proof (cases "\<exists>u. inside s u")
    case True
    then obtain u where u: "inside s u" by blast
    then have "kp_todo s u \<noteq> []" using lk by (simp add: locks_ok_def)
    moreover from u have "\<exists>r. kv_act None junk u (cur_op s u) (kp_pc s u) (kp_mem s) = Some r" for junk
      using inv by (intro act_enabled) (simp_all add: kv_inv_def threads_ok_def inside_def)
    ultimately show ?thesis using go by blast
  next
    case False
    then have "kvs_locks (km_store (kp_mem s)) (op_hash (cur_op s t)) \<noteq> Some u" for u
      using lk by (simp add: locks_ok_def)
    moreover have "kp_pc s t = Outside" using False by (simp add: inside_def)
    ultimately have "\<exists>r. kv_act None junk t (cur_op s t) (kp_pc s t) (kp_mem s) = Some r" for junk
      by (cases "kvs_locks (km_store (kp_mem s)) (op_hash (cur_op s t))") (auto simp: spin_lock_def)
    then show ?thesis using go todo by blast
  qed
qed

lemma hist_grows: "kv_step\<^sup>*\<^sup>* s s' \<Longrightarrow> \<exists>d. kp_hist s' = kp_hist s @ d"
proof (induction rule: rtranclp_induct)
  case (step y z)
  moreover have "kp_hist (kv_move t r y) = kp_hist y @ decide t (cur_op y t) (snd (snd r))" for t r
    by (cases r) simp
  then have "\<exists>d. kp_hist z = kp_hist y @ d" using step(2) by (auto elim: kv_step.cases)
  ultimately show ?case by auto
qed simp

text \<open>Runs of a given schedule: the thread that steps and what \<^verbatim>\<open>kmalloc\<close> would answer it.\<close>

fun kv_run :: "(addr \<times> ptr) list \<Rightarrow> kv_proc \<Rightarrow> kv_proc option" where
  "kv_run [] s = Some s"
| "kv_run ((t, p) # sched) s =
     (if kp_todo s t = [] \<or> \<not> kmalloc_ok (kp_mem s) p then None
      else case kv_act p \<lparr>kv_key = 0, kv_value = 0\<rparr> t (cur_op s t) (kp_pc s t) (kp_mem s) of
             None \<Rightarrow> None
           | Some r \<Rightarrow> kv_run sched (kv_move t r s))"

lemma kv_run_steps: "kv_run sched s = Some s' \<Longrightarrow> kv_step\<^sup>*\<^sup>* s s'"
proof (induction sched s rule: kv_run.induct)
  case (2 t p sched s)
  let ?junk = "\<lparr>kv_key = 0, kv_value = 0\<rparr>"
  from 2(2) obtain r where go: "kp_todo s t \<noteq> []" "kmalloc_ok (kp_mem s) p"
      and r: "kv_act p ?junk t (cur_op s t) (kp_pc s t) (kp_mem s) = Some r"
      and run: "kv_run sched (kv_move t r s) = Some s'"
    by (auto split: if_splits option.splits)
  from go(1) have "kp_todo s t = cur_op s t # tl (kp_todo s t)" by (simp add: cur_op_def)
  then have "kv_step s (kv_move t r s)" using go(2) r by (rule kv_step.step)
  moreover have "kv_step\<^sup>*\<^sup>* (kv_move t r s) s'" using 2(1) go r run by blast
  ultimately show ?case by (rule converse_rtranclp_into_rtranclp)
qed simp

definition empty_mem :: kv_mem where
  "empty_mem = \<lparr>km_nodes = Map.empty, km_store = \<lparr>kvs_locks = \<lambda>_. None, kvs_head = \<lambda>_. []\<rparr>\<rparr>"

lemma empty_mem_ok: "mem_wf empty_mem" "kv_unlocked (km_store empty_mem)" "mem_map empty_mem = Map.empty"
  by (auto simp: empty_mem_def kv_wf_def bucket_wf_def kv_unlocked_def kv_lookup_def)

section \<open>Properties\<close>

text \<open>
  C3: However the threads of a process interleave in \<^verbatim>\<open>write_kv\<close> and \<^verbatim>\<open>read_kv\<close>, the calls take effect
  one after the other: the history of answers is a serial execution on an abstract map that ends in
  the map the store represents, it has the calls of every thread in program order with the answers
  that the thread gets, and it only grows, so that a call that has returned comes before every call
  that is decided later. At no time are two threads inside the same bucket.
\<close>

theorem kv_linearizable:
  assumes "mem_wf m" and "kv_unlocked (km_store m)"
    and "kv_step\<^sup>*\<^sup>* (kv_begin m prog) s" and "kv_step\<^sup>*\<^sup>* s s'"
  shows "serial (mem_map m) (kp_hist s') = Some (mem_map (kp_mem s')) \<and>
    (\<exists>d. kp_hist s' = kp_hist s @ d) \<and>
    (\<forall>t. hist_of t (kp_hist s') = kp_done s' t @ undelivered s' t \<and>
         prog t = map fst (kp_done s' t) @ kp_todo s' t) \<and>
    (\<forall>t u. inside s' t \<longrightarrow> inside s' u \<longrightarrow> op_hash (cur_op s' t) = op_hash (cur_op s' u) \<longrightarrow> t = u)"
proof -
  from assms(3,4) have "kv_step\<^sup>*\<^sup>* (kv_begin m prog) s'" by (rule rtranclp_trans)
  then have "kv_inv s'" "hist_ok (mem_map m) prog s'" using kv_inv_reachable assms(1,2) by blast+
  with hist_grows [OF assms(4)] bucket_exclusive [of s'] show ?thesis
    by (simp add: hist_ok_def kv_inv_def)
qed

definition demo_prog :: "addr \<Rightarrow> kv_op list" where
  "demo_prog t = (if t = 2 then [WriteKv 5 70] else if t = 3 then [ReadKv 1029, ReadKv 5] else [])"

text \<open>The reader finds the bucket empty, then the writer runs up to the link, then the reader again.\<close>

definition demo_sched :: "(addr \<times> ptr) list" where
  "demo_sched = replicate 5 (3, None) @ replicate 3 (2, None) @ [(2, Some 9)] @ replicate 4 (2, None) @
     replicate 4 (3, None)"

lemma demo_kv_run:
  "\<exists>s. kv_run demo_sched (kv_begin empty_mem demo_prog) = Some s \<and>
     kp_hist s = [(3, ReadKv 1029, -1), (2, WriteKv 5 70, 4), (3, ReadKv 5, 70)]"
  by (simp add: demo_sched_def demo_prog_def empty_mem_def kv_begin_def numeral_eq_Suc kmalloc_ok_def
      kv_move_def cur_op_def spin_lock_def spin_unlock_def kv_hash_def decide_def hnext_def Let_def)

theorem kv_linearizable_witness:
  "\<exists>s. kv_step\<^sup>*\<^sup>* (kv_begin empty_mem demo_prog) s \<and>
     kp_hist s = [(3, ReadKv 1029, -1), (2, WriteKv 5 70, 4), (3, ReadKv 5, 70)] \<and>
     serial (mem_map empty_mem) (kp_hist s) = Some (mem_map (kp_mem s))"
proof -
  from demo_kv_run obtain s where s: "kv_run demo_sched (kv_begin empty_mem demo_prog) = Some s"
    "kp_hist s = [(3, ReadKv 1029, -1), (2, WriteKv 5 70, 4), (3, ReadKv 5, 70)]" by blast
  from kv_run_steps [OF s(1)] have "kv_step\<^sup>*\<^sup>* (kv_begin empty_mem demo_prog) s" .
  with s kv_linearizable [OF empty_mem_ok(1,2) this rtranclp.rtrancl_refl] show ?thesis by blast
qed

text \<open>
  C13: The threads of a process always get their answers: no schedule of the steps is infinite, and a
  run stops only when every thread has made all its calls and every lock is free. So the bucket
  locks cannot deadlock, and the loop over a bucket cannot run forever.
\<close>

theorem kv_runs_end:
  assumes "mem_wf m" and "kv_unlocked (km_store m)" and "finite {t. prog t \<noteq> []}"
  shows "\<not> (\<exists>f. f 0 = kv_begin m prog \<and> (\<forall>n. kv_step (f n) (f (Suc n)))) \<and>
    (\<forall>s. kv_step\<^sup>*\<^sup>* (kv_begin m prog) s \<and> \<not> (\<exists>s'. kv_step s s') \<longrightarrow>
       kv_unlocked (km_store (kp_mem s)) \<and> (\<forall>t. map fst (kp_done s t) = prog t))"
proof (intro conjI notI allI impI)
  let ?T = "{t. prog t \<noteq> []}"
  assume "\<exists>f. f 0 = kv_begin m prog \<and> (\<forall>n. kv_step (f n) (f (Suc n)))"
  then obtain f where f: "f 0 = kv_begin m prog" "\<And>n. kv_step (f n) (f (Suc n))" by blast
  have "kv_step\<^sup>*\<^sup>* (kv_begin m prog) (f n)" for n
    by (induction n) (auto simp: f(1) intro: rtranclp.rtrancl_into_rtrancl f(2))
  then have inv: "kv_inv (f n)" and hist: "hist_ok (mem_map m) prog (f n)" for n
    using kv_inv_reachable assms(1,2) by blast+
  have "t \<in> ?T" if "kp_todo (f n) t \<noteq> []" for n t
  proof -
    have "prog t = map fst (kp_done (f n) t) @ kp_todo (f n) t" using hist [of n] by (simp add: hist_ok_def)
    with that show ?thesis by simp
  qed
  then have "(f (Suc n), f n) \<in> progress ?T" for n
    using step_progress [OF f(2) inv assms(3)] by blast
  then show False using progress_wf wf_iff_no_infinite_down_chain by blast
next
  fix s assume s: "kv_step\<^sup>*\<^sup>* (kv_begin m prog) s \<and> \<not> (\<exists>s'. kv_step s s')"
  then have inv: "kv_inv s" and hist: "hist_ok (mem_map m) prog s"
    using kv_inv_reachable assms(1,2) by blast+
  have todo: "kp_todo s t = []" for t using kv_not_stuck [OF inv] s by blast
  then show "map fst (kp_done s t) = prog t" for t using hist by (simp add: hist_ok_def)
  show "kv_unlocked (km_store (kp_mem s))"
    using inv todo by (simp add: kv_inv_def locks_ok_def kv_unlocked_def) (metis not_None_eq)
qed

theorem kv_runs_end_witness:
  "\<not> (\<exists>f. f 0 = kv_begin empty_mem demo_prog \<and> (\<forall>n. kv_step (f n) (f (Suc n))))"
proof -
  have "finite {t. demo_prog t \<noteq> []}"
    by (rule finite_subset [of _ "{2, 3}"]) (auto simp: demo_prog_def)
  from kv_runs_end [OF empty_mem_ok(1,2) this] show ?thesis by blast
qed

end
