(* ===== verification/Kv_User.thy ===== *)
theory Kv_User
  imports Kv_Store
begin

text \<open>
  The key-value calls as a program sees them: the inline functions of
  \<^verbatim>\<open>syscall/kv_syscall/kv_syscalls.h\<close> and the Lua functions of \<^verbatim>\<open>kv_lua_binding.c\<close>, through the C
  library's \<^verbatim>\<open>syscall\<close>, the entries 449 and 450 of \<^verbatim>\<open>syscall_64.tbl\<close> and the argument casts of
  \<^verbatim>\<open>SYSCALL_DEFINEx\<close>, down to the kernel's store.
\<close>

section \<open>From the program to the kernel\<close>

text \<open>
  An \<^verbatim>\<open>int\<close> that is passed for a variable argument occupies the low half of a register; what the high
  half holds is not specified.
\<close>

definition vararg_int :: "u32 \<Rightarrow> c_int \<Rightarrow> c_long" where
  "vararg_int high k = push_bit 32 (ucast high) OR ucast k"

text \<open>
  \<^verbatim>\<open>syscall\<close> of the C library: a result of the kernel between -4095 and -1 is an error number, which
  goes to \<^verbatim>\<open>errno\<close>, and the function returns -1. The first component is the new \<^verbatim>\<open>errno\<close>, if it is set.
\<close>

definition libc_ret :: "c_long \<Rightarrow> c_int option \<times> c_long" where
  "libc_ret r = (if -4095 \<le> sint r \<and> sint r \<le> -1 then (Some (ucast (- r)), -1) else (None, r))"

section \<open>Entry into the kernel\<close>

text \<open>
  The wrapper that \<^verbatim>\<open>SYSCALL_DEFINEx\<close> generates takes every argument as a long and casts it to the
  declared type.
\<close>

definition sc_cast_int :: "c_long \<Rightarrow> c_int" where
  "sc_cast_int a = ucast a"

record kv_call =
  kc_kmalloc :: ptr
  kc_cur :: addr
  kc_task :: task_struct
  kc_high :: "nat \<Rightarrow> u32"
  kc_other :: "nat \<Rightarrow> c_long list \<Rightarrow> kv_heap \<Rightarrow> (c_long \<times> kv_heap) kv_result"

definition se_sys_write_kv :: "kv_call \<Rightarrow> c_long \<Rightarrow> c_long \<Rightarrow> kv_heap \<Rightarrow> (c_long \<times> kv_heap) kv_result" where
  "se_sys_write_kv E k v = sys_write_kv (kc_kmalloc E) (kc_cur E) (kc_task E) (sc_cast_int k) (sc_cast_int v)"

definition se_sys_read_kv :: "kv_call \<Rightarrow> c_long \<Rightarrow> kv_heap \<Rightarrow> (c_long \<times> kv_heap) kv_result" where
  "se_sys_read_kv E k = sys_read_kv (kc_cur E) (kc_task E) (sc_cast_int k)"

definition sys_call_table :: "kv_call \<Rightarrow> nat \<Rightarrow> c_long list \<Rightarrow> kv_heap \<Rightarrow> (c_long \<times> kv_heap) kv_result" where
  "sys_call_table E nr args =
     (if nr = 449 then se_sys_write_kv E (args ! 0) (args ! 1)
      else if nr = 450 then se_sys_read_kv E (args ! 0)
      else kc_other E nr args)"

definition libc_syscall ::
    "kv_call \<Rightarrow> nat \<Rightarrow> c_long list \<Rightarrow> kv_heap \<Rightarrow> ((c_int option \<times> c_long) \<times> kv_heap) kv_result" where
  "libc_syscall E nr args H =
     (case sys_call_table E nr args H of
        Oops \<Rightarrow> Oops
      | Blocked \<Rightarrow> Blocked
      | Done (r, H') \<Rightarrow> Done (libc_ret r, H'))"

section \<open>The functions of the program\<close>

abbreviation NR_write_kv :: nat where "NR_write_kv \<equiv> 449"
abbreviation NR_read_kv :: nat where "NR_read_kv \<equiv> 450"

text \<open>The result, a long, is converted to the \<^verbatim>\<open>int\<close> that the functions return.\<close>

definition as_int ::
    "((c_int option \<times> c_long) \<times> kv_heap) kv_result \<Rightarrow> (c_int option \<times> c_int \<times> kv_heap) kv_result" where
  "as_int x = (case x of Oops \<Rightarrow> Oops | Blocked \<Rightarrow> Blocked | Done ((e, r), H) \<Rightarrow> Done (e, ucast r, H))"

definition write_kv :: "kv_call \<Rightarrow> c_int \<Rightarrow> c_int \<Rightarrow> kv_heap \<Rightarrow> (c_int option \<times> c_int \<times> kv_heap) kv_result" where
  "write_kv E k v H =
     as_int (libc_syscall E NR_write_kv [vararg_int (kc_high E 0) k, vararg_int (kc_high E 1) v] H)"

definition read_kv :: "kv_call \<Rightarrow> c_int \<Rightarrow> kv_heap \<Rightarrow> (c_int option \<times> c_int \<times> kv_heap) kv_result" where
  "read_kv E k H = as_int (libc_syscall E NR_read_kv [vararg_int (kc_high E 0) k] H)"

text \<open>
  The Lua functions. \<open>check L i\<close> is what \<^verbatim>\<open>luaL_checkinteger(L, i)\<close> returns, a 64-bit integer, or
  \<open>None\<close> when it raises a Lua error; the result is the integer that is pushed.
\<close>

definition lua_write_kv ::
    "('l \<Rightarrow> nat \<Rightarrow> c_long option) \<Rightarrow> kv_call \<Rightarrow> 'l \<Rightarrow> kv_heap \<Rightarrow> (c_long \<times> kv_heap) kv_result option" where
  "lua_write_kv check E L H =
     Option.bind (check L 1) (\<lambda>a. Option.bind (check L 2) (\<lambda>b.
       let key = ucast a; value = ucast b in
       Some (case libc_syscall E NR_write_kv [vararg_int (kc_high E 0) key, vararg_int (kc_high E 1) value] H of
               Oops \<Rightarrow> Oops | Blocked \<Rightarrow> Blocked | Done ((e, r), H') \<Rightarrow> Done (r, H'))))"

definition lua_read_kv ::
    "('l \<Rightarrow> nat \<Rightarrow> c_long option) \<Rightarrow> kv_call \<Rightarrow> 'l \<Rightarrow> kv_heap \<Rightarrow> (c_long \<times> kv_heap) kv_result option" where
  "lua_read_kv check E L H =
     Option.bind (check L 1) (\<lambda>a.
       let key = ucast a in
       Some (case libc_syscall E NR_read_kv [vararg_int (kc_high E 0) key] H of
               Oops \<Rightarrow> Oops | Blocked \<Rightarrow> Blocked | Done ((e, r), H') \<Rightarrow> Done (r, H')))"

section \<open>Lemmas\<close>

text \<open>The cast undoes whatever the high half of the register holds.\<close>

lemma sc_cast_vararg [simp]: "sc_cast_int (vararg_int high k) = k"
  by (rule bit_word_eqI) (auto simp: sc_cast_int_def vararg_int_def bit_simps)

text \<open>The values that the C library takes for an error number.\<close>

definition errno_like :: "c_int \<Rightarrow> bool" where
  "errno_like v \<longleftrightarrow> -4095 \<le> sint v \<and> sint v \<le> -1"

lemma sint_scast_long: "sint (scast (v :: c_int) :: c_long) = sint v"
  using sint_greater_eq [of v] sint_less [of v] by (simp add: signed_scast_eq signed_take_bit_int_eq_self)

lemma ucast_minus_scast: "(ucast (- (scast (v :: c_int) :: c_long)) :: c_int) = - v"
proof -
  have "(ucast (- (scast v :: u64) + scast v) :: c_int) = ucast (- (scast v :: u64)) + ucast (scast v :: u64)"
    by (rule ucast_int_add)
  then show ?thesis by (simp add: ucast_scast_id eq_neg_iff_add_eq_0)
qed

lemma ucast_minus_one [simp]: "(ucast (-1 :: c_long) :: c_int) = -1"
  by (rule bit_word_eqI) (simp add: bit_simps)

lemma libc_ret_int:
  "libc_ret (scast (v :: c_int)) = (if errno_like v then (Some (- v), -1) else (None, scast v))"
  by (simp add: libc_ret_def errno_like_def sint_scast_long ucast_minus_scast)

text \<open>What the program gets for a stored value.\<close>

definition user_value :: "c_int \<Rightarrow> c_int option \<times> c_int" where
  "user_value v = (if errno_like v then (Some (- v), -1) else (None, v))"

lemma user_value_ret:
  "(case libc_ret (scast v) of (e, r) \<Rightarrow> (e, ucast r)) = user_value v"
  by (simp add: libc_ret_int user_value_def ucast_scast_id)

lemma read_kv_spec:
  assumes "kv_ok (kc_task E) H"
  shows "read_kv E k H =
    (case user_value (case kv_map_of (kc_task E) H k of None \<Rightarrow> -1 | Some v \<Rightarrow> v) of
       (e, r) \<Rightarrow> Done (e, r, H))"
  using assms user_value_ret [of "case kv_map_of (kc_task E) H k of None \<Rightarrow> -1 | Some v \<Rightarrow> v"]
  by (auto simp: read_kv_def libc_syscall_def sys_call_table_def se_sys_read_kv_def kv_ok_def
      sys_read_kv_spec as_int_def split: prod.splits)

lemma libc_ret_size [simp]: "libc_ret 4 = (None, 4)"
  by (simp add: libc_ret_def)

lemma write_kv_done:
  assumes "sys_write_kv (kc_kmalloc E) (kc_cur E) (kc_task E) k v H = Done (4, H')"
  shows "write_kv E k v H = Done (None, 4, H')"
  using assms by (simp add: write_kv_def libc_syscall_def sys_call_table_def se_sys_write_kv_def as_int_def)

text \<open>
  A write that fails returns -1 and sets \<^verbatim>\<open>errno\<close> to 1, which is \<^verbatim>\<open>EPERM\<close>.
\<close>

lemma write_kv_failed:
  assumes "sys_write_kv (kc_kmalloc E) (kc_cur E) (kc_task E) k v H = Done (-1, H')"
  shows "write_kv E k v H = Done (Some 1, -1, H')"
  using assms libc_ret_int [of "-1"]
  by (simp add: write_kv_def libc_syscall_def sys_call_table_def se_sys_write_kv_def as_int_def errno_like_def)

section \<open>The calls as a key-value map\<close>

definition user_put :: "kv_call \<Rightarrow> ptr \<Rightarrow> kv_heap \<Rightarrow> c_int \<Rightarrow> c_int \<Rightarrow> kv_heap option" where
  "user_put E a H k v =
     (case write_kv (E\<lparr>kc_kmalloc := a\<rparr>) k v H of
        Done (e, r, H') \<Rightarrow> if r = 4 then Some H' else None
      | _ \<Rightarrow> None)"

definition user_get :: "kv_call \<Rightarrow> kv_heap \<Rightarrow> c_int \<Rightarrow> (c_int option \<times> c_int) option" where
  "user_get E H k = (case read_kv E k H of Done (e, r, H') \<Rightarrow> Some (e, r) | _ \<Rightarrow> None)"

lemma user_put_is_kv_put:
  assumes "kv_ok (kc_task E) H" and "kv_can_alloc H a"
  shows "user_put E a H k v = kv_put (kc_cur E) (kc_task E) a H k v"
proof -
  obtain H' where "sys_write_kv a (kc_cur E) (kc_task E) k v H = Done (4, H')"
    using assms sys_write_kv_spec [of H "kc_task E" a k "kc_cur E" v]
    by (auto simp: kv_ok_def kv_can_alloc_def)
  then show ?thesis by (simp add: user_put_def kv_put_def write_kv_done)
qed

interpretation ukv: kv_map
  "kv_ok (kc_task E)" "kv_map_of (kc_task E)" kv_can_alloc "user_put E" "user_get E"
  "Some (user_value (-1))" "\<lambda>v. Some (user_value v)"
  for E
proof unfold_locales
  fix H :: kv_heap and a k v H'
  assume inv: "kv_ok (kc_task E) H"
  show "user_get E H k =
      (case kv_map_of (kc_task E) H k of None \<Rightarrow> Some (user_value (-1)) | Some v \<Rightarrow> Some (user_value v))"
    by (simp add: user_get_def read_kv_spec [OF inv] split: prod.splits option.splits)
  assume rdy: "kv_can_alloc H a"
  note eq = user_put_is_kv_put [OF inv rdy, of k v]
  show "\<exists>H'. user_put E a H k v = Some H'" unfolding eq using inv rdy by (rule kvk.put_total)
  assume "user_put E a H k v = Some H'"
  then have "kv_put (kc_cur E) (kc_task E) a H k v = Some H'" unfolding eq .
  from kvk.put_invar [OF inv rdy this] kvk.put_lookup [OF inv rdy this]
  show "kv_ok (kc_task E) H'" "kv_map_of (kc_task E) H' = (kv_map_of (kc_task E) H)(k \<mapsto> v)" .
qed

fun user_writes :: "kv_call \<Rightarrow> kv_heap \<Rightarrow> (ptr \<times> c_int \<times> c_int) list \<Rightarrow> kv_heap option" where
  "user_writes E H [] = Some H"
| "user_writes E H ((a, k, v) # ws) =
     (if kv_can_alloc H a then Option.bind (user_put E a H k v) (\<lambda>H. user_writes E H ws) else None)"

lemma user_writes_run: "user_writes E H ws = ukv.run_puts E H ws"
  by (induction E H ws rule: user_writes.induct) (auto split: option.splits Option.bind_split)

section \<open>Properties\<close>

text \<open>
  C8: A program that writes through \<^verbatim>\<open>write_kv\<close> reads back through \<^verbatim>\<open>read_kv\<close> the last value it wrote to
  the key, whatever the unused halves of the argument registers hold, unless that value lies between
  -4095 and -1: the C library takes such a result for an error number, and the program gets -1 with
  \<^verbatim>\<open>errno\<close> set to the negated value. A key that was not written gives what it gave before.
\<close>

theorem user_read_last_write:
  assumes "kv_heap_wf H" and "kv_live (kc_task E) H" and "user_writes E H ws = Some H'"
  shows "user_get E H' k =
    (case map_of (rev (map snd ws)) k of
       None \<Rightarrow> user_get E H k
     | Some v \<Rightarrow> Some (if -4095 \<le> sint v \<and> sint v \<le> -1 then (Some (- v), -1) else (None, v)))"
proof -
  have "user_get E H' k =
      (case map_of (rev (map snd ws)) k of None \<Rightarrow> user_get E H k | Some v \<Rightarrow> Some (user_value v))"
    using assms by (intro ukv.get_run_puts) (simp_all add: user_writes_run kv_ok_def)
  then show ?thesis by (simp add: user_value_def errno_like_def split: option.splits)
qed

definition demo_call :: kv_call where
  "demo_call = \<lparr>kc_kmalloc = None, kc_cur = 2, kc_task = demo_task, kc_high = (\<lambda>i. 0xDEADBEEF),
     kc_other = (\<lambda>nr args H. Done (-38, H))\<rparr>"

theorem user_read_last_write_witness:
  "\<exists>H'. user_writes demo_call demo_heap [(Some 60, 5, 10), (Some 61, 5 + 1024, -22)] = Some H' \<and>
     user_get demo_call H' 5 = Some (None, 10) \<and> user_get demo_call H' 1029 = Some (Some 22, -1)"
proof -
  let ?ws = "[(Some 60, 5, 10), (Some 61, 5 + 1024, -22)]"
  have ok: "kv_ok demo_task demo_heap" by (simp add: kv_ok_def demo_heap_wf demo_live)
  have "kv_writes 2 demo_task demo_heap ?ws \<noteq> None"
    by (simp add: kv_put_def sys_write_kv_def demo_task_def demo_heap_def init_buckets_clean
        spin_lock_def kv_can_alloc_def kv_fresh_def kv_hash_def spin_unlock_def Let_def)
  moreover have "user_writes demo_call H ws = kv_writes 2 demo_task H ws" if "kv_ok demo_task H" for H ws
    using that
    by (induction demo_call H ws rule: user_writes.induct)
      (auto simp: demo_call_def user_put_is_kv_put dest: kvk.put_invar split: Option.bind_split option.splits)
  ultimately obtain H' where H': "user_writes demo_call demo_heap ?ws = Some H'" using ok by (metis not_None_eq)
  have t: "kc_task demo_call = demo_task" by (simp add: demo_call_def)
  show ?thesis
    using H' user_read_last_write [OF demo_heap_wf _ H', unfolded t, OF demo_live, of 5]
      user_read_last_write [OF demo_heap_wf _ H', unfolded t, OF demo_live, of 1029]
    by auto
qed

text \<open>
  From Lua, where integers have 64 bits, \<^verbatim>\<open>write_kv\<close> and \<^verbatim>\<open>read_kv\<close> do what the C functions do on the
  low 32 bits of their arguments, and push the sign-extended result. An argument that is not an
  integer raises an error before the kernel is entered.
\<close>

theorem lua_kv_agrees:
  assumes "kv_heap_wf H" and "kv_live (kc_task E) H" and "kv_fresh H (kc_kmalloc E)"
  shows "lua_read_kv check E L H =
      map_option (\<lambda>a. case read_kv E (ucast a) H of
        Oops \<Rightarrow> Oops | Blocked \<Rightarrow> Blocked | Done (e, r, H') \<Rightarrow> Done (scast r, H')) (check L 1) \<and>
    lua_write_kv check E L H =
      Option.bind (check L 1) (\<lambda>a. map_option (\<lambda>b. case write_kv E (ucast a) (ucast b) H of
        Oops \<Rightarrow> Oops | Blocked \<Rightarrow> Blocked | Done (e, r, H') \<Rightarrow> Done (scast r, H')) (check L 2))"
proof
  have ok: "kv_ok (kc_task E) H" using assms(1,2) by (simp add: kv_ok_def)
  note defs = libc_syscall_def sys_call_table_def
  have "(case libc_syscall E NR_read_kv [vararg_int h (ucast a)] H of
          Oops \<Rightarrow> Oops | Blocked \<Rightarrow> Blocked | Done ((e, r), H') \<Rightarrow> Done (r, H')) =
        (case read_kv E (ucast a) H of
          Oops \<Rightarrow> Oops | Blocked \<Rightarrow> Blocked | Done (e, r, H') \<Rightarrow> Done (scast r, H'))" for a :: c_long and h
    using assms(1,2)
    by (simp add: read_kv_spec [OF ok] defs se_sys_read_kv_def sys_read_kv_spec libc_ret_int user_value_def)
  then show "lua_read_kv check E L H = map_option (\<lambda>a. case read_kv E (ucast a) H of
        Oops \<Rightarrow> Oops | Blocked \<Rightarrow> Blocked | Done (e, r, H') \<Rightarrow> Done (scast r, H')) (check L 1)"
    by (cases "check L 1") (simp_all add: lua_read_kv_def)
  have "(case libc_syscall E NR_write_kv [vararg_int g (ucast a), vararg_int h (ucast b)] H of
          Oops \<Rightarrow> Oops | Blocked \<Rightarrow> Blocked | Done ((e, r), H') \<Rightarrow> Done (r, H')) =
        (case write_kv E (ucast a) (ucast b) H of
          Oops \<Rightarrow> Oops | Blocked \<Rightarrow> Blocked | Done (e, r, H') \<Rightarrow> Done (scast r, H'))" for a b :: c_long and g h
    using sys_write_kv_spec [OF assms, of "ucast a" "kc_cur E" "ucast b"] libc_ret_int [of "-1"]
    by (auto simp: defs write_kv_done write_kv_failed se_sys_write_kv_def errno_like_def split: if_splits)
  then show "lua_write_kv check E L H =
      Option.bind (check L 1) (\<lambda>a. map_option (\<lambda>b. case write_kv E (ucast a) (ucast b) H of
        Oops \<Rightarrow> Oops | Blocked \<Rightarrow> Blocked | Done (e, r, H') \<Rightarrow> Done (scast r, H')) (check L 2))"
    by (cases "check L 1"; cases "check L 2") (simp_all add: lua_write_kv_def)
qed

theorem lua_kv_agrees_witness:
  "lua_read_kv (\<lambda>L i. L i) demo_call (\<lambda>i. Some 0x100000005) demo_heap = Some (Done (-1, demo_heap))"
proof -
  have "kv_live (kc_task demo_call) demo_heap" "kv_fresh demo_heap (kc_kmalloc demo_call)"
    by (simp_all add: demo_call_def demo_live kv_fresh_def)
  from lua_kv_agrees [OF demo_heap_wf this, of "\<lambda>L i. L i" "\<lambda>i. Some 0x100000005"]
  show ?thesis
    using read_kv_spec [of demo_call demo_heap "0x100000005"] demo_heap_wf demo_live
    by (simp add: kv_ok_def demo_call_def demo_map user_value_def errno_like_def)
qed

end
