(* ===== verification/Kv_Patch.thy ===== *)
theory Kv_Patch
  imports Kv_Store
begin

text \<open>
  \<^verbatim>\<open>syscall/kv_syscall/kv_store.patch\<close>: a version of the key-value store whose life time is managed. The
  structure has a reference counter, a new thread takes a reference in \<^verbatim>\<open>copy_process\<close>, and \<^verbatim>\<open>do_exit\<close>
  gives it back; the last one frees the nodes and the store. The two system calls have the bodies of
  \<open>Kv_Store\<close>. The theory follows the tasks of a system through forks, failed forks, calls and exits.
  \<^verbatim>\<open>refcount_t\<close> saturates instead of wrapping; the counters here are integers.
\<close>

section \<open>Operations\<close>

text \<open>The field \<^verbatim>\<open>ref_cnt\<close> of the store at an address, beside the heap of stores and nodes.\<close>

record rkv =
  rk_heap :: kv_heap
  rk_ref :: "addr \<rightharpoonup> int"

definition kv_store_write ::
    "ptr \<Rightarrow> addr \<Rightarrow> task_struct \<Rightarrow> c_int \<Rightarrow> c_int \<Rightarrow> rkv \<Rightarrow> (c_long \<times> rkv) kv_result" where
  "kv_store_write kmalloc cur task k v S =
     (case sys_write_kv kmalloc cur task k v (rk_heap S) of
        Oops \<Rightarrow> Oops | Blocked \<Rightarrow> Blocked | Done (r, H) \<Rightarrow> Done (r, S\<lparr>rk_heap := H\<rparr>))"

definition kv_store_read :: "addr \<Rightarrow> task_struct \<Rightarrow> c_int \<Rightarrow> rkv \<Rightarrow> (c_long \<times> rkv) kv_result" where
  "kv_store_read cur task k S =
     (case sys_read_kv cur task k (rk_heap S) of
        Oops \<Rightarrow> Oops | Blocked \<Rightarrow> Blocked | Done (r, H) \<Rightarrow> Done (r, S\<lparr>rk_heap := H\<rparr>))"

definition init_kv_store :: "ptr \<Rightarrow> kv_store \<Rightarrow> task_struct \<Rightarrow> rkv \<Rightarrow> task_struct \<times> rkv" where
  "init_kv_store kmalloc junk task S =
     (let task = task\<lparr>ts_kv := kmalloc\<rparr> in
      case kmalloc of
        None \<Rightarrow> (task, S)
      | Some s \<Rightarrow>
          (task, S\<lparr>rk_ref := (rk_ref S)(s \<mapsto> 1),
                   rk_heap := (rk_heap S)\<lparr>kh_stores := (kh_stores (rk_heap S))(s \<mapsto> init_buckets KV_BUCKETS 0 junk)\<rparr>\<rparr>))"

text \<open>The insertion into \<^verbatim>\<open>copy_process\<close>; \<open>thread\<close> is \<^verbatim>\<open>clone_flags & CLONE_THREAD\<close>.\<close>

definition fork_kv ::
    "bool \<Rightarrow> ptr \<Rightarrow> kv_store \<Rightarrow> task_struct \<Rightarrow> task_struct \<Rightarrow> rkv \<Rightarrow> (task_struct \<times> rkv) kv_result" where
  "fork_kv thread kmalloc junk current p S =
     (if thread then
        let p = p\<lparr>ts_kv := ts_kv current\<rparr> in
        case ts_kv p of None \<Rightarrow> Oops | Some s \<Rightarrow>
        case rk_ref S s of None \<Rightarrow> Oops | Some n \<Rightarrow>
        Done (p, S\<lparr>rk_ref := (rk_ref S)(s \<mapsto> n + 1)\<rparr>)
      else Done (init_kv_store kmalloc junk p S))"

definition cleanup_kv_store :: "addr \<Rightarrow> task_struct \<Rightarrow> rkv \<Rightarrow> (task_struct \<times> rkv) kv_result" where
  "cleanup_kv_store cur task S =
     (case ts_kv task of None \<Rightarrow> Done (task, S) | Some s \<Rightarrow>
      case rk_ref S s of None \<Rightarrow> Oops | Some n \<Rightarrow>
      let S = S\<lparr>rk_ref := (rk_ref S)(s \<mapsto> n - 1)\<rparr> in
      if n - 1 \<noteq> 0 then Done (task, S)
      else
        case kh_stores (rk_heap S) s of None \<Rightarrow> Oops | Some st \<Rightarrow>
        case cleanup_buckets KV_BUCKETS 0 cur st (kh_nodes (rk_heap S)) of
          Oops \<Rightarrow> Oops
        | Blocked \<Rightarrow> Blocked
        | Done (st, N) \<Rightarrow>
            Done (task\<lparr>ts_kv := None\<rparr>,
              S\<lparr>rk_ref := (rk_ref S)(s := None),
                rk_heap := (rk_heap S)\<lparr>kh_nodes := N, kh_stores := (kh_stores (rk_heap S))(s := None)\<rparr>\<rparr>))"

section \<open>Runs\<close>

text \<open>
  The tasks of the system, the stores, and for every store the number of references that failed forks
  have taken: \<^verbatim>\<open>copy_process\<close> may fail after the insertion, and its error labels do not undo it.
\<close>

record rkv_sys =
  ry_tasks :: "addr \<rightharpoonup> task_struct"
  ry_st :: rkv
  ry_lost :: "addr \<Rightarrow> nat"

definition kmalloc_fresh :: "ptr \<Rightarrow> rkv \<Rightarrow> bool" where
  "kmalloc_fresh a S \<longleftrightarrow> kv_fresh (rk_heap S) a \<and> (\<forall>s. a = Some s \<longrightarrow> s \<notin> dom (kh_stores (rk_heap S)))"

inductive rkv_step :: "rkv_sys \<Rightarrow> rkv_sys \<Rightarrow> bool" where
  forks: "ry_tasks Y t = Some cur \<Longrightarrow> ry_tasks Y c = None \<Longrightarrow> kmalloc_fresh a (ry_st Y) \<Longrightarrow>
    fork_kv thread a junk cur p (ry_st Y) = Done (p', S) \<Longrightarrow>
    rkv_step Y (Y\<lparr>ry_tasks := (ry_tasks Y)(c \<mapsto> p'), ry_st := S\<rparr>)"
| fork_fails: "ry_tasks Y t = Some cur \<Longrightarrow> kmalloc_fresh a (ry_st Y) \<Longrightarrow>
    fork_kv thread a junk cur p (ry_st Y) = Done (p', S) \<Longrightarrow>
    rkv_step Y (Y\<lparr>ry_st := S, ry_lost := (case ts_kv p' of None \<Rightarrow> ry_lost Y
       | Some s \<Rightarrow> (ry_lost Y)(s := ry_lost Y s + 1))\<rparr>)"
| writes: "ry_tasks Y t = Some cur \<Longrightarrow> kmalloc_fresh a (ry_st Y) \<Longrightarrow>
    kv_store_write a t cur k v (ry_st Y) = Done (r, S) \<Longrightarrow> rkv_step Y (Y\<lparr>ry_st := S\<rparr>)"
| reads: "ry_tasks Y t = Some cur \<Longrightarrow> kv_store_read t cur k (ry_st Y) = Done (r, S) \<Longrightarrow>
    rkv_step Y (Y\<lparr>ry_st := S\<rparr>)"
| exits: "ry_tasks Y t = Some cur \<Longrightarrow> cleanup_kv_store t cur (ry_st Y) = Done (cur', S) \<Longrightarrow>
    rkv_step Y (Y\<lparr>ry_tasks := (ry_tasks Y)(t := None), ry_st := S\<rparr>)"

definition kv_users :: "(addr \<rightharpoonup> task_struct) \<Rightarrow> addr \<Rightarrow> addr set" where
  "kv_users T s = {t. \<exists>x. T t = Some x \<and> ts_kv x = Some s}"

text \<open>A heap between two calls: well-formed, all locks free, and no node outside of the stores.\<close>

definition heap_ok :: "kv_heap \<Rightarrow> bool" where
  "heap_ok H \<longleftrightarrow> kv_heap_wf H \<and> (\<forall>st \<in> ran (kh_stores H). kv_unlocked st) \<and>
     dom (kh_nodes H) \<subseteq> (\<Union>st \<in> ran (kh_stores H). store_nodes st)"

text \<open>
  The counter \<open>r\<close> of a store with the users \<open>U\<close> and \<open>l\<close> lost references: exact and positive. A store
  that is not there has neither.
\<close>

definition ref_exact :: "addr set \<Rightarrow> nat \<Rightarrow> int option \<Rightarrow> bool" where
  "ref_exact U l r \<longleftrightarrow>
     (case r of Some n \<Rightarrow> n = int (card U + l) \<and> 0 < n | None \<Rightarrow> U = {} \<and> l = 0)"

lemma ref_exact_simps [simp]:
  "ref_exact U l (Some n) \<longleftrightarrow> n = int (card U + l) \<and> 0 < n"
  "ref_exact U l None \<longleftrightarrow> U = {} \<and> l = 0"
  by (simp_all add: ref_exact_def)

definition refs_ok :: "(addr \<rightharpoonup> task_struct) \<Rightarrow> (addr \<Rightarrow> nat) \<Rightarrow> rkv \<Rightarrow> bool" where
  "refs_ok T lost S \<longleftrightarrow> finite (dom T) \<and> dom (rk_ref S) = dom (kh_stores (rk_heap S)) \<and>
     (\<forall>s. ref_exact (kv_users T s) (lost s) (rk_ref S s))"

definition rkv_inv :: "rkv_sys \<Rightarrow> bool" where
  "rkv_inv Y \<longleftrightarrow> heap_ok (rk_heap (ry_st Y)) \<and> refs_ok (ry_tasks Y) (ry_lost Y) (ry_st Y)"

section \<open>Each operation keeps the heap\<close>

lemma heap_okD:
  assumes "heap_ok H" and "kh_stores H s = Some st"
  shows "kv_heap_wf H" "kv_unlocked st" "ts_kv t = Some s \<Longrightarrow> kv_live t H"
  using assms by (auto simp: heap_ok_def kv_live_def ran_def)

text \<open>A write replaces one store, keeps its nodes and adds no node that is not in it.\<close>

lemma write_shape:
  assumes wf: "kv_heap_wf H" and s: "ts_kv t = Some s" "kh_stores H s = Some st" and ul: "kv_unlocked st"
    and w: "sys_write_kv a cur t k v H = Done (r, H')"
  obtains N st' where "H' = H\<lparr>kh_nodes := N, kh_stores := (kh_stores H)(s \<mapsto> st')\<rparr>" "kv_unlocked st'"
    "store_nodes st \<subseteq> store_nodes st'" "dom N \<subseteq> dom (kh_nodes H) \<union> store_nodes st'"
proof (cases "kv_map_of t H k")
  case (Some x)
  then have "kv_map_of t H k \<noteq> None" by simp
  from write_existing [OF wf s kv_unlocked_lock [OF ul] this, of a cur v] obtain b n where
    b: "b \<in> store_nodes st" "sys_write_kv a cur t k v H =
      Done (4, H\<lparr>kh_nodes := (kh_nodes H)(b \<mapsto> n\<lparr>kv_value := v\<rparr>), kh_stores := (kh_stores H)(s \<mapsto> st)\<rparr>)" by blast
  with w ul show ?thesis by (intro that [of st "(kh_nodes H)(b \<mapsto> n\<lparr>kv_value := v\<rparr>)"]) auto
next
  case None
  note new = write_new [OF wf s kv_unlocked_lock [OF ul] None, of a cur v]
  show ?thesis
  proof (cases a)
    case None
    with new w ul show ?thesis by (intro that [of st "kh_nodes H"]) auto
  next
    case (Some b)
    with new w ul show ?thesis
      by (intro that [of "push_node k b st" "(kh_nodes H)(b \<mapsto> \<lparr>kv_key = k, kv_value = v\<rparr>)"])
        (auto simp: store_nodes_push)
  qed
qed

lemma heap_ok_write:
  assumes ok: "heap_ok H" and a: "kv_fresh H a" and w: "sys_write_kv a cur t k v H = Done (r, H')"
  shows "heap_ok H'" and "dom (kh_stores H') = dom (kh_stores H)"
proof -
  from w obtain s st where s: "ts_kv t = Some s" "kh_stores H s = Some st"
    by (auto simp: sys_write_kv_def split: option.splits)
  note wf = heap_okD [OF ok s(2)]
  have H': "kv_heap_wf H'"
    using sys_write_kv_spec [OF wf(1) wf(3) [OF s(1)] a, of k cur v] w wf(1)
    by (auto simp: kv_updates_def split: if_splits)
  obtain N st' where N: "H' = H\<lparr>kh_nodes := N, kh_stores := (kh_stores H)(s \<mapsto> st')\<rparr>" "kv_unlocked st'"
    "store_nodes st \<subseteq> store_nodes st'" "dom N \<subseteq> dom (kh_nodes H) \<union> store_nodes st'"
    by (rule write_shape [OF wf(1) s wf(2) w])
  have "x \<in> (\<Union>st \<in> ran (kh_stores H'). store_nodes st)" if "x \<in> dom (kh_nodes H')" for x
  proof -
    have "x \<in> dom (kh_nodes H) \<union> store_nodes st'" using that N(4) by (auto simp: N(1))
    moreover have "dom (kh_nodes H) \<subseteq> (\<Union>su \<in> ran (kh_stores H). store_nodes su)" using ok by (simp add: heap_ok_def)
    ultimately consider "x \<in> store_nodes st'" | u su where "kh_stores H u = Some su" "x \<in> store_nodes su"
      unfolding ran_def by blast
    then show ?thesis
    proof cases
      case 1
      then show ?thesis by (auto simp: N(1) ran_def)
    next
      case (2 u su)
      then show ?thesis using N(3) s(2) by (cases "u = s") (auto simp: N(1) ran_def)
    qed
  qed
  moreover have "\<forall>st \<in> ran (kh_stores H'). kv_unlocked st" using ok N(2) by (auto simp: N(1) heap_ok_def ran_def)
  ultimately show "heap_ok H'" using H' by (auto simp: heap_ok_def)
  show "dom (kh_stores H') = dom (kh_stores H)" using s(2) by (auto simp: N(1))
qed

lemma heap_ok_read:
  assumes "heap_ok H" and "sys_read_kv cur t k H = Done (r, H')"
  shows "H' = H"
proof -
  from assms(2) obtain s st where s: "ts_kv t = Some s" "kh_stores H s = Some st"
    by (auto simp: sys_read_kv_def split: option.splits)
  from sys_read_kv_spec [OF heap_okD(1) [OF assms(1) s(2)] heap_okD(3) [OF assms(1) s(2,1)], of cur k] assms(2)
  show ?thesis by simp
qed

lemma heap_ok_new:
  assumes ok: "heap_ok H" and s: "s \<notin> dom (kh_stores H)"
  shows "heap_ok (H\<lparr>kh_stores := (kh_stores H)(s \<mapsto> init_buckets KV_BUCKETS 0 junk)\<rparr>)"
proof -
  have "kv_heap_wf (H\<lparr>kh_stores := (kh_stores H)(s \<mapsto> init_buckets KV_BUCKETS 0 junk)\<rparr>)"
    using ok by (auto simp: heap_ok_def kv_heap_wf_def init_store_empty)
  moreover have "kh_stores H s = None" using s by auto
  ultimately show ?thesis using ok by (auto simp: heap_ok_def ran_map_upd init_store_empty)
qed

lemma heap_ok_free:
  assumes ok: "heap_ok H" and s: "kh_stores H s = Some st"
  shows "cleanup_buckets KV_BUCKETS 0 cur st (kh_nodes H) =
      Done (st\<lparr>kvs_head := \<lambda>h. if h < KV_BUCKETS then [] else kvs_head st h\<rparr>, kh_nodes H |` (- store_nodes st))"
    and "heap_ok (H\<lparr>kh_nodes := kh_nodes H |` (- store_nodes st), kh_stores := (kh_stores H)(s := None)\<rparr>)"
proof -
  note wf = heap_okD [OF ok s]
  have "range_nodes st 0 KV_BUCKETS = store_nodes st" by (simp add: store_nodes_def lessThan_atLeast0)
  with cleanup_buckets_spec [of 0 KV_BUCKETS "kh_nodes H" st cur] wf(2) kv_wf_bucket [OF kv_heap_wf_store [OF wf(1) s]]
  show "cleanup_buckets KV_BUCKETS 0 cur st (kh_nodes H) =
      Done (st\<lparr>kvs_head := \<lambda>h. if h < KV_BUCKETS then [] else kvs_head st h\<rparr>, kh_nodes H |` (- store_nodes st))"
    by (simp add: kv_unlocked_def del: Compl_UN)
  have other: "kv_wf (kh_nodes H |` (- store_nodes st)) su" if "u \<noteq> s" "kh_stores H u = Some su" for u su
    by (rule kv_wf_frame [OF kv_heap_wf_store [OF wf(1) that(2)]])
      (use kv_heap_wf_disjoint [OF wf(1) that(2) s that(1)] in \<open>auto simp: restrict_map_def\<close>)
  have "dom (kh_nodes H) - store_nodes st \<subseteq> (\<Union>st \<in> ran ((kh_stores H)(s := None)). store_nodes st)"
  proof
    fix x assume x: "x \<in> dom (kh_nodes H) - store_nodes st"
    then obtain u su where u: "kh_stores H u = Some su" "x \<in> store_nodes su"
      using ok unfolding heap_ok_def ran_def by blast
    with x s have "u \<noteq> s" by auto
    with u show "x \<in> (\<Union>st \<in> ran ((kh_stores H)(s := None)). store_nodes st)" unfolding ran_def by auto
  qed
  then show "heap_ok (H\<lparr>kh_nodes := kh_nodes H |` (- store_nodes st), kh_stores := (kh_stores H)(s := None)\<rparr>)"
  proof -
    let ?H = "H\<lparr>kh_nodes := kh_nodes H |` (- store_nodes st), kh_stores := (kh_stores H)(s := None)\<rparr>"
    assume sub: "dom (kh_nodes H) - store_nodes st \<subseteq> (\<Union>st \<in> ran ((kh_stores H)(s := None)). store_nodes st)"
    have "kv_heap_wf ?H" using wf(1) other by (auto simp: kv_heap_wf_def split: if_splits)
    moreover have "\<forall>st \<in> ran (kh_stores ?H). kv_unlocked st" using ok by (auto simp: heap_ok_def ran_def split: if_splits)
    ultimately show ?thesis using sub by (simp add: heap_ok_def Diff_eq)
  qed
qed

section \<open>Each operation keeps the counters\<close>

lemma kv_users_upd:
  "T c = None \<Longrightarrow> kv_users (T(c \<mapsto> p)) s = (if ts_kv p = Some s then insert c (kv_users T s) else kv_users T s)"
  "T t = Some x \<Longrightarrow> kv_users (T(t := None)) s = kv_users T s - {t}"
  by (auto simp: kv_users_def split: if_splits)

lemma finite_kv_users: "finite (dom T) \<Longrightarrow> finite (kv_users T s)"
  by (rule finite_subset [of _ "dom T"]) (auto simp: kv_users_def)

lemma refs_okD:
  assumes "refs_ok T lost S" and "T t = Some x" and "ts_kv x = Some s"
  shows "\<exists>n st. rk_ref S s = Some n \<and> kh_stores (rk_heap S) s = Some st"
proof -
  have "t \<in> kv_users T s" using assms(2,3) by (auto simp: kv_users_def)
  moreover have "ref_exact (kv_users T s) (lost s) (rk_ref S s)" using assms(1) by (simp add: refs_ok_def)
  ultimately have "rk_ref S s \<noteq> None" by (cases "rk_ref S s") auto
  then have "s \<in> dom (kh_stores (rk_heap S))" using assms(1) by (auto simp: refs_ok_def)
  with \<open>rk_ref S s \<noteq> None\<close> show ?thesis by auto
qed

text \<open>A new reference to \<open>s\<close>, which a task or a failed fork holds.\<close>

definition ref_added :: "addr \<Rightarrow> rkv \<Rightarrow> rkv \<Rightarrow> bool" where
  "ref_added s S S' \<longleftrightarrow>
     rk_ref S' = (rk_ref S)(s \<mapsto> (case rk_ref S s of None \<Rightarrow> 0 | Some n \<Rightarrow> n) + 1) \<and>
     dom (kh_stores (rk_heap S')) = insert s (dom (kh_stores (rk_heap S)))"

lemma refs_ok_task:
  assumes ok: "refs_ok T lost S" and c: "T c = None" and p: "ts_kv p = Some s" and S': "ref_added s S S'"
  shows "refs_ok (T(c \<mapsto> p)) lost S'"
proof -
  have "finite (kv_users T s)" "c \<notin> kv_users T s" using ok c finite_kv_users by (auto simp: refs_ok_def kv_users_def)
  then have card: "card (kv_users (T(c \<mapsto> p)) s) = Suc (card (kv_users T s))" by (simp add: kv_users_upd(1) [of T c, OF c] p)
  have others: "kv_users (T(c \<mapsto> p)) u = kv_users T u" if "u \<noteq> s" for u using that p by (simp add: kv_users_upd(1) [of T c, OF c])
  have "ref_exact (kv_users (T(c \<mapsto> p)) u) (lost u) (rk_ref S' u)" for u
  proof -
    have "ref_exact (kv_users T u) (lost u) (rk_ref S u)" using ok by (simp add: refs_ok_def)
    then show ?thesis using S' card others [of u] by (cases "u = s"; cases "rk_ref S s") (auto simp: ref_added_def)
  qed
  with ok S' show ?thesis by (auto simp: refs_ok_def ref_added_def)
qed

lemma refs_ok_lost:
  assumes ok: "refs_ok T lost S" and S': "ref_added s S S'"
  shows "refs_ok T (lost(s := lost s + 1)) S'"
proof -
  have "ref_exact (kv_users T u) ((lost(s := lost s + 1)) u) (rk_ref S' u)" for u
  proof -
    have "ref_exact (kv_users T u) (lost u) (rk_ref S u)" using ok by (simp add: refs_ok_def)
    then show ?thesis using S' by (cases "u = s"; cases "rk_ref S s") (auto simp: ref_added_def)
  qed
  with ok S' show ?thesis by (auto simp: refs_ok_def ref_added_def)
qed

lemma refs_ok_no_store:
  "refs_ok T lost S \<Longrightarrow> T c = None \<Longrightarrow> ts_kv p = None \<Longrightarrow> refs_ok (T(c \<mapsto> p)) lost S"
  by (simp add: refs_ok_def kv_users_upd(1))

text \<open>What the insertion into \<^verbatim>\<open>copy_process\<close> does, whether the fork succeeds in the end or not.\<close>

lemma fork_kv_spec:
  assumes h: "heap_ok (rk_heap S)" and ok: "refs_ok T lost S" and t: "T t = Some cur" and a: "kmalloc_fresh a S"
    and f: "fork_kv thread a junk cur p S = Done (p', S')"
  shows "heap_ok (rk_heap S')" and "case ts_kv p' of None \<Rightarrow> S' = S | Some s \<Rightarrow> ref_added s S S'"
proof -
  have "heap_ok (rk_heap S') \<and> (case ts_kv p' of None \<Rightarrow> S' = S | Some s \<Rightarrow> ref_added s S S')"
  proof (cases thread)
    case True
    with f obtain s n where s: "ts_kv cur = Some s" "rk_ref S s = Some n" "ts_kv p' = Some s"
        "S' = S\<lparr>rk_ref := (rk_ref S)(s \<mapsto> n + 1)\<rparr>"
      by (auto simp: fork_kv_def Let_def split: option.splits)
    with refs_okD [OF ok t s(1)] h show ?thesis by (auto simp: ref_added_def)
  next
    case False
    show ?thesis
    proof (cases a)
      case None
      with False f h show ?thesis by (auto simp: fork_kv_def init_kv_store_def)
    next
      case (Some s)
      with a have "s \<notin> dom (kh_stores (rk_heap S))" by (simp add: kmalloc_fresh_def)
      moreover from this ok have "rk_ref S s = None" by (auto simp: refs_ok_def)
      ultimately show ?thesis
        using False Some f heap_ok_new [OF h, of s junk] by (auto simp: fork_kv_def init_kv_store_def ref_added_def)
    qed
  qed
  then show "heap_ok (rk_heap S')" "case ts_kv p' of None \<Rightarrow> S' = S | Some s \<Rightarrow> ref_added s S S'" by auto
qed

lemma cleanup_kv_spec:
  assumes h: "heap_ok (rk_heap S)" and ok: "refs_ok T lost S" and t: "T t = Some x"
  shows "\<exists>x' S'. cleanup_kv_store cur x S = Done (x', S') \<and> heap_ok (rk_heap S') \<and> refs_ok (T(t := None)) lost S'"
proof (cases "ts_kv x")
  case None
  then have "t \<notin> kv_users T s" for s using t by (simp add: kv_users_def)
  then have "kv_users (T(t := None)) s = kv_users T s" for s by (simp add: kv_users_upd(2) [of T t, OF t])
  with None h ok show ?thesis by (simp add: cleanup_kv_store_def refs_ok_def)
next
  case (Some s)
  from refs_okD [OF ok t Some] obtain n st where s: "rk_ref S s = Some n" "kh_stores (rk_heap S) s = Some st" by blast
  have mem: "t \<in> kv_users T s" using t Some by (auto simp: kv_users_def)
  have n: "n = int (card (kv_users T s) + lost s)" using ok s(1) by (metis ref_exact_simps(1) refs_ok_def)
  have fin: "finite (kv_users T s)" using ok by (auto simp: refs_ok_def intro: finite_kv_users)
  then obtain m where m: "card (kv_users T s) = Suc m" "card (kv_users T s - {t}) = m"
    using mem by (cases "card (kv_users T s)") auto
  have others: "kv_users (T(t := None)) u = kv_users T u" if "u \<noteq> s" for u
    using that Some t by (auto simp: kv_users_def)
  note users = kv_users_upd(2) [of T t, OF t, of s]
  have free: "kv_users T s - {t} = {} \<and> lost s = 0" if "n = 1"
  proof -
    have "m = 0" "lost s = 0" using that n m(1) by simp_all
    with m(2) fin show ?thesis by (simp add: card_eq_0_iff)
  qed
  have exact: "ref_exact (kv_users (T(t := None)) u) (lost u) (((rk_ref S)(s := r)) u)"
    if "ref_exact (kv_users T s - {t}) (lost s) r" for u r
    using that ok users others [of u] by (cases "u = s") (auto simp: refs_ok_def)
  have fd: "finite (dom (T(t := None)))" using ok by (simp add: refs_ok_def)
  show ?thesis
  proof (cases "n = 1")
    case False
    with n m exact [of "Some (n - 1)"] have "refs_ok (T(t := None)) lost (S\<lparr>rk_ref := (rk_ref S)(s \<mapsto> n - 1)\<rparr>)"
      using ok fd s by (auto simp: refs_ok_def)
    with False Some s h show ?thesis by (simp add: cleanup_kv_store_def Let_def)
  next
    case True
    let ?H = "(rk_heap S)\<lparr>kh_nodes := kh_nodes (rk_heap S) |` (- store_nodes st), kh_stores := (kh_stores (rk_heap S))(s := None)\<rparr>"
    from True free exact [of None] have "refs_ok (T(t := None)) lost (S\<lparr>rk_ref := (rk_ref S)(s := None), rk_heap := ?H\<rparr>)"
      using ok fd s by (auto simp: refs_ok_def)
    moreover have "cleanup_kv_store cur x S = Done (x\<lparr>ts_kv := None\<rparr>, S\<lparr>rk_ref := (rk_ref S)(s := None), rk_heap := ?H\<rparr>)"
      using True Some s heap_ok_free(1) [OF h s(2), of cur]
      by (simp add: cleanup_kv_store_def Let_def del: cleanup_buckets.simps)
    ultimately show ?thesis using heap_ok_free(2) [OF h s(2)] by auto
  qed
qed

lemma rkv_inv_step: "rkv_step Y Y' \<Longrightarrow> rkv_inv Y \<Longrightarrow> rkv_inv Y'"
proof (induction rule: rkv_step.induct)
  case (forks Y t cur c a thread junk p p' S)
  then have h: "heap_ok (rk_heap (ry_st Y))" "refs_ok (ry_tasks Y) (ry_lost Y) (ry_st Y)" by (simp_all add: rkv_inv_def)
  from fork_kv_spec [OF h forks(1,3,4)] h(2) forks(2) show ?case
    by (auto simp: rkv_inv_def intro: refs_ok_task refs_ok_no_store split: option.splits)
next
  case (fork_fails Y t cur a thread junk p p' S)
  then have h: "heap_ok (rk_heap (ry_st Y))" "refs_ok (ry_tasks Y) (ry_lost Y) (ry_st Y)" by (simp_all add: rkv_inv_def)
  from fork_kv_spec [OF h fork_fails(1,2,3)] h(2) refs_ok_lost [OF h(2)] show ?case
    by (auto simp: rkv_inv_def split: option.splits)
next
  case (writes Y t cur a k v r S)
  then obtain H where H: "sys_write_kv a t cur k v (rk_heap (ry_st Y)) = Done (r, H)" "S = (ry_st Y)\<lparr>rk_heap := H\<rparr>"
    by (auto simp: kv_store_write_def split: kv_result.splits)
  from heap_ok_write [OF _ _ H(1)] writes(2,4) H(2) show ?case by (auto simp: rkv_inv_def kmalloc_fresh_def refs_ok_def)
next
  case (reads Y t cur k r S)
  then obtain H where H: "sys_read_kv t cur k (rk_heap (ry_st Y)) = Done (r, H)" "S = (ry_st Y)\<lparr>rk_heap := H\<rparr>"
    by (auto simp: kv_store_read_def split: kv_result.splits)
  from heap_ok_read [OF _ H(1)] reads(3) H(2) show ?case by (auto simp: rkv_inv_def)
next
  case (exits Y t cur cur' S)
  then show ?case using cleanup_kv_spec [of "ry_st Y" "ry_tasks Y" "ry_lost Y" t cur t] by (auto simp: rkv_inv_def)
qed

lemma rkv_inv_reach: "rkv_step\<^sup>*\<^sup>* Y0 Y \<Longrightarrow> rkv_inv Y0 \<Longrightarrow> rkv_inv Y"
  by (induction rule: rtranclp_induct) (auto intro: rkv_inv_step)

section \<open>Properties\<close>

text \<open>The system before the first fork: no store, and tasks that were made without one.\<close>

definition rkv_boot :: "rkv_sys \<Rightarrow> bool" where
  "rkv_boot Y \<longleftrightarrow> finite (dom (ry_tasks Y)) \<and> (\<forall>x \<in> ran (ry_tasks Y). ts_kv x = None) \<and>
     ry_st Y = \<lparr>rk_heap = \<lparr>kh_nodes = Map.empty, kh_stores = Map.empty\<rparr>, rk_ref = Map.empty\<rparr> \<and>
     ry_lost Y = (\<lambda>_. 0)"

lemma rkv_inv_boot: "rkv_boot Y \<Longrightarrow> rkv_inv Y"
  by (auto simp: rkv_boot_def rkv_inv_def heap_ok_def kv_heap_wf_def refs_ok_def kv_users_def ran_def)

lemma rkv_calls:
  assumes inv: "rkv_inv Y" and t: "ry_tasks Y t = Some cur" and s: "ts_kv cur \<noteq> None"
  shows "\<exists>r. kv_store_read t cur k (ry_st Y) = Done (r, ry_st Y)"
    and "kmalloc_fresh a (ry_st Y) \<Longrightarrow> \<exists>r. kv_store_write a t cur k v (ry_st Y) = Done r"
proof -
  let ?H = "rk_heap (ry_st Y)"
  have h: "heap_ok ?H" "refs_ok (ry_tasks Y) (ry_lost Y) (ry_st Y)" using inv by (simp_all add: rkv_inv_def)
  from s obtain s where s: "ts_kv cur = Some s" by blast
  from refs_okD [OF h(2) t s] obtain st where "kh_stores ?H s = Some st" by blast
  note wf = heap_okD [OF h(1) this]
  note live = wf(3) [OF s]
  show "\<exists>r. kv_store_read t cur k (ry_st Y) = Done (r, ry_st Y)"
    using sys_read_kv_spec [OF wf(1) live, of t k] by (simp add: kv_store_read_def)
  show "\<exists>r. kv_store_write a t cur k v (ry_st Y) = Done r" if "kmalloc_fresh a (ry_st Y)"
  proof -
    have "kv_fresh ?H a" using that by (simp add: kmalloc_fresh_def)
    from sys_write_kv_spec [OF wf(1) live this, of k t v] show ?thesis
      by (auto simp: kv_store_write_def split: if_splits)
  qed
qed

text \<open>
  C4: The life time of a store in the patch. After any interleaving of forks, failed forks, calls and
  exits, a task that has a store can call \<^verbatim>\<open>read_kv\<close> and \<^verbatim>\<open>write_kv\<close> and every task can exit, without an access
  to freed memory and with all locks free. A store exists exactly as long as a task uses it or a failed
  fork has left a reference to it, and no node exists outside of the stores: without failed forks the
  last exit frees everything.
\<close>

theorem kv_lifetime:
  assumes "rkv_boot Y0" and "rkv_step\<^sup>*\<^sup>* Y0 Y"
  shows "(\<forall>t cur. ry_tasks Y t = Some cur \<longrightarrow>
      (\<exists>r. cleanup_kv_store t cur (ry_st Y) = Done r) \<and>
      (ts_kv cur \<noteq> None \<longrightarrow> (\<exists>r. kv_store_read t cur k (ry_st Y) = Done (r, ry_st Y)) \<and>
         (kmalloc_fresh a (ry_st Y) \<longrightarrow> (\<exists>r. kv_store_write a t cur k v (ry_st Y) = Done r)))) \<and>
    (\<forall>s. s \<in> dom (kh_stores (rk_heap (ry_st Y))) \<longleftrightarrow> kv_users (ry_tasks Y) s \<noteq> {} \<or> 0 < ry_lost Y s) \<and>
    dom (kh_nodes (rk_heap (ry_st Y))) \<subseteq> (\<Union>st \<in> ran (kh_stores (rk_heap (ry_st Y))). store_nodes st)"
proof -
  have inv: "rkv_inv Y" by (rule rkv_inv_reach [OF assms(2) rkv_inv_boot [OF assms(1)]])
  then have h: "heap_ok (rk_heap (ry_st Y))" "refs_ok (ry_tasks Y) (ry_lost Y) (ry_st Y)" by (simp_all add: rkv_inv_def)
  have "s \<in> dom (kh_stores (rk_heap (ry_st Y))) \<longleftrightarrow> kv_users (ry_tasks Y) s \<noteq> {} \<or> 0 < ry_lost Y s" for s
  proof -
    have d: "s \<in> dom (kh_stores (rk_heap (ry_st Y))) \<longleftrightarrow> rk_ref (ry_st Y) s \<noteq> None"
      using h(2) by (auto simp: refs_ok_def domIff set_eq_iff)
    have "ref_exact (kv_users (ry_tasks Y) s) (ry_lost Y s) (rk_ref (ry_st Y) s)" using h(2) by (simp add: refs_ok_def)
    then show ?thesis unfolding d by (cases "rk_ref (ry_st Y) s") auto
  qed
  moreover have "\<exists>r. cleanup_kv_store t cur (ry_st Y) = Done r" if "ry_tasks Y t = Some cur" for t cur
    using cleanup_kv_spec [OF h that, of t] by blast
  moreover have "dom (kh_nodes (rk_heap (ry_st Y))) \<subseteq> (\<Union>st \<in> ran (kh_stores (rk_heap (ry_st Y))). store_nodes st)"
    using h(1) by (simp add: heap_ok_def)
  ultimately show ?thesis using rkv_calls [OF inv] by blast
qed

definition demo_rkv :: rkv_sys where
  "demo_rkv = \<lparr>ry_tasks = [2 \<mapsto> zero_task],
     ry_st = \<lparr>rk_heap = \<lparr>kh_nodes = Map.empty, kh_stores = Map.empty\<rparr>, rk_ref = Map.empty\<rparr>, ry_lost = (\<lambda>_. 0)\<rparr>"

theorem kv_lifetime_witness:
  "\<exists>Y cur. rkv_step\<^sup>*\<^sup>* demo_rkv Y \<and> ry_tasks Y 3 = Some cur \<and> ts_kv cur = Some 50 \<and>
     (\<exists>r. kv_store_read 3 cur 7 (ry_st Y) = Done (r, ry_st Y)) \<and> 50 \<in> dom (kh_stores (rk_heap (ry_st Y)))"
proof -
  have boot: "rkv_boot demo_rkv" by (simp add: rkv_boot_def demo_rkv_def zero_task_def)
  let ?p = "zero_task\<lparr>ts_kv := Some 50\<rparr>"
  obtain S where f: "fork_kv False (Some 50) demo_junk zero_task zero_task (ry_st demo_rkv) = Done (?p, S)"
    by (simp add: fork_kv_def init_kv_store_def)
  let ?Y = "demo_rkv\<lparr>ry_tasks := (ry_tasks demo_rkv)(3 \<mapsto> ?p), ry_st := S\<rparr>"
  have "kmalloc_fresh (Some 50) (ry_st demo_rkv)" by (simp add: kmalloc_fresh_def kv_fresh_def demo_rkv_def)
  then have "rkv_step demo_rkv ?Y" by (intro rkv_step.forks [OF _ _ _ f, of 2]) (simp_all add: demo_rkv_def)
  then have r: "rkv_step\<^sup>*\<^sup>* demo_rkv ?Y" by simp
  have t: "ry_tasks ?Y 3 = Some ?p" by simp
  then have "kv_users (ry_tasks ?Y) 50 \<noteq> {}" by (auto simp: kv_users_def)
  with kv_lifetime [OF boot r, of 7 None 0] t r show ?thesis by (intro exI [of _ ?Y] exI [of _ ?p]) auto
qed

end
