(* ===== verification/Syscall_Table.thy ===== *)
theory Syscall_Table
  imports Prelude
begin

text \<open>
  The system call numbers of \<^verbatim>\<open>include/uapi/asm-generic/unistd.h\<close>. The file is included with the macro
  \<^verbatim>\<open>__SYSCALL\<close> defined, and then is the table of the calls: a list of numbers with their handlers, which
  depends on what the architecture asks for. Names of numbers are written without the prefix \<^verbatim>\<open>__NR\<close>.
\<close>

section \<open>Entries\<close>

text \<open>The macros that the file tests; a flag says whether the macro of its name is defined.\<close>

record arch =
  ar_bits_per_long :: nat
  ar_compat :: bool
  ar_time32 :: bool
  ar_renameat :: bool
  ar_new_stat :: bool
  ar_stat64 :: bool
  ar_sync_file_range2 :: bool
  ar_set_get_rlimit :: bool
  ar_nommu :: bool
  ar_clone3 :: bool
  ar_memfd_secret :: bool

definition time32_calls :: "arch \<Rightarrow> bool" where
  "time32_calls a \<longleftrightarrow> ar_time32 a \<or> ar_bits_per_long a \<noteq> 32"

definition stat_calls :: "arch \<Rightarrow> bool" where
  "stat_calls a \<longleftrightarrow> ar_new_stat a \<or> ar_stat64 a"

text \<open>A use of one of the four macros: the name of the number, the number, and the handlers.\<close>

datatype sc =
    SYSCALL string nat string
  | SC_3264 string nat string string
  | SC_COMP string nat string string
  | SC_COMP_3264 string nat string string string

fun sc_3264 :: "arch \<Rightarrow> string \<Rightarrow> string \<Rightarrow> string" where
  "sc_3264 a h32 h64 = (if ar_bits_per_long a = 32 \<or> ar_compat a then h32 else h64)"

fun sc_handler :: "arch \<Rightarrow> sc \<Rightarrow> string" where
  "sc_handler a (SYSCALL nm n h) = h"
| "sc_handler a (SC_3264 nm n h32 h64) = sc_3264 a h32 h64"
| "sc_handler a (SC_COMP nm n h hc) = (if ar_compat a then hc else h)"
| "sc_handler a (SC_COMP_3264 nm n h32 h64 hc) = (if ar_compat a then hc else sc_3264 a h32 h64)"

fun sc_nr :: "sc \<Rightarrow> nat" where
  "sc_nr (SYSCALL nm n h) = n"
| "sc_nr (SC_3264 nm n h32 h64) = n"
| "sc_nr (SC_COMP nm n h hc) = n"
| "sc_nr (SC_COMP_3264 nm n h32 h64 hc) = n"

fun sc_name :: "sc \<Rightarrow> string" where
  "sc_name (SYSCALL nm n h) = nm"
| "sc_name (SC_3264 nm n h32 h64) = nm"
| "sc_name (SC_COMP nm n h hc) = nm"
| "sc_name (SC_COMP_3264 nm n h32 h64 hc) = nm"

section \<open>The table\<close>

definition unistd_1 :: "arch \<Rightarrow> sc list" where
  "unistd_1 a =
     [SC_COMP ''_io_setup'' 0 ''sys_io_setup'' ''compat_sys_io_setup'',
      SYSCALL ''_io_destroy'' 1 ''sys_io_destroy'',
      SC_COMP ''_io_submit'' 2 ''sys_io_submit'' ''compat_sys_io_submit'',
      SYSCALL ''_io_cancel'' 3 ''sys_io_cancel''] @
     (if time32_calls a then
       [SC_3264 ''_io_getevents'' 4 ''sys_io_getevents_time32'' ''sys_io_getevents'']
      else []) @
     [SYSCALL ''_setxattr'' 5 ''sys_setxattr'',
      SYSCALL ''_lsetxattr'' 6 ''sys_lsetxattr'',
      SYSCALL ''_fsetxattr'' 7 ''sys_fsetxattr'',
      SYSCALL ''_getxattr'' 8 ''sys_getxattr'',
      SYSCALL ''_lgetxattr'' 9 ''sys_lgetxattr'',
      SYSCALL ''_fgetxattr'' 10 ''sys_fgetxattr'',
      SYSCALL ''_listxattr'' 11 ''sys_listxattr'',
      SYSCALL ''_llistxattr'' 12 ''sys_llistxattr'',
      SYSCALL ''_flistxattr'' 13 ''sys_flistxattr'',
      SYSCALL ''_removexattr'' 14 ''sys_removexattr'',
      SYSCALL ''_lremovexattr'' 15 ''sys_lremovexattr'',
      SYSCALL ''_fremovexattr'' 16 ''sys_fremovexattr'',
      SYSCALL ''_getcwd'' 17 ''sys_getcwd'',
      SC_COMP ''_lookup_dcookie'' 18 ''sys_lookup_dcookie'' ''compat_sys_lookup_dcookie'',
      SYSCALL ''_eventfd2'' 19 ''sys_eventfd2'',
      SYSCALL ''_epoll_create1'' 20 ''sys_epoll_create1'',
      SYSCALL ''_epoll_ctl'' 21 ''sys_epoll_ctl'',
      SC_COMP ''_epoll_pwait'' 22 ''sys_epoll_pwait'' ''compat_sys_epoll_pwait'',
      SYSCALL ''_dup'' 23 ''sys_dup'',
      SYSCALL ''_dup3'' 24 ''sys_dup3'',
      SC_COMP_3264 ''3264_fcntl'' 25 ''sys_fcntl64'' ''sys_fcntl'' ''compat_sys_fcntl64'',
      SYSCALL ''_inotify_init1'' 26 ''sys_inotify_init1'',
      SYSCALL ''_inotify_add_watch'' 27 ''sys_inotify_add_watch'',
      SYSCALL ''_inotify_rm_watch'' 28 ''sys_inotify_rm_watch'',
      SC_COMP ''_ioctl'' 29 ''sys_ioctl'' ''compat_sys_ioctl'',
      SYSCALL ''_ioprio_set'' 30 ''sys_ioprio_set'',
      SYSCALL ''_ioprio_get'' 31 ''sys_ioprio_get'',
      SYSCALL ''_flock'' 32 ''sys_flock'',
      SYSCALL ''_mknodat'' 33 ''sys_mknodat'',
      SYSCALL ''_mkdirat'' 34 ''sys_mkdirat'',
      SYSCALL ''_unlinkat'' 35 ''sys_unlinkat'',
      SYSCALL ''_symlinkat'' 36 ''sys_symlinkat'',
      SYSCALL ''_linkat'' 37 ''sys_linkat''] @
     (if ar_renameat a then
       [SYSCALL ''_renameat'' 38 ''sys_renameat'']
      else [])"

definition unistd_2 :: "arch \<Rightarrow> sc list" where
  "unistd_2 a =
     [SYSCALL ''_umount2'' 39 ''sys_umount'',
      SYSCALL ''_mount'' 40 ''sys_mount'',
      SYSCALL ''_pivot_root'' 41 ''sys_pivot_root'',
      SYSCALL ''_nfsservctl'' 42 ''sys_ni_syscall'',
      SC_COMP_3264 ''3264_statfs'' 43 ''sys_statfs64'' ''sys_statfs'' ''compat_sys_statfs64'',
      SC_COMP_3264 ''3264_fstatfs'' 44 ''sys_fstatfs64'' ''sys_fstatfs'' ''compat_sys_fstatfs64'',
      SC_COMP_3264 ''3264_truncate'' 45 ''sys_truncate64'' ''sys_truncate'' ''compat_sys_truncate64'',
      SC_COMP_3264 ''3264_ftruncate'' 46 ''sys_ftruncate64'' ''sys_ftruncate'' ''compat_sys_ftruncate64'',
      SC_COMP ''_fallocate'' 47 ''sys_fallocate'' ''compat_sys_fallocate'',
      SYSCALL ''_faccessat'' 48 ''sys_faccessat'',
      SYSCALL ''_chdir'' 49 ''sys_chdir'',
      SYSCALL ''_fchdir'' 50 ''sys_fchdir'',
      SYSCALL ''_chroot'' 51 ''sys_chroot'',
      SYSCALL ''_fchmod'' 52 ''sys_fchmod'',
      SYSCALL ''_fchmodat'' 53 ''sys_fchmodat'',
      SYSCALL ''_fchownat'' 54 ''sys_fchownat'',
      SYSCALL ''_fchown'' 55 ''sys_fchown'',
      SYSCALL ''_openat'' 56 ''sys_openat'',
      SYSCALL ''_close'' 57 ''sys_close'',
      SYSCALL ''_vhangup'' 58 ''sys_vhangup'',
      SYSCALL ''_pipe2'' 59 ''sys_pipe2'',
      SYSCALL ''_quotactl'' 60 ''sys_quotactl'',
      SYSCALL ''_getdents64'' 61 ''sys_getdents64'',
      SC_3264 ''3264_lseek'' 62 ''sys_llseek'' ''sys_lseek'',
      SYSCALL ''_read'' 63 ''sys_read'',
      SYSCALL ''_write'' 64 ''sys_write'',
      SC_COMP ''_readv'' 65 ''sys_readv'' ''sys_readv'',
      SC_COMP ''_writev'' 66 ''sys_writev'' ''sys_writev'',
      SC_COMP ''_pread64'' 67 ''sys_pread64'' ''compat_sys_pread64'',
      SC_COMP ''_pwrite64'' 68 ''sys_pwrite64'' ''compat_sys_pwrite64'',
      SC_COMP ''_preadv'' 69 ''sys_preadv'' ''compat_sys_preadv'',
      SC_COMP ''_pwritev'' 70 ''sys_pwritev'' ''compat_sys_pwritev'',
      SYSCALL ''3264_sendfile'' 71 ''sys_sendfile64''] @
     (if time32_calls a then
       [SC_COMP_3264 ''_pselect6'' 72 ''sys_pselect6_time32'' ''sys_pselect6'' ''compat_sys_pselect6_time32'',
        SC_COMP_3264 ''_ppoll'' 73 ''sys_ppoll_time32'' ''sys_ppoll'' ''compat_sys_ppoll_time32'']
      else []) @
     [SC_COMP ''_signalfd4'' 74 ''sys_signalfd4'' ''compat_sys_signalfd4'',
      SYSCALL ''_vmsplice'' 75 ''sys_vmsplice'',
      SYSCALL ''_splice'' 76 ''sys_splice'',
      SYSCALL ''_tee'' 77 ''sys_tee'']"

definition unistd_3 :: "arch \<Rightarrow> sc list" where
  "unistd_3 a =
     [SYSCALL ''_readlinkat'' 78 ''sys_readlinkat''] @
     (if stat_calls a then
       [SC_3264 ''3264_fstatat'' 79 ''sys_fstatat64'' ''sys_newfstatat'',
        SC_3264 ''3264_fstat'' 80 ''sys_fstat64'' ''sys_newfstat'']
      else []) @
     [SYSCALL ''_sync'' 81 ''sys_sync'',
      SYSCALL ''_fsync'' 82 ''sys_fsync'',
      SYSCALL ''_fdatasync'' 83 ''sys_fdatasync''] @
     (if ar_sync_file_range2 a then
       [SC_COMP ''_sync_file_range2'' 84 ''sys_sync_file_range2'' ''compat_sys_sync_file_range2'']
      else [SC_COMP ''_sync_file_range'' 84 ''sys_sync_file_range'' ''compat_sys_sync_file_range'']) @
     [SYSCALL ''_timerfd_create'' 85 ''sys_timerfd_create''] @
     (if time32_calls a then
       [SC_3264 ''_timerfd_settime'' 86 ''sys_timerfd_settime32'' ''sys_timerfd_settime'',
        SC_3264 ''_timerfd_gettime'' 87 ''sys_timerfd_gettime32'' ''sys_timerfd_gettime'']
      else []) @
     (if time32_calls a then
       [SC_3264 ''_utimensat'' 88 ''sys_utimensat_time32'' ''sys_utimensat'']
      else []) @
     [SYSCALL ''_acct'' 89 ''sys_acct'',
      SYSCALL ''_capget'' 90 ''sys_capget'',
      SYSCALL ''_capset'' 91 ''sys_capset'',
      SYSCALL ''_personality'' 92 ''sys_personality'',
      SYSCALL ''_exit'' 93 ''sys_exit'',
      SYSCALL ''_exit_group'' 94 ''sys_exit_group'',
      SC_COMP ''_waitid'' 95 ''sys_waitid'' ''compat_sys_waitid'',
      SYSCALL ''_set_tid_address'' 96 ''sys_set_tid_address'',
      SYSCALL ''_unshare'' 97 ''sys_unshare''] @
     (if time32_calls a then
       [SC_3264 ''_futex'' 98 ''sys_futex_time32'' ''sys_futex'']
      else []) @
     [SC_COMP ''_set_robust_list'' 99 ''sys_set_robust_list'' ''compat_sys_set_robust_list'',
      SC_COMP ''_get_robust_list'' 100 ''sys_get_robust_list'' ''compat_sys_get_robust_list''] @
     (if time32_calls a then
       [SC_3264 ''_nanosleep'' 101 ''sys_nanosleep_time32'' ''sys_nanosleep'']
      else []) @
     [SC_COMP ''_getitimer'' 102 ''sys_getitimer'' ''compat_sys_getitimer'',
      SC_COMP ''_setitimer'' 103 ''sys_setitimer'' ''compat_sys_setitimer'',
      SC_COMP ''_kexec_load'' 104 ''sys_kexec_load'' ''compat_sys_kexec_load'',
      SYSCALL ''_init_module'' 105 ''sys_init_module'',
      SYSCALL ''_delete_module'' 106 ''sys_delete_module'']"

definition unistd_4 :: "arch \<Rightarrow> sc list" where
  "unistd_4 a =
     [SC_COMP ''_timer_create'' 107 ''sys_timer_create'' ''compat_sys_timer_create''] @
     (if time32_calls a then
       [SC_3264 ''_timer_gettime'' 108 ''sys_timer_gettime32'' ''sys_timer_gettime'']
      else []) @
     [SYSCALL ''_timer_getoverrun'' 109 ''sys_timer_getoverrun''] @
     (if time32_calls a then
       [SC_3264 ''_timer_settime'' 110 ''sys_timer_settime32'' ''sys_timer_settime'']
      else []) @
     [SYSCALL ''_timer_delete'' 111 ''sys_timer_delete''] @
     (if time32_calls a then
       [SC_3264 ''_clock_settime'' 112 ''sys_clock_settime32'' ''sys_clock_settime'',
        SC_3264 ''_clock_gettime'' 113 ''sys_clock_gettime32'' ''sys_clock_gettime'',
        SC_3264 ''_clock_getres'' 114 ''sys_clock_getres_time32'' ''sys_clock_getres'',
        SC_3264 ''_clock_nanosleep'' 115 ''sys_clock_nanosleep_time32'' ''sys_clock_nanosleep'']
      else []) @
     [SYSCALL ''_syslog'' 116 ''sys_syslog'',
      SYSCALL ''_ptrace'' 117 ''sys_ptrace'',
      SYSCALL ''_sched_setparam'' 118 ''sys_sched_setparam'',
      SYSCALL ''_sched_setscheduler'' 119 ''sys_sched_setscheduler'',
      SYSCALL ''_sched_getscheduler'' 120 ''sys_sched_getscheduler'',
      SYSCALL ''_sched_getparam'' 121 ''sys_sched_getparam'',
      SC_COMP ''_sched_setaffinity'' 122 ''sys_sched_setaffinity'' ''compat_sys_sched_setaffinity'',
      SC_COMP ''_sched_getaffinity'' 123 ''sys_sched_getaffinity'' ''compat_sys_sched_getaffinity'',
      SYSCALL ''_sched_yield'' 124 ''sys_sched_yield'',
      SYSCALL ''_sched_get_priority_max'' 125 ''sys_sched_get_priority_max'',
      SYSCALL ''_sched_get_priority_min'' 126 ''sys_sched_get_priority_min''] @
     (if time32_calls a then
       [SC_3264 ''_sched_rr_get_interval'' 127 ''sys_sched_rr_get_interval_time32'' ''sys_sched_rr_get_interval'']
      else []) @
     [SYSCALL ''_restart_syscall'' 128 ''sys_restart_syscall'',
      SYSCALL ''_kill'' 129 ''sys_kill'',
      SYSCALL ''_tkill'' 130 ''sys_tkill'',
      SYSCALL ''_tgkill'' 131 ''sys_tgkill'',
      SC_COMP ''_sigaltstack'' 132 ''sys_sigaltstack'' ''compat_sys_sigaltstack'',
      SC_COMP ''_rt_sigsuspend'' 133 ''sys_rt_sigsuspend'' ''compat_sys_rt_sigsuspend'',
      SC_COMP ''_rt_sigaction'' 134 ''sys_rt_sigaction'' ''compat_sys_rt_sigaction'',
      SC_COMP ''_rt_sigprocmask'' 135 ''sys_rt_sigprocmask'' ''compat_sys_rt_sigprocmask'',
      SC_COMP ''_rt_sigpending'' 136 ''sys_rt_sigpending'' ''compat_sys_rt_sigpending''] @
     (if time32_calls a then
       [SC_COMP_3264 ''_rt_sigtimedwait'' 137 ''sys_rt_sigtimedwait_time32'' ''sys_rt_sigtimedwait'' ''compat_sys_rt_sigtimedwait_time32'']
      else []) @
     [SC_COMP ''_rt_sigqueueinfo'' 138 ''sys_rt_sigqueueinfo'' ''compat_sys_rt_sigqueueinfo'',
      SC_COMP ''_rt_sigreturn'' 139 ''sys_rt_sigreturn'' ''compat_sys_rt_sigreturn'',
      SYSCALL ''_setpriority'' 140 ''sys_setpriority'',
      SYSCALL ''_getpriority'' 141 ''sys_getpriority'',
      SYSCALL ''_reboot'' 142 ''sys_reboot'',
      SYSCALL ''_setregid'' 143 ''sys_setregid'',
      SYSCALL ''_setgid'' 144 ''sys_setgid'',
      SYSCALL ''_setreuid'' 145 ''sys_setreuid'',
      SYSCALL ''_setuid'' 146 ''sys_setuid'',
      SYSCALL ''_setresuid'' 147 ''sys_setresuid'',
      SYSCALL ''_getresuid'' 148 ''sys_getresuid'',
      SYSCALL ''_setresgid'' 149 ''sys_setresgid'',
      SYSCALL ''_getresgid'' 150 ''sys_getresgid'',
      SYSCALL ''_setfsuid'' 151 ''sys_setfsuid'',
      SYSCALL ''_setfsgid'' 152 ''sys_setfsgid'',
      SC_COMP ''_times'' 153 ''sys_times'' ''compat_sys_times'',
      SYSCALL ''_setpgid'' 154 ''sys_setpgid'',
      SYSCALL ''_getpgid'' 155 ''sys_getpgid'',
      SYSCALL ''_getsid'' 156 ''sys_getsid'',
      SYSCALL ''_setsid'' 157 ''sys_setsid'',
      SYSCALL ''_getgroups'' 158 ''sys_getgroups'',
      SYSCALL ''_setgroups'' 159 ''sys_setgroups'',
      SYSCALL ''_uname'' 160 ''sys_newuname'',
      SYSCALL ''_sethostname'' 161 ''sys_sethostname'',
      SYSCALL ''_setdomainname'' 162 ''sys_setdomainname'']"

definition unistd_5 :: "arch \<Rightarrow> sc list" where
  "unistd_5 a =
     (if ar_set_get_rlimit a then
       [SC_COMP ''_getrlimit'' 163 ''sys_getrlimit'' ''compat_sys_getrlimit'',
        SC_COMP ''_setrlimit'' 164 ''sys_setrlimit'' ''compat_sys_setrlimit'']
      else []) @
     [SC_COMP ''_getrusage'' 165 ''sys_getrusage'' ''compat_sys_getrusage'',
      SYSCALL ''_umask'' 166 ''sys_umask'',
      SYSCALL ''_prctl'' 167 ''sys_prctl'',
      SYSCALL ''_getcpu'' 168 ''sys_getcpu''] @
     (if time32_calls a then
       [SC_COMP ''_gettimeofday'' 169 ''sys_gettimeofday'' ''compat_sys_gettimeofday'',
        SC_COMP ''_settimeofday'' 170 ''sys_settimeofday'' ''compat_sys_settimeofday'',
        SC_3264 ''_adjtimex'' 171 ''sys_adjtimex_time32'' ''sys_adjtimex'']
      else []) @
     [SYSCALL ''_getpid'' 172 ''sys_getpid'',
      SYSCALL ''_getppid'' 173 ''sys_getppid'',
      SYSCALL ''_getuid'' 174 ''sys_getuid'',
      SYSCALL ''_geteuid'' 175 ''sys_geteuid'',
      SYSCALL ''_getgid'' 176 ''sys_getgid'',
      SYSCALL ''_getegid'' 177 ''sys_getegid'',
      SYSCALL ''_gettid'' 178 ''sys_gettid'',
      SC_COMP ''_sysinfo'' 179 ''sys_sysinfo'' ''compat_sys_sysinfo'',
      SC_COMP ''_mq_open'' 180 ''sys_mq_open'' ''compat_sys_mq_open'',
      SYSCALL ''_mq_unlink'' 181 ''sys_mq_unlink''] @
     (if time32_calls a then
       [SC_3264 ''_mq_timedsend'' 182 ''sys_mq_timedsend_time32'' ''sys_mq_timedsend'',
        SC_3264 ''_mq_timedreceive'' 183 ''sys_mq_timedreceive_time32'' ''sys_mq_timedreceive'']
      else []) @
     [SC_COMP ''_mq_notify'' 184 ''sys_mq_notify'' ''compat_sys_mq_notify'',
      SC_COMP ''_mq_getsetattr'' 185 ''sys_mq_getsetattr'' ''compat_sys_mq_getsetattr'',
      SYSCALL ''_msgget'' 186 ''sys_msgget'',
      SC_COMP ''_msgctl'' 187 ''sys_msgctl'' ''compat_sys_msgctl'',
      SC_COMP ''_msgrcv'' 188 ''sys_msgrcv'' ''compat_sys_msgrcv'',
      SC_COMP ''_msgsnd'' 189 ''sys_msgsnd'' ''compat_sys_msgsnd'',
      SYSCALL ''_semget'' 190 ''sys_semget'',
      SC_COMP ''_semctl'' 191 ''sys_semctl'' ''compat_sys_semctl''] @
     (if time32_calls a then
       [SC_3264 ''_semtimedop'' 192 ''sys_semtimedop_time32'' ''sys_semtimedop'']
      else []) @
     [SYSCALL ''_semop'' 193 ''sys_semop'',
      SYSCALL ''_shmget'' 194 ''sys_shmget'',
      SC_COMP ''_shmctl'' 195 ''sys_shmctl'' ''compat_sys_shmctl'',
      SC_COMP ''_shmat'' 196 ''sys_shmat'' ''compat_sys_shmat'',
      SYSCALL ''_shmdt'' 197 ''sys_shmdt'',
      SYSCALL ''_socket'' 198 ''sys_socket'',
      SYSCALL ''_socketpair'' 199 ''sys_socketpair'',
      SYSCALL ''_bind'' 200 ''sys_bind'',
      SYSCALL ''_listen'' 201 ''sys_listen'',
      SYSCALL ''_accept'' 202 ''sys_accept'',
      SYSCALL ''_connect'' 203 ''sys_connect'',
      SYSCALL ''_getsockname'' 204 ''sys_getsockname'',
      SYSCALL ''_getpeername'' 205 ''sys_getpeername'',
      SYSCALL ''_sendto'' 206 ''sys_sendto'',
      SC_COMP ''_recvfrom'' 207 ''sys_recvfrom'' ''compat_sys_recvfrom'',
      SC_COMP ''_setsockopt'' 208 ''sys_setsockopt'' ''sys_setsockopt'',
      SC_COMP ''_getsockopt'' 209 ''sys_getsockopt'' ''sys_getsockopt'',
      SYSCALL ''_shutdown'' 210 ''sys_shutdown'',
      SC_COMP ''_sendmsg'' 211 ''sys_sendmsg'' ''compat_sys_sendmsg'',
      SC_COMP ''_recvmsg'' 212 ''sys_recvmsg'' ''compat_sys_recvmsg'']"

definition unistd_6 :: "arch \<Rightarrow> sc list" where
  "unistd_6 a =
     [SC_COMP ''_readahead'' 213 ''sys_readahead'' ''compat_sys_readahead'',
      SYSCALL ''_brk'' 214 ''sys_brk'',
      SYSCALL ''_munmap'' 215 ''sys_munmap'',
      SYSCALL ''_mremap'' 216 ''sys_mremap'',
      SYSCALL ''_add_key'' 217 ''sys_add_key'',
      SYSCALL ''_request_key'' 218 ''sys_request_key'',
      SC_COMP ''_keyctl'' 219 ''sys_keyctl'' ''compat_sys_keyctl'',
      SYSCALL ''_clone'' 220 ''sys_clone'',
      SC_COMP ''_execve'' 221 ''sys_execve'' ''compat_sys_execve'',
      SC_3264 ''3264_mmap'' 222 ''sys_mmap2'' ''sys_mmap'',
      SC_COMP ''3264_fadvise64'' 223 ''sys_fadvise64_64'' ''compat_sys_fadvise64_64''] @
     (if \<not> ar_nommu a then
       [SYSCALL ''_swapon'' 224 ''sys_swapon'',
        SYSCALL ''_swapoff'' 225 ''sys_swapoff'',
        SYSCALL ''_mprotect'' 226 ''sys_mprotect'',
        SYSCALL ''_msync'' 227 ''sys_msync'',
        SYSCALL ''_mlock'' 228 ''sys_mlock'',
        SYSCALL ''_munlock'' 229 ''sys_munlock'',
        SYSCALL ''_mlockall'' 230 ''sys_mlockall'',
        SYSCALL ''_munlockall'' 231 ''sys_munlockall'',
        SYSCALL ''_mincore'' 232 ''sys_mincore'',
        SYSCALL ''_madvise'' 233 ''sys_madvise'',
        SYSCALL ''_remap_file_pages'' 234 ''sys_remap_file_pages'',
        SYSCALL ''_mbind'' 235 ''sys_mbind'',
        SYSCALL ''_get_mempolicy'' 236 ''sys_get_mempolicy'',
        SYSCALL ''_set_mempolicy'' 237 ''sys_set_mempolicy'',
        SYSCALL ''_migrate_pages'' 238 ''sys_migrate_pages'',
        SYSCALL ''_move_pages'' 239 ''sys_move_pages'']
      else []) @
     [SC_COMP ''_rt_tgsigqueueinfo'' 240 ''sys_rt_tgsigqueueinfo'' ''compat_sys_rt_tgsigqueueinfo'',
      SYSCALL ''_perf_event_open'' 241 ''sys_perf_event_open'',
      SYSCALL ''_accept4'' 242 ''sys_accept4''] @
     (if time32_calls a then
       [SC_COMP_3264 ''_recvmmsg'' 243 ''sys_recvmmsg_time32'' ''sys_recvmmsg'' ''compat_sys_recvmmsg_time32'']
      else [])"

definition unistd_7 :: "arch \<Rightarrow> sc list" where
  "unistd_7 a =
     (if time32_calls a then
       [SC_COMP ''_wait4'' 260 ''sys_wait4'' ''compat_sys_wait4'']
      else []) @
     [SYSCALL ''_prlimit64'' 261 ''sys_prlimit64'',
      SYSCALL ''_fanotify_init'' 262 ''sys_fanotify_init'',
      SYSCALL ''_fanotify_mark'' 263 ''sys_fanotify_mark'',
      SYSCALL ''_name_to_handle_at'' 264 ''sys_name_to_handle_at'',
      SYSCALL ''_open_by_handle_at'' 265 ''sys_open_by_handle_at''] @
     (if time32_calls a then
       [SC_3264 ''_clock_adjtime'' 266 ''sys_clock_adjtime32'' ''sys_clock_adjtime'']
      else []) @
     [SYSCALL ''_syncfs'' 267 ''sys_syncfs'',
      SYSCALL ''_setns'' 268 ''sys_setns'',
      SC_COMP ''_sendmmsg'' 269 ''sys_sendmmsg'' ''compat_sys_sendmmsg'',
      SYSCALL ''_process_vm_readv'' 270 ''sys_process_vm_readv'',
      SYSCALL ''_process_vm_writev'' 271 ''sys_process_vm_writev'',
      SYSCALL ''_kcmp'' 272 ''sys_kcmp'',
      SYSCALL ''_finit_module'' 273 ''sys_finit_module'',
      SYSCALL ''_sched_setattr'' 274 ''sys_sched_setattr'',
      SYSCALL ''_sched_getattr'' 275 ''sys_sched_getattr'',
      SYSCALL ''_renameat2'' 276 ''sys_renameat2'',
      SYSCALL ''_seccomp'' 277 ''sys_seccomp'',
      SYSCALL ''_getrandom'' 278 ''sys_getrandom'',
      SYSCALL ''_memfd_create'' 279 ''sys_memfd_create'',
      SYSCALL ''_bpf'' 280 ''sys_bpf'',
      SC_COMP ''_execveat'' 281 ''sys_execveat'' ''compat_sys_execveat'',
      SYSCALL ''_userfaultfd'' 282 ''sys_userfaultfd'',
      SYSCALL ''_membarrier'' 283 ''sys_membarrier'',
      SYSCALL ''_mlock2'' 284 ''sys_mlock2'',
      SYSCALL ''_copy_file_range'' 285 ''sys_copy_file_range'',
      SC_COMP ''_preadv2'' 286 ''sys_preadv2'' ''compat_sys_preadv2'',
      SC_COMP ''_pwritev2'' 287 ''sys_pwritev2'' ''compat_sys_pwritev2'',
      SYSCALL ''_pkey_mprotect'' 288 ''sys_pkey_mprotect'',
      SYSCALL ''_pkey_alloc'' 289 ''sys_pkey_alloc'',
      SYSCALL ''_pkey_free'' 290 ''sys_pkey_free'',
      SYSCALL ''_statx'' 291 ''sys_statx''] @
     (if time32_calls a then
       [SC_COMP_3264 ''_io_pgetevents'' 292 ''sys_io_pgetevents_time32'' ''sys_io_pgetevents'' ''compat_sys_io_pgetevents'']
      else []) @
     [SYSCALL ''_rseq'' 293 ''sys_rseq'',
      SYSCALL ''_kexec_file_load'' 294 ''sys_kexec_file_load''] @
     (if ar_bits_per_long a = 32 then
       [SYSCALL ''_clock_gettime64'' 403 ''sys_clock_gettime'',
        SYSCALL ''_clock_settime64'' 404 ''sys_clock_settime'',
        SYSCALL ''_clock_adjtime64'' 405 ''sys_clock_adjtime'',
        SYSCALL ''_clock_getres_time64'' 406 ''sys_clock_getres'',
        SYSCALL ''_clock_nanosleep_time64'' 407 ''sys_clock_nanosleep'',
        SYSCALL ''_timer_gettime64'' 408 ''sys_timer_gettime'',
        SYSCALL ''_timer_settime64'' 409 ''sys_timer_settime'',
        SYSCALL ''_timerfd_gettime64'' 410 ''sys_timerfd_gettime'',
        SYSCALL ''_timerfd_settime64'' 411 ''sys_timerfd_settime'',
        SYSCALL ''_utimensat_time64'' 412 ''sys_utimensat'',
        SC_COMP ''_pselect6_time64'' 413 ''sys_pselect6'' ''compat_sys_pselect6_time64'',
        SC_COMP ''_ppoll_time64'' 414 ''sys_ppoll'' ''compat_sys_ppoll_time64'',
        SC_COMP ''_io_pgetevents_time64'' 416 ''sys_io_pgetevents'' ''compat_sys_io_pgetevents_time64'',
        SC_COMP ''_recvmmsg_time64'' 417 ''sys_recvmmsg'' ''compat_sys_recvmmsg_time64'',
        SYSCALL ''_mq_timedsend_time64'' 418 ''sys_mq_timedsend'',
        SYSCALL ''_mq_timedreceive_time64'' 419 ''sys_mq_timedreceive'',
        SYSCALL ''_semtimedop_time64'' 420 ''sys_semtimedop'',
        SC_COMP ''_rt_sigtimedwait_time64'' 421 ''sys_rt_sigtimedwait'' ''compat_sys_rt_sigtimedwait_time64'',
        SYSCALL ''_futex_time64'' 422 ''sys_futex'',
        SYSCALL ''_sched_rr_get_interval_time64'' 423 ''sys_sched_rr_get_interval'']
      else [])"

definition unistd_8 :: "arch \<Rightarrow> sc list" where
  "unistd_8 a =
     [SYSCALL ''_pidfd_send_signal'' 424 ''sys_pidfd_send_signal'',
      SYSCALL ''_io_uring_setup'' 425 ''sys_io_uring_setup'',
      SYSCALL ''_io_uring_enter'' 426 ''sys_io_uring_enter'',
      SYSCALL ''_io_uring_register'' 427 ''sys_io_uring_register'',
      SYSCALL ''_open_tree'' 428 ''sys_open_tree'',
      SYSCALL ''_move_mount'' 429 ''sys_move_mount'',
      SYSCALL ''_fsopen'' 430 ''sys_fsopen'',
      SYSCALL ''_fsconfig'' 431 ''sys_fsconfig'',
      SYSCALL ''_fsmount'' 432 ''sys_fsmount'',
      SYSCALL ''_fspick'' 433 ''sys_fspick'',
      SYSCALL ''_pidfd_open'' 434 ''sys_pidfd_open''] @
     (if ar_clone3 a then
       [SYSCALL ''_clone3'' 435 ''sys_clone3'']
      else []) @
     [SYSCALL ''_close_range'' 436 ''sys_close_range'',
      SYSCALL ''_openat2'' 437 ''sys_openat2'',
      SYSCALL ''_pidfd_getfd'' 438 ''sys_pidfd_getfd'',
      SYSCALL ''_faccessat2'' 439 ''sys_faccessat2'',
      SYSCALL ''_process_madvise'' 440 ''sys_process_madvise'',
      SC_COMP ''_epoll_pwait2'' 441 ''sys_epoll_pwait2'' ''compat_sys_epoll_pwait2'',
      SYSCALL ''_mount_setattr'' 442 ''sys_mount_setattr'',
      SYSCALL ''_quotactl_fd'' 443 ''sys_quotactl_fd'',
      SYSCALL ''_landlock_create_ruleset'' 444 ''sys_landlock_create_ruleset'',
      SYSCALL ''_landlock_add_rule'' 445 ''sys_landlock_add_rule'',
      SYSCALL ''_landlock_restrict_self'' 446 ''sys_landlock_restrict_self''] @
     (if ar_memfd_secret a then
       [SYSCALL ''_memfd_secret'' 447 ''sys_memfd_secret'']
      else []) @
     [SYSCALL ''_process_mrelease'' 448 ''sys_process_mrelease'',
      SYSCALL ''_write_kv'' 449 ''sys_write_kv'',
      SYSCALL ''_read_kv'' 450 ''sys_read_kv'']"

definition unistd :: "arch \<Rightarrow> sc list" where
  "unistd a = unistd_1 a @ unistd_2 a @ unistd_3 a @ unistd_4 a @ unistd_5 a @ unistd_6 a @ unistd_7 a @ unistd_8 a"

definition NR_arch_specific_syscall :: nat where "NR_arch_specific_syscall = 244"

definition NR_syscalls :: nat where "NR_syscalls = 451"

text \<open>The table of handlers that the file expands to.\<close>

definition sys_calls :: "arch \<Rightarrow> (nat \<times> string) list" where
  "sys_calls a = map (\<lambda>e. (sc_nr e, sc_handler a e)) (unistd a)"

text \<open>The second names of the numbers, at the end of the file.\<close>

definition nr_aliases :: "arch \<Rightarrow> (string \<times> string) list" where
  "nr_aliases a =
     (let stat = list_ex (\<lambda>e. sc_name e = ''3264_stat'') (unistd a) in
      if ar_bits_per_long a = 64 \<and> \<not> ar_compat a
      then [(''_fcntl'', ''3264_fcntl''), (''_statfs'', ''3264_statfs''), (''_fstatfs'', ''3264_fstatfs''),
            (''_truncate'', ''3264_truncate''), (''_ftruncate'', ''3264_ftruncate''),
            (''_lseek'', ''3264_lseek''), (''_sendfile'', ''3264_sendfile'')] @
           (if stat_calls a then [(''_newfstatat'', ''3264_fstatat''), (''_fstat'', ''3264_fstat'')] else []) @
           [(''_mmap'', ''3264_mmap''), (''_fadvise64'', ''3264_fadvise64'')] @
           (if stat then [(''_stat'', ''3264_stat''), (''_lstat'', ''3264_lstat'')] else [])
      else [(''_fcntl64'', ''3264_fcntl''), (''_statfs64'', ''3264_statfs''), (''_fstatfs64'', ''3264_fstatfs''),
            (''_truncate64'', ''3264_truncate''), (''_ftruncate64'', ''3264_ftruncate''),
            (''_llseek'', ''3264_lseek''), (''_sendfile64'', ''3264_sendfile'')] @
           (if stat_calls a then [(''_fstatat64'', ''3264_fstatat''), (''_fstat64'', ''3264_fstat'')] else []) @
           [(''_mmap2'', ''3264_mmap''), (''_fadvise64_64'', ''3264_fadvise64'')] @
           (if stat then [(''_stat64'', ''3264_stat''), (''_lstat64'', ''3264_lstat'')] else []))"

section \<open>Ascending numbers\<close>

text \<open>The numbers of a part of the table ascend strictly from \<open>lo\<close> and stay below \<open>hi\<close>.\<close>

fun ascends :: "nat \<Rightarrow> nat \<Rightarrow> sc list \<Rightarrow> bool" where
  "ascends lo hi [] = (lo \<le> hi)"
| "ascends lo hi (e # es) = (lo \<le> sc_nr e \<and> ascends (sc_nr e + 1) hi es)"

lemma ascends_bounds: "ascends lo hi es \<Longrightarrow> lo \<le> hi \<and> (\<forall>e \<in> set es. lo \<le> sc_nr e \<and> sc_nr e < hi)"
  by (induction lo hi es rule: ascends.induct) fastforce+

lemma ascends_append: "ascends lo mid es \<Longrightarrow> ascends mid hi fs \<Longrightarrow> ascends lo hi (es @ fs)"
proof (induction lo mid es rule: ascends.induct)
  case (1 lo mid)
  then show ?case by (cases fs) auto
qed auto

lemma ascends_distinct: "ascends lo hi es \<Longrightarrow> distinct (map sc_nr es)"
proof (induction lo hi es rule: ascends.induct)
  case (2 lo hi e es)
  then show ?case using ascends_bounds [of "sc_nr e + 1" hi es] by fastforce
qed simp

lemma unistd_1_ascends: "ascends 0 39 (unistd_1 a)"
  by (simp add: unistd_1_def)

lemma unistd_2_ascends: "ascends 39 78 (unistd_2 a)"
  by (simp add: unistd_2_def)

lemma unistd_3_ascends: "ascends 78 107 (unistd_3 a)"
  by (simp add: unistd_3_def)

lemma unistd_4_ascends: "ascends 107 163 (unistd_4 a)"
  by (simp add: unistd_4_def)

lemma unistd_5_ascends: "ascends 163 213 (unistd_5 a)"
  by (simp add: unistd_5_def)

lemma unistd_6_short: "ascends 213 244 (unistd_6 a)"
  by (simp add: unistd_6_def)

lemma unistd_6_ascends: "ascends 213 260 (unistd_6 a)"
  by (simp add: unistd_6_def)

lemma unistd_7_ascends: "ascends 260 424 (unistd_7 a)"
  by (simp add: unistd_7_def)

lemma unistd_8_ascends: "ascends 424 451 (unistd_8 a)"
  by (simp add: unistd_8_def)

lemma unistd_ascends: "ascends 0 451 (unistd a)"
  unfolding unistd_def
  by (intro ascends_append [OF unistd_1_ascends] ascends_append [OF unistd_2_ascends]
      ascends_append [OF unistd_3_ascends] ascends_append [OF unistd_4_ascends]
      ascends_append [OF unistd_5_ascends] ascends_append [OF unistd_6_ascends]
      ascends_append [OF unistd_7_ascends] unistd_8_ascends)

text \<open>The numbers that architectures may use for calls of their own stay free.\<close>

lemma unistd_arch_free:
  "e \<in> set (unistd a) \<Longrightarrow> sc_nr e < NR_arch_specific_syscall \<or> NR_arch_specific_syscall + 16 \<le> sc_nr e"
  using ascends_bounds [OF unistd_1_ascends [of a]] ascends_bounds [OF unistd_2_ascends [of a]]
    ascends_bounds [OF unistd_3_ascends [of a]] ascends_bounds [OF unistd_4_ascends [of a]]
    ascends_bounds [OF unistd_5_ascends [of a]] ascends_bounds [OF unistd_6_short [of a]]
    ascends_bounds [OF unistd_7_ascends [of a]] ascends_bounds [OF unistd_8_ascends [of a]]
  unfolding unistd_def NR_arch_specific_syscall_def by fastforce

lemma kv_entries:
  "SYSCALL ''_write_kv'' 449 ''sys_write_kv'' \<in> set (unistd a)"
  "SYSCALL ''_read_kv'' 450 ''sys_read_kv'' \<in> set (unistd a)"
  by (simp_all add: unistd_def unistd_8_def)

lemma sys_calls_entry:
  assumes "e \<in> set (unistd a)"
  shows "map_of (sys_calls a) (sc_nr e) = Some (sc_handler a e)"
proof (rule map_of_is_SomeI)
  show "distinct (map fst (sys_calls a))"
    using ascends_distinct [OF unistd_ascends] by (simp add: sys_calls_def comp_def)
  show "(sc_nr e, sc_handler a e) \<in> set (sys_calls a)" using assms by (auto simp: sys_calls_def)
qed

section \<open>Second names\<close>

definition is_nr_name :: "arch \<Rightarrow> string \<Rightarrow> bool" where
  "is_nr_name a nm = list_ex (\<lambda>e. sc_name e = nm) (unistd a)"

lemma is_nr_nameI: "e \<in> set (unistd a) \<Longrightarrow> sc_name e = nm \<Longrightarrow> is_nr_name a nm"
  by (auto simp: is_nr_name_def list_ex_iff)

lemma names_3264:
  "is_nr_name a ''3264_fcntl''" "is_nr_name a ''3264_statfs''" "is_nr_name a ''3264_fstatfs''"
  "is_nr_name a ''3264_truncate''" "is_nr_name a ''3264_ftruncate''" "is_nr_name a ''3264_lseek''"
  "is_nr_name a ''3264_sendfile''" "is_nr_name a ''3264_mmap''" "is_nr_name a ''3264_fadvise64''"
  "stat_calls a \<Longrightarrow> is_nr_name a ''3264_fstatat''" "stat_calls a \<Longrightarrow> is_nr_name a ''3264_fstat''"
  by (simp_all add: is_nr_name_def unistd_def unistd_1_def unistd_2_def unistd_3_def unistd_6_def)

lemma no_3264_stat: "\<not> is_nr_name a ''3264_stat''"
  by (simp add: is_nr_name_def unistd_def unistd_1_def unistd_2_def unistd_3_def unistd_4_def unistd_5_def
      unistd_6_def unistd_7_def unistd_8_def)

section \<open>Properties\<close>

text \<open>
  C25: Whatever an architecture asks for, the table is a partial function: no number has two handlers,
  every number is below \<^verbatim>\<open>__NR_syscalls\<close>, the sixteen numbers that are reserved for architectures are
  free, the numbers 449 and 450 have the handlers of the key-value store, and every second name at the
  end of the file stands for a number of the table.
\<close>

theorem unistd_table:
  "distinct (map fst (sys_calls a)) \<and>
   list_all (\<lambda>(n, h). n < NR_syscalls \<and>
     n \<notin> {NR_arch_specific_syscall ..< NR_arch_specific_syscall + 16}) (sys_calls a) \<and>
   map_of (sys_calls a) 449 = Some ''sys_write_kv'' \<and> map_of (sys_calls a) 450 = Some ''sys_read_kv'' \<and>
   list_all (\<lambda>(nm, target). is_nr_name a target) (nr_aliases a)"
proof (intro conjI)
  show "distinct (map fst (sys_calls a))"
    using ascends_distinct [OF unistd_ascends] by (simp add: sys_calls_def comp_def)
  have "sc_nr e < NR_syscalls \<and> sc_nr e \<notin> {NR_arch_specific_syscall ..< NR_arch_specific_syscall + 16}"
    if "e \<in> set (unistd a)" for e
    using ascends_bounds [OF unistd_ascends [of a]] unistd_arch_free [OF that] that
    by (auto simp: NR_syscalls_def)
  then show "list_all (\<lambda>(n, h). n < NR_syscalls \<and>
     n \<notin> {NR_arch_specific_syscall ..< NR_arch_specific_syscall + 16}) (sys_calls a)"
    by (auto simp: sys_calls_def list_all_iff)
  show "map_of (sys_calls a) 449 = Some ''sys_write_kv''" "map_of (sys_calls a) 450 = Some ''sys_read_kv''"
    using sys_calls_entry [OF kv_entries(1)] sys_calls_entry [OF kv_entries(2)] by simp_all
  show "list_all (\<lambda>(nm, target). is_nr_name a target) (nr_aliases a)"
    using names_3264 no_3264_stat by (simp add: nr_aliases_def Let_def flip: is_nr_name_def)
qed

end
