(* ===== verification/Unwind.thy ===== *)
theory Unwind
  imports Main
begin

text \<open>
  Functions that acquire one resource after another and jump, on the first failure, to the label
  that gives back what has been acquired so far. A stage is one such step: it either succeeds or
  fails with the label it jumps to and an error; \<open>unwind l\<close> is the code from the label \<open>l\<close> to the
  end of the function, fall-through included. The contract is that a stage which succeeds moves
  the pending label from \<open>l\<close> to \<open>l'\<close>, and that in both cases unwinding from the new state gives what
  unwinding from the old one would have given. The lemmas turn that into a statement on the whole
  sequence. It is used for \<^verbatim>\<open>copy_process\<close> and for \<^verbatim>\<open>ksys_unshare\<close>.
\<close>

fun run_stages :: "('s \<Rightarrow> ('l \<times> 'e) option \<times> 's) list \<Rightarrow> 's \<Rightarrow> ('l \<times> 'e) option \<times> 's" where
  "run_stages [] st = (None, st)"
| "run_stages (f # fs) st =
     (case f st of (Some x, st') \<Rightarrow> (Some x, st') | (None, st') \<Rightarrow> run_stages fs st')"

lemma run_stages_append:
  "run_stages (fs @ gs) st =
     (case run_stages fs st of (Some x, st') \<Rightarrow> (Some x, st') | (None, st') \<Rightarrow> run_stages gs st')"
  by (induction fs arbitrary: st) (auto split: prod.splits option.splits)

text \<open>What a stage establishes: \<open>Q\<close> when it succeeds, \<open>F\<close> when it fails.\<close>

definition post :: "('s \<Rightarrow> bool) \<Rightarrow> ('s \<Rightarrow> 'x option \<times> 's) \<Rightarrow> ('s \<Rightarrow> bool) \<Rightarrow> ('s \<Rightarrow> bool) \<Rightarrow> bool" where
  "post P f Q F \<longleftrightarrow> (\<forall>st. P st \<longrightarrow> (case f st of (None, st') \<Rightarrow> Q st' | (Some x, st') \<Rightarrow> F st'))"

lemma post_Nil: "post P (run_stages []) P F"
  by (simp add: post_def)

lemma post_Cons: "post P f Q F \<Longrightarrow> post Q (run_stages fs) R F \<Longrightarrow> post P (run_stages (f # fs)) R F"
  unfolding post_def by (fastforce split: prod.splits option.splits)

lemma postD:
  "post P f Q F \<Longrightarrow> P st \<Longrightarrow> f st = (None, st') \<Longrightarrow> Q st'"
  "post P f Q F \<Longrightarrow> P st \<Longrightarrow> f st = (Some x, st') \<Longrightarrow> F st'"
  unfolding post_def by fastforce+

locale unwinding =
  fixes sim :: "'k \<Rightarrow> 'k \<Rightarrow> bool"
    and unwind :: "'l \<Rightarrow> 's \<Rightarrow> 'k"
  assumes sim_refl: "sim k k"
    and sim_trans: "sim k1 k2 \<Longrightarrow> sim k2 k3 \<Longrightarrow> sim k1 k3"
begin

definition keeps :: "('s \<Rightarrow> bool) \<Rightarrow> 'l \<Rightarrow> ('s \<Rightarrow> ('l \<times> 'e) option \<times> 's) \<Rightarrow> 'l \<Rightarrow> ('s \<Rightarrow> bool) \<Rightarrow> bool" where
  "keeps P l f l' Q \<longleftrightarrow> (\<forall>st r st'. P st \<longrightarrow> f st = (r, st') \<longrightarrow>
     (case r of
        None \<Rightarrow> Q st' \<and> sim (unwind l' st') (unwind l st)
      | Some (m, e) \<Rightarrow> sim (unwind m st') (unwind l st)))"

lemma keepsI:
  assumes "\<And>st st'. P st \<Longrightarrow> f st = (None, st') \<Longrightarrow> Q st'"
    and "\<And>st st'. P st \<Longrightarrow> f st = (None, st') \<Longrightarrow> sim (unwind l' st') (unwind l st)"
    and "\<And>st m e st'. P st \<Longrightarrow> f st = (Some (m, e), st') \<Longrightarrow> sim (unwind m st') (unwind l st)"
  shows "keeps P l f l' Q"
  using assms unfolding keeps_def by (auto split: option.splits)

lemma keeps_okD: "keeps P l f l' Q \<Longrightarrow> P st \<Longrightarrow> f st = (None, st') \<Longrightarrow> Q st' \<and> sim (unwind l' st') (unwind l st)"
  unfolding keeps_def by fastforce

lemma keeps_failD: "keeps P l f l' Q \<Longrightarrow> P st \<Longrightarrow> f st = (Some (m, e), st') \<Longrightarrow> sim (unwind m st') (unwind l st)"
  unfolding keeps_def by fastforce

lemma keeps_Nil: "keeps P l (run_stages []) l P"
  by (rule keepsI) (simp_all add: sim_refl)

lemma keeps_Cons:
  assumes f: "keeps P l f l' Q" and fs: "keeps Q l' (run_stages fs) l'' R"
  shows "keeps P l (run_stages (f # fs)) l'' R"
proof (rule keepsI)
  fix st st'
  assume P: "P st" and "run_stages (f # fs) st = (None, st')"
  then obtain st1 where 1: "f st = (None, st1)" "run_stages fs st1 = (None, st')"
    by (auto split: prod.splits option.splits)
  then show "R st'" using keeps_okD [OF f P 1(1)] keeps_okD [OF fs _ 1(2)] by blast
  from 1 show "sim (unwind l'' st') (unwind l st)"
    using keeps_okD [OF f P 1(1)] keeps_okD [OF fs _ 1(2)] sim_trans by blast
next
  fix st m e st'
  assume P: "P st" and r: "run_stages (f # fs) st = (Some (m, e), st')"
  then consider "f st = (Some (m, e), st')"
    | st1 where "f st = (None, st1)" "run_stages fs st1 = (Some (m, e), st')"
    by (auto split: prod.splits option.splits)
  then show "sim (unwind m st') (unwind l st)"
  proof cases
    case 1
    then show ?thesis by (rule keeps_failD [OF f P])
  next
    case 2
    then show ?thesis using keeps_okD [OF f P 2(1)] keeps_failD [OF fs _ 2(2)] sim_trans by blast
  qed
qed

lemma run_fails:
  assumes "keeps P l (run_stages fs) l' Q" and "P st" and "run_stages fs st = (Some (m, e), st')"
  shows "sim (unwind m st') (unwind l st)"
  using keeps_failD assms .

end

end
