(* ===== verification/Copy_Process.thy ===== *)
theory Copy_Process
  imports Fork_Copy Unwind
begin

text \<open>
  \<^verbatim>\<open>copy_process\<close> (\<^verbatim>\<open>kernel/fork.c\<close>), the body of every fork. The checks on the clone flags come first;
  then one stage per step that can fail, in the order of the source, each with the label its \<^verbatim>\<open>goto\<close>
  names; then the code after the last failure point, which makes the task visible. The error labels
  are one definition each, ending in a call of the next, as the C code falls through.

  The task under construction is the value \<open>cp_p\<close> until it is linked into the task list, when it
  is stored at its address. The fields of \<^verbatim>\<open>current\<close> are those at entry (\<open>cx_curt\<close>): \<^verbatim>\<open>copy_process\<close> itself
  only writes its \<^verbatim>\<open>flags\<close> before the last failure point.
\<close>

section \<open>Arguments and state\<close>

text \<open>\<^verbatim>\<open>struct kernel_clone_args\<close>, as far as \<^verbatim>\<open>fork.c\<close> uses it.\<close>

record clone_args =
  ca_flags :: u64
  ca_pidfd :: ptr
  ca_child_tid :: ptr
  ca_parent_tid :: ptr
  ca_exit_signal :: int
  ca_stack :: u64
  ca_stack_size :: u64
  ca_tls :: u64
  ca_set_tid :: "int list"
  ca_cgroup :: int
  ca_io_thread :: bool

record cp_ctx =
  cx_K :: kconst
  cx_E :: cp_env
  cx_args :: clone_args
  cx_cur :: addr
  cx_curt :: task_struct
  cx_trace :: bool
  cx_pid :: addr
  cx_init_struct_pid :: addr

abbreviation cx_flags :: "cp_ctx \<Rightarrow> u64" where
  "cx_flags C \<equiv> ca_flags (cx_args C)"

definition cx_p :: "cp_ctx \<Rightarrow> addr" where
  "cx_p C = the (se_task (ce_stack (cx_E C)))"

datatype fork_label =
    Fork_out | Bad_fork_free | Bad_fork_cleanup_count | Bad_fork_cleanup_threadgroup_lock | Bad_fork_cleanup_policy
  | Bad_fork_cleanup_perf | Bad_fork_cleanup_audit | Bad_fork_cleanup_security | Bad_fork_cleanup_semundo
  | Bad_fork_cleanup_files | Bad_fork_cleanup_fs | Bad_fork_cleanup_sighand | Bad_fork_cleanup_signal
  | Bad_fork_cleanup_mm | Bad_fork_cleanup_namespaces | Bad_fork_cleanup_io | Bad_fork_cleanup_thread
  | Bad_fork_free_pid | Bad_fork_put_pidfd | Bad_fork_cancel_cgroup

record cp_state =
  cp_k :: kernel
  cp_p :: task_struct
  cp_pid :: addr
  cp_pidfd :: int
  cp_pidfile :: ptr

type_synonym cp_stage = "cp_state \<Rightarrow> (fork_label \<times> errno) option \<times> cp_state"

section \<open>Flag checks\<close>

definition clone_flags_check :: "cp_ctx \<Rightarrow> kernel \<Rightarrow> kret" where
  "clone_flags_check C k =
     (let K = cx_K C; f = cx_flags C; cur = cx_curt C;
          nsp = deref (k_nsproxys k) (the (ts_nsproxy cur));
          cursig = deref (k_signals k) (the (ts_signal cur))
      in if f AND (CLONE_NEWNS K OR CLONE_FS K) = CLONE_NEWNS K OR CLONE_FS K then Some EINVAL
         else if f AND (CLONE_NEWUSER K OR CLONE_FS K) = CLONE_NEWUSER K OR CLONE_FS K then Some EINVAL
         else if has f (CLONE_THREAD K) \<and> \<not> has f (CLONE_SIGHAND K) then Some EINVAL
         else if has f (CLONE_SIGHAND K) \<and> \<not> has f (CLONE_VM K) then Some EINVAL
         else if has f (CLONE_PARENT K) \<and> has (sg_flags cursig) (SIGNAL_UNKILLABLE K) then Some EINVAL
         else if has f (CLONE_THREAD K) \<and>
              (has f (CLONE_NEWUSER K OR CLONE_NEWPID K) \<or>
               ce_active_pid_ns (cx_E C) \<noteq> ns_pid_ns_for_children nsp) then Some EINVAL
         else if has f (CLONE_THREAD K OR CLONE_VM K) \<and> ns_time_ns nsp \<noteq> ns_time_ns_for_children nsp then Some EINVAL
         else if has f (CLONE_PIDFD K) \<and> has f (CLONE_DETACHED K OR CLONE_THREAD K) then Some EINVAL
         else None)"

section \<open>Error labels\<close>

definition un_fork_out :: "cp_ctx \<Rightarrow> kernel \<Rightarrow> kernel" where
  "un_fork_out C k =
     klog [Rel R_siglock]
       (set_signal (the (ts_signal (cx_curt C))) (\<lambda>s. s\<lparr>sg_multiprocess := remove1 (ce_node (cx_E C)) (sg_multiprocess s)\<rparr>)
         (klog [Acq R_siglock] k))"

definition un_free :: "cp_ctx \<Rightarrow> task_struct \<Rightarrow> kernel \<Rightarrow> kernel" where
  "un_free C p k =
     (case put_task_stack (cx_K C) (se_cpu (ce_stack (cx_E C))) (p\<lparr>ts_state := TASK_DEAD\<rparr>) k of
        (p, k) \<Rightarrow> un_fork_out C (delayed_free_task p k))"

definition un_count :: "cp_ctx \<Rightarrow> task_struct \<Rightarrow> kernel \<Rightarrow> kernel" where
  "un_count C p k = un_free C p (klog [Rel R_nproc, Rel R_creds] k)"

definition un_threadgroup_lock :: "cp_ctx \<Rightarrow> task_struct \<Rightarrow> kernel \<Rightarrow> kernel" where
  "un_threadgroup_lock C p k = un_count C p (klog [Rel R_delayacct] k)"

definition un_policy :: "cp_ctx \<Rightarrow> task_struct \<Rightarrow> kernel \<Rightarrow> kernel" where
  "un_policy C p k =
     un_threadgroup_lock C p
       (klog (if ts_mempolicy p \<noteq> None then [Call ''lockdep_free_task'', Rel R_mempolicy]
              else [Call ''lockdep_free_task'']) k)"

definition un_perf :: "cp_ctx \<Rightarrow> task_struct \<Rightarrow> kernel \<Rightarrow> kernel" where
  "un_perf C p k = un_policy C p (klog [Rel R_perf] k)"

definition un_audit :: "cp_ctx \<Rightarrow> task_struct \<Rightarrow> kernel \<Rightarrow> kernel" where
  "un_audit C p k = un_perf C p (klog [Rel R_audit] k)"

definition un_security :: "cp_ctx \<Rightarrow> task_struct \<Rightarrow> kernel \<Rightarrow> kernel" where
  "un_security C p k = un_audit C p (klog [Rel R_security] k)"

definition un_semundo :: "cp_ctx \<Rightarrow> task_struct \<Rightarrow> kernel \<Rightarrow> kernel" where
  "un_semundo C p k = un_security C p (klog [Rel R_semundo] k)"

definition un_files :: "cp_ctx \<Rightarrow> task_struct \<Rightarrow> kernel \<Rightarrow> kernel" where
  "un_files C p k = un_semundo C p (ce_exit_files (cx_E C) p k)"

definition un_fs :: "cp_ctx \<Rightarrow> task_struct \<Rightarrow> kernel \<Rightarrow> kernel" where
  "un_fs C p k = un_files C p (ce_exit_fs (cx_E C) p k)"

definition un_sighand :: "cp_ctx \<Rightarrow> task_struct \<Rightarrow> kernel \<Rightarrow> kernel" where
  "un_sighand C p k = un_fs C p (cleanup_sighand (the (ts_sighand p)) k)"

definition un_signal :: "cp_ctx \<Rightarrow> task_struct \<Rightarrow> kernel \<Rightarrow> kernel" where
  "un_signal C p k =
     un_sighand C p (if has (cx_flags C) (CLONE_THREAD (cx_K C)) then k else free_signal_struct (the (ts_signal p)) k)"

definition un_mm :: "cp_ctx \<Rightarrow> task_struct \<Rightarrow> kernel \<Rightarrow> kernel" where
  "un_mm C p k =
     un_signal C p
       (case ts_mm p of
          None \<Rightarrow> k
        | Some mm \<Rightarrow> mmput (ce_mm (cx_E C)) (cx_curt C) mm (mm_clear_owner mm (cx_p C) k))"

definition un_namespaces :: "cp_ctx \<Rightarrow> task_struct \<Rightarrow> kernel \<Rightarrow> kernel" where
  "un_namespaces C p k = un_mm C p (klog [Rel R_namespaces] k)"

definition un_io :: "cp_ctx \<Rightarrow> task_struct \<Rightarrow> kernel \<Rightarrow> kernel" where
  "un_io C p k = un_namespaces C p (if ts_io_context p \<noteq> None then ce_exit_io (cx_E C) p k else k)"

definition un_thread :: "cp_ctx \<Rightarrow> task_struct \<Rightarrow> kernel \<Rightarrow> kernel" where
  "un_thread C p k = un_io C p (klog [Rel R_thread] k)"

definition un_free_pid :: "cp_ctx \<Rightarrow> addr \<Rightarrow> task_struct \<Rightarrow> kernel \<Rightarrow> kernel" where
  "un_free_pid C pid p k = un_thread C p (if pid \<noteq> cx_init_struct_pid C then klog [Rel R_pid] k else k)"

text \<open>\<^verbatim>\<open>fput(pidfile)\<close> ends in \<^verbatim>\<open>pidfd_release\<close>, which drops the file's reference to the pid.\<close>

definition un_put_pidfd :: "cp_ctx \<Rightarrow> addr \<Rightarrow> task_struct \<Rightarrow> kernel \<Rightarrow> kernel" where
  "un_put_pidfd C pid p k =
     un_free_pid C pid p
       (if has (cx_flags C) (CLONE_PIDFD (cx_K C))
        then klog [Rel R_pidfile, Rel R_pidref, Rel R_unused_fd] k else k)"

definition un_cancel_cgroup :: "cp_ctx \<Rightarrow> addr \<Rightarrow> task_struct \<Rightarrow> kernel \<Rightarrow> kernel" where
  "un_cancel_cgroup C pid p k =
     un_put_pidfd C pid p (klog [Rel R_sched_core, Rel R_siglock, Rel R_tasklist, Rel R_cgroup] k)"

fun unwind_fork :: "cp_ctx \<Rightarrow> fork_label \<Rightarrow> cp_state \<Rightarrow> kernel" where
  "unwind_fork C Fork_out st = un_fork_out C (cp_k st)"
| "unwind_fork C Bad_fork_free st = un_free C (cp_p st) (cp_k st)"
| "unwind_fork C Bad_fork_cleanup_count st = un_count C (cp_p st) (cp_k st)"
| "unwind_fork C Bad_fork_cleanup_threadgroup_lock st = un_threadgroup_lock C (cp_p st) (cp_k st)"
| "unwind_fork C Bad_fork_cleanup_policy st = un_policy C (cp_p st) (cp_k st)"
| "unwind_fork C Bad_fork_cleanup_perf st = un_perf C (cp_p st) (cp_k st)"
| "unwind_fork C Bad_fork_cleanup_audit st = un_audit C (cp_p st) (cp_k st)"
| "unwind_fork C Bad_fork_cleanup_security st = un_security C (cp_p st) (cp_k st)"
| "unwind_fork C Bad_fork_cleanup_semundo st = un_semundo C (cp_p st) (cp_k st)"
| "unwind_fork C Bad_fork_cleanup_files st = un_files C (cp_p st) (cp_k st)"
| "unwind_fork C Bad_fork_cleanup_fs st = un_fs C (cp_p st) (cp_k st)"
| "unwind_fork C Bad_fork_cleanup_sighand st = un_sighand C (cp_p st) (cp_k st)"
| "unwind_fork C Bad_fork_cleanup_signal st = un_signal C (cp_p st) (cp_k st)"
| "unwind_fork C Bad_fork_cleanup_mm st = un_mm C (cp_p st) (cp_k st)"
| "unwind_fork C Bad_fork_cleanup_namespaces st = un_namespaces C (cp_p st) (cp_k st)"
| "unwind_fork C Bad_fork_cleanup_io st = un_io C (cp_p st) (cp_k st)"
| "unwind_fork C Bad_fork_cleanup_thread st = un_thread C (cp_p st) (cp_k st)"
| "unwind_fork C Bad_fork_free_pid st = un_free_pid C (cp_pid st) (cp_p st) (cp_k st)"
| "unwind_fork C Bad_fork_put_pidfd st = un_put_pidfd C (cp_pid st) (cp_p st) (cp_k st)"
| "unwind_fork C Bad_fork_cancel_cgroup st = un_cancel_cgroup C (cp_pid st) (cp_p st) (cp_k st)"

section \<open>Stages\<close>

text \<open>\<open>call_or l r es\<close> is a call that answers \<open>r\<close>: a failure jumps to \<open>l\<close>, a success logs \<open>es\<close>.\<close>

definition call_or :: "fork_label \<Rightarrow> kret \<Rightarrow> kevent list \<Rightarrow> cp_stage" where
  "call_or l r es st =
     (case r of Some e \<Rightarrow> (Some (l, e), st) | None \<Rightarrow> (None, st\<lparr>cp_k := klog es (cp_k st)\<rparr>))"

text \<open>A copy function that returns its verdict, the task and the kernel.\<close>

definition copy_or :: "fork_label \<Rightarrow> (task_struct \<Rightarrow> kernel \<Rightarrow> kret \<times> task_struct \<times> kernel) \<Rightarrow> cp_stage" where
  "copy_or l f st =
     (case f (cp_p st) (cp_k st) of (r, p, k) \<Rightarrow>
        (map_option (Pair l) r, st\<lparr>cp_p := p, cp_k := k\<rparr>))"

definition cp_begin :: "cp_ctx \<Rightarrow> task_struct \<Rightarrow> task_struct" where
  "cp_begin C p =
     (let K = cx_K C; f = cx_flags C; args = cx_args C;
          p = (if ca_io_thread args
               then p\<lparr>ts_flags := ts_flags p OR PF_IO_WORKER,
                      ts_blocked := {1..NSIG K} - {SIGKILL K, SIGSTOP K}\<rparr> else p);
          p = p\<lparr>ts_set_child_tid := (if has f (CLONE_CHILD_SETTID K) then ca_child_tid args else None),
                ts_clear_child_tid := (if has f (CLONE_CHILD_CLEARTID K) then ca_child_tid args else None)\<rparr>
      in rt_mutex_init_task p)"

definition stage_creds :: "cp_ctx \<Rightarrow> cp_stage" where
  "stage_creds C = call_or Bad_fork_free (ce_creds (cx_E C)) [Acq R_creds, Acq R_nproc]"

definition clear_nproc :: "task_struct \<Rightarrow> task_struct" where
  "clear_nproc t = t\<lparr>ts_flags := ts_flags t AND NOT PF_NPROC_EXCEEDED\<rparr>"

definition stage_limits :: "cp_ctx \<Rightarrow> cp_stage" where
  "stage_limits C st =
     (let E = cx_E C in
      if ce_overlimit E \<and> \<not> ce_init_user E \<and> \<not> ce_cap_resource E \<and> \<not> ce_cap_admin E
      then (Some (Bad_fork_cleanup_count, EAGAIN), st)
      else
        let k = cp_k st;
            k = k\<lparr>k_tasks := upd (cx_cur C) clear_nproc (k_tasks k)\<rparr>;
            st = st\<lparr>cp_k := k\<rparr>
        in if k_max_threads k \<le> k_nr_threads k then (Some (Bad_fork_cleanup_count, EAGAIN), st)
           else (None, st))"

definition init_fields :: "cp_ctx \<Rightarrow> task_struct \<Rightarrow> task_struct" where
  "init_fields C p =
     (let p = p\<lparr>ts_flags := ts_flags p AND NOT (PF_SUPERPRIV OR PF_WQ_WORKER OR PF_IDLE OR PF_NO_SETAFFINITY)\<rparr>;
          p = p\<lparr>ts_flags := ts_flags p OR PF_FORKNOEXEC, ts_children := []\<rparr>;
          p = rcu_copy_process p
      in p\<lparr>ts_vfork_done := None, ts_pending := {}, ts_utime := 0, ts_stime := 0, ts_gtime := 0,
           ts_io_uring := None, ts_default_timer_slack_ns := ts_timer_slack_ns (cx_curt C), ts_psi_flags := 0,
           ts_io_context := None, ts_audit_context := None\<rparr>)"

definition stage_policy :: "cp_ctx \<Rightarrow> cp_stage" where
  "stage_policy C st =
     (let p = init_fields C (cp_p st);
          k = klog [Acq R_delayacct, Call ''task_io_accounting_init'', Call ''acct_clear_integrals'',
                    Call ''posix_cputimers_init'', Call ''tick_dep_init_task'', Call ''cgroup_fork''] (cp_k st)
      in case ts_mempolicy p of
           None \<Rightarrow> (None, st\<lparr>cp_p := p, cp_k := k\<rparr>)
         | Some _ \<Rightarrow>
             (case ce_mpol (cx_E C) of
                Inl e \<Rightarrow> (Some (Bad_fork_cleanup_threadgroup_lock, e), st\<lparr>cp_p := p\<lparr>ts_mempolicy := None\<rparr>, cp_k := k\<rparr>)
              | Inr a \<Rightarrow> (None, st\<lparr>cp_p := p\<lparr>ts_mempolicy := Some a\<rparr>, cp_k := klog [Acq R_mempolicy] k\<rparr>)))"

definition stage_sched :: "cp_ctx \<Rightarrow> cp_stage" where
  "stage_sched C st =
     call_or Bad_fork_cleanup_policy (ce_sched (cx_E C)) [Call ''sched_fork'']
       (st\<lparr>cp_p := (cp_p st)\<lparr>ts_cpuset_mem_spread_rotor := -1, ts_cpuset_slab_spread_rotor := -1,
                   ts_pagefault_disabled := 0, ts_bpf_storage := None, ts_bpf_ctx := None\<rparr>\<rparr>)"

definition stage_perf :: "cp_ctx \<Rightarrow> cp_stage" where
  "stage_perf C = call_or Bad_fork_cleanup_policy (ce_perf (cx_E C)) [Acq R_perf]"

definition stage_audit :: "cp_ctx \<Rightarrow> cp_stage" where
  "stage_audit C = call_or Bad_fork_cleanup_perf (ce_audit (cx_E C)) [Acq R_audit]"

definition stage_security :: "cp_ctx \<Rightarrow> cp_stage" where
  "stage_security C = call_or Bad_fork_cleanup_audit (ce_security (cx_E C)) [Acq R_security]"

definition stage_semundo :: "cp_ctx \<Rightarrow> cp_stage" where
  "stage_semundo C = call_or Bad_fork_cleanup_security (ce_semundo (cx_E C)) [Acq R_semundo]"

definition stage_files :: "cp_ctx \<Rightarrow> cp_stage" where
  "stage_files C = copy_or Bad_fork_cleanup_semundo (copy_files (cx_K C) (cx_E C) (cx_flags C) (cx_curt C))"

definition stage_fs :: "cp_ctx \<Rightarrow> cp_stage" where
  "stage_fs C = copy_or Bad_fork_cleanup_files (copy_fs (cx_K C) (cx_E C) (cx_flags C) (cx_curt C))"

definition stage_sighand :: "cp_ctx \<Rightarrow> cp_stage" where
  "stage_sighand C = copy_or Bad_fork_cleanup_fs (copy_sighand (cx_K C) (cx_E C) (cx_flags C) (cx_curt C))"

definition stage_signal :: "cp_ctx \<Rightarrow> cp_stage" where
  "stage_signal C = copy_or Bad_fork_cleanup_sighand (copy_signal (cx_K C) (cx_E C) (cx_flags C) (cx_curt C) (cx_p C))"

definition stage_mm :: "cp_ctx \<Rightarrow> cp_stage" where
  "stage_mm C = copy_or Bad_fork_cleanup_signal (copy_mm (cx_K C) (ce_mm (cx_E C)) (cx_flags C) (cx_curt C) (cx_p C))"

definition stage_namespaces :: "cp_ctx \<Rightarrow> cp_stage" where
  "stage_namespaces C st =
     (case ce_namespaces (cx_E C) of
        Inl e \<Rightarrow> (Some (Bad_fork_cleanup_mm, e), st)
      | Inr nsp \<Rightarrow> (None, st\<lparr>cp_p := (cp_p st)\<lparr>ts_nsproxy := nsp\<rparr>, cp_k := klog [Acq R_namespaces] (cp_k st)\<rparr>))"

definition stage_io :: "cp_ctx \<Rightarrow> cp_stage" where
  "stage_io C = copy_or Bad_fork_cleanup_namespaces (copy_io (cx_K C) (cx_E C) (cx_flags C) (cx_curt C))"

definition stage_thread :: "cp_ctx \<Rightarrow> cp_stage" where
  "stage_thread C = call_or Bad_fork_cleanup_io (ce_thread (cx_E C)) [Acq R_thread, Call ''stackleak_task_init'']"

definition stage_pid :: "cp_ctx \<Rightarrow> cp_stage" where
  "stage_pid C st =
     (if cx_pid C \<noteq> cx_init_struct_pid C
      then case ce_pid (cx_E C) of
             Inl e \<Rightarrow> (Some (Bad_fork_cleanup_thread, e), st)
           | Inr pid \<Rightarrow> (None, st\<lparr>cp_pid := pid, cp_k := klog [Acq R_pid] (cp_k st)\<rparr>)
      else (None, st))"

definition stage_pidfd :: "cp_ctx \<Rightarrow> cp_stage" where
  "stage_pidfd C st =
     (if has (cx_flags C) (CLONE_PIDFD (cx_K C))
      then case ce_fd (cx_E C) of
             Inl e \<Rightarrow> (Some (Bad_fork_free_pid, e), st)
           | Inr fd \<Rightarrow>
               let st = st\<lparr>cp_pidfd := fd, cp_k := klog [Acq R_unused_fd] (cp_k st)\<rparr>
               in case ce_pidfile (cx_E C) of
                    Inl e \<Rightarrow> (Some (Bad_fork_free_pid, e), st\<lparr>cp_k := klog [Rel R_unused_fd] (cp_k st)\<rparr>)
                  | Inr pidfile \<Rightarrow>
                      let st = st\<lparr>cp_pidfile := Some pidfile, cp_k := klog [Acq R_pidfile, Acq R_pidref] (cp_k st)\<rparr>
                      in (map_option (Pair Bad_fork_put_pidfd) (ce_put_user (cx_E C)), st)
      else (None, st))"

text \<open>The fields set from \<^verbatim>\<open>p->plug = NULL\<close> to \<^verbatim>\<open>cgroup_can_fork\<close>, with the key-value store.\<close>

definition copy_kv :: "cp_ctx \<Rightarrow> task_struct \<Rightarrow> kernel \<Rightarrow> task_struct \<times> kernel" where
  "copy_kv C p k =
     (if has (cx_flags C) (CLONE_THREAD (cx_K C)) then (p\<lparr>ts_kv := ts_kv (cx_curt C)\<rparr>, k)
      else case init_task_kv_store (ce_kv (cx_E C)) (ce_kv_junk (cx_E C)) p (k_kv k) of
             (_, p, H) \<Rightarrow> (p, k\<lparr>k_kv := H\<rparr>))"

definition set_ids :: "cp_ctx \<Rightarrow> addr \<Rightarrow> task_struct \<Rightarrow> task_struct" where
  "set_ids C pid p =
     (let p = p\<lparr>ts_pid := ce_pid_nr (cx_E C) pid\<rparr>
      in if has (cx_flags C) (CLONE_THREAD (cx_K C))
         then p\<lparr>ts_group_leader := ts_group_leader (cx_curt C), ts_tgid := ts_tgid (cx_curt C)\<rparr>
         else p\<lparr>ts_group_leader := cx_p C, ts_tgid := ts_pid p\<rparr>)"

definition stage_cgroup :: "cp_ctx \<Rightarrow> cp_stage" where
  "stage_cgroup C st =
     (let K = cx_K C; f = cx_flags C;
          (p, k) = copy_kv C ((cp_p st)\<lparr>ts_plug := None\<rparr>) (klog [Call ''futex_init_task''] (cp_k st));
          p = (if f AND (CLONE_VM K OR CLONE_VFORK K) = CLONE_VM K
               then p\<lparr>ts_sas_ss_sp := 0, ts_sas_ss_size := 0\<rparr> else p);
          k = klog [Call ''user_disable_single_step'', Call ''clear_tsk_latency_tracing''] k;
          p = p\<lparr>ts_syscall_work := ts_syscall_work p - {SW_SYSCALL_TRACE, SW_SYSCALL_EMU}\<rparr>;
          p = set_ids C (cp_pid st) p;
          p = p\<lparr>ts_nr_dirtied := 0, ts_nr_dirtied_pause := 32, ts_dirty_paused_when := 0, ts_pdeath_signal := 0,
                ts_thread_group := [], ts_task_works := None, ts_kretprobe_instances := None\<rparr>
      in call_or Bad_fork_put_pidfd (ce_can_fork (cx_E C)) [Acq R_cgroup, Call ''sched_cgroup_fork'']
           (st\<lparr>cp_p := p, cp_k := k\<rparr>))"

definition set_parent :: "cp_ctx \<Rightarrow> kernel \<Rightarrow> task_struct \<Rightarrow> task_struct" where
  "set_parent C k p =
     (let K = cx_K C; f = cx_flags C; cur = cx_curt C
      in if has f (CLONE_PARENT K OR CLONE_THREAD K)
         then p\<lparr>ts_real_parent := ts_real_parent cur, ts_parent_exec_id := ts_parent_exec_id cur,
                ts_exit_signal := (if has f (CLONE_THREAD K) then -1
                  else ts_exit_signal (deref (k_tasks k) (ts_group_leader cur)))\<rparr>
         else p\<lparr>ts_real_parent := cx_cur C, ts_parent_exec_id := ts_self_exec_id cur,
                ts_exit_signal := ca_exit_signal (cx_args C)\<rparr>)"

definition stage_lock :: "cp_ctx \<Rightarrow> cp_stage" where
  "stage_lock C st =
     (let p = (cp_p st)\<lparr>ts_start_time := ce_start_time (cx_E C), ts_start_boottime := ce_start_boottime (cx_E C)\<rparr>;
          k = klog [Acq R_tasklist] (cp_k st);
          p = set_parent C k p;
          k = klog [Call ''klp_copy_process'', Acq R_sched_core, Acq R_siglock] k;
          p = rseq_fork (has (cx_flags C) (CLONE_VM (cx_K C))) (cx_curt C) p;
          st = st\<lparr>cp_p := p, cp_k := k\<rparr>
      in if \<not> ce_ns_adding (cx_E C) then (Some (Bad_fork_cancel_cgroup, ENOMEM), st)
         else if ce_fatal (cx_E C) then (Some (Bad_fork_cancel_cgroup, EINTR), st)
         else (None, st))"

definition fork_stages :: "cp_ctx \<Rightarrow> cp_stage list" where
  "fork_stages C =
     [stage_creds C, stage_limits C, stage_policy C, stage_sched C, stage_perf C, stage_audit C, stage_security C,
      stage_semundo C, stage_files C, stage_fs C, stage_sighand C, stage_signal C, stage_mm C, stage_namespaces C,
      stage_io C, stage_thread C, stage_pid C, stage_pidfd C, stage_cgroup C, stage_lock C]"

section \<open>After the last failure point\<close>

definition thread_group_leader :: "task_struct \<Rightarrow> bool" where
  "thread_group_leader p \<longleftrightarrow> 0 \<le> ts_exit_signal p"

definition set_task :: "addr \<Rightarrow> (task_struct \<Rightarrow> task_struct) \<Rightarrow> kernel \<Rightarrow> kernel" where
  "set_task a f k = k\<lparr>k_tasks := upd a f (k_tasks k)\<rparr>"

text \<open>The branch for a new process: its signal structure, its place among its siblings and in the task list.\<close>

definition attach_leader :: "cp_ctx \<Rightarrow> addr \<Rightarrow> task_struct \<Rightarrow> kernel \<Rightarrow> task_struct \<times> kernel" where
  "attach_leader C pid p k =
     (let K = cx_K C; E = cx_E C; sig = the (ts_signal p);
          (p, k) = init_task_pid p PIDTYPE_TGID (Some pid) k;
          (p, k) = init_task_pid p PIDTYPE_PGID (ce_pgrp E) k;
          (p, k) = init_task_pid p PIDTYPE_SID (ce_session E) k;
          k = (if ce_child_reaper E
               then set_signal sig (\<lambda>s. s\<lparr>sg_flags := sg_flags s OR SIGNAL_UNKILLABLE K\<rparr>)
                      (klog [Call ''child_reaper = p''] k) else k);
          tty = sg_tty (deref (k_signals k) (the (ts_signal (cx_curt C))));
          k = (if tty \<noteq> None then klog [Acq R_tty] k else k);
          psig = deref (k_signals k) (the (ts_signal (deref (k_tasks k) (ts_real_parent p))));
          k = set_signal sig (\<lambda>s. s\<lparr>sg_shared_pending := ce_delayed E, sg_tty := tty,
                 sg_has_child_subreaper := sg_has_child_subreaper psig \<or> sg_is_child_subreaper psig\<rparr>) k;
          k = set_task (ts_real_parent p) (\<lambda>t. t\<lparr>ts_children := ts_children t @ [cx_p C]\<rparr>) k;
          k = k\<lparr>k_tasklist := k_tasklist k @ [cx_p C]\<rparr>;
          k = klog [Call ''attach_pid TGID'', Call ''attach_pid PGID'', Call ''attach_pid SID''] k;
          cpu = se_cpu (ce_stack E)
      in (p, k\<lparr>k_process_counts := (k_process_counts k)(cpu := k_process_counts k cpu + 1)\<rparr>))"

text \<open>The branch for a new thread of the group of \<^verbatim>\<open>current\<close>.\<close>

definition attach_thread :: "cp_ctx \<Rightarrow> task_struct \<Rightarrow> kernel \<Rightarrow> task_struct \<times> kernel" where
  "attach_thread C p k =
     (let k = set_signal (the (ts_signal (cx_curt C))) (\<lambda>s. s\<lparr>sg_nr_threads := sg_nr_threads s + 1,
                 sg_live := sg_live s + 1, sg_sigcnt := sg_sigcnt s + 1\<rparr>) k;
          k = klog [Call ''task_join_group_stop''] k;
          k = set_task (ts_group_leader p) (\<lambda>t. t\<lparr>ts_thread_group := ts_thread_group t @ [cx_p C]\<rparr>) k
      in (p, set_signal (the (ts_signal p)) (\<lambda>s. s\<lparr>sg_thread_head := sg_thread_head s @ [cx_p C]\<rparr>) k))"

definition attach_pids :: "cp_ctx \<Rightarrow> addr \<Rightarrow> task_struct \<Rightarrow> kernel \<Rightarrow> task_struct \<times> kernel" where
  "attach_pids C pid p k =
     (if ts_pid p \<noteq> 0
      then let k = klog [Call ''ptrace_init_task''] k;
               (p, k) = init_task_pid p PIDTYPE_PID (Some pid) k;
               (p, k) = (if thread_group_leader p then attach_leader C pid p k else attach_thread C p k)
           in (p, (klog [Call ''attach_pid PID''] k)\<lparr>k_nr_threads := k_nr_threads k + 1\<rparr>)
      else (p, k))"

definition attach_task :: "cp_ctx \<Rightarrow> addr \<Rightarrow> task_struct \<Rightarrow> kernel \<Rightarrow> task_struct \<times> kernel" where
  "attach_task C pid p k =
     (let (p, k) = copy_seccomp (cx_K C) (cx_curt C) p k;
          (p, k) = attach_pids C pid p k;
          k = k\<lparr>k_total_forks := k_total_forks k + 1\<rparr>;
          k = set_signal (the (ts_signal (cx_curt C)))
                (\<lambda>s. s\<lparr>sg_multiprocess := remove1 (ce_node (cx_E C)) (sg_multiprocess s)\<rparr>) k;
          k = klog [Rel R_siglock, Call ''syscall_tracepoint_update'', Rel R_tasklist] k
      in (p, k\<lparr>k_tasks := (k_tasks k)(cx_p C \<mapsto> p)\<rparr>))"

definition finish_fork :: "cp_ctx \<Rightarrow> cp_state \<Rightarrow> kernel" where
  "finish_fork C st =
     (let (p, k) = attach_task C (cp_pid st) (cp_p st) (cp_k st);
          k = (if cp_pidfile st \<noteq> None then klog [Call ''fd_install''] k else k);
          k = klog [Call ''proc_fork_connector'', Call ''sched_post_fork'', Call ''cgroup_post_fork'',
                    Call ''perf_event_fork'', Call ''trace_task_newtask'', Call ''uprobe_copy_process''] k
      in copy_oom_score_adj (cx_K C) (cx_flags C) (cx_curt C) p k)"

section \<open>The function\<close>

text \<open>Signals sent to several processes while the fork runs are collected by the node linked here.\<close>

definition link_delayed :: "cp_ctx \<Rightarrow> kernel \<Rightarrow> kernel" where
  "link_delayed C k =
     (let k = klog [Acq R_siglock] k;
          k = (if has (cx_flags C) (CLONE_THREAD (cx_K C)) then k
               else set_signal (the (ts_signal (cx_curt C)))
                      (\<lambda>s. s\<lparr>sg_multiprocess := ce_node (cx_E C) # sg_multiprocess s\<rparr>) k)
      in klog [Call ''recalc_sigpending'', Rel R_siglock] k)"

definition copy_process :: "cp_ctx \<Rightarrow> kernel \<Rightarrow> (errno + addr) \<times> kernel" where
  "copy_process C k =
     (case clone_flags_check C k of
        Some e \<Rightarrow> (Inl e, k)
      | None \<Rightarrow>
          let k = link_delayed C k
          in if ce_sigpending (cx_E C) then (Inl ERESTARTNOINTR, un_fork_out C k)
             else
               (case dup_task_struct (cx_K C) (ce_stack (cx_E C)) (cx_curt C) k of
                  (None, k) \<Rightarrow> (Inl ENOMEM, un_fork_out C k)
                | (Some (_, p), k) \<Rightarrow>
                    let p = cp_begin C p; k = klog [Call ''ftrace_graph_init_task''] k;
                        st = \<lparr>cp_k = k, cp_p = p, cp_pid = cx_pid C, cp_pidfd = -1, cp_pidfile = None\<rparr>
                    in (case run_stages (fork_stages C) st of
                          (Some (l, e), st) \<Rightarrow> (Inl e, unwind_fork C l st)
                        | (None, st) \<Rightarrow> (Inr (cx_p C), finish_fork C st))))"

end
