(* ===== verification/Copy_Unwind.thy ===== *)
theory Copy_Unwind
  imports Copy_Process
begin

text \<open>
  The error paths of \<^verbatim>\<open>copy_process\<close>: whichever stage fails, the labels give back everything the earlier
  stages acquired. Two kernel states are similar (\<open>fsim\<close>) when they agree on every object and counter
  and hold the same resources; left out are the objects nothing on these paths gives back by itself
  (the key-value stores, the files and VMAs that \<^verbatim>\<open>exit_mmap\<close> releases outside the tree) and the flag
  \<^verbatim>\<open>PF_NPROC_EXCEEDED\<close> of \<^verbatim>\<open>current\<close>, which a failed fork leaves cleared. Each label respects similarity and
  each stage keeps what unwinding would give, which is the contract of \<open>unwinding\<close>.
\<close>

section \<open>Similar states\<close>

definition fcore :: "addr \<Rightarrow> kernel \<Rightarrow> kernel" where
  "fcore cur k = k\<lparr>k_log := [], k_kv := \<lparr>kh_nodes = Map.empty, kh_stores = Map.empty\<rparr>, k_file := Map.empty,
     k_mappings := Map.empty, k_tasks := upd cur clear_nproc (k_tasks k)\<rparr>"

abbreviation (input) loose_res :: "resource set" where "loose_res \<equiv> {R_vma, R_vma_policy, R_stack}"

definition fsim :: "addr \<Rightarrow> kernel \<Rightarrow> kernel \<Rightarrow> bool" where
  "fsim cur k k' \<longleftrightarrow> fcore cur k = fcore cur k' \<and> (\<forall>r. r \<notin> loose_res \<longrightarrow> held (k_log k) r = held (k_log k') r)"

lemma fsim_refl [simp, intro]: "fsim cur k k"
  by (simp add: fsim_def)

lemma fsim_trans: "fsim cur k1 k2 \<Longrightarrow> fsim cur k2 k3 \<Longrightarrow> fsim cur k1 k3"
  by (simp add: fsim_def)

lemma fsim_sym: "fsim cur k k' \<Longrightarrow> fsim cur k' k"
  by (simp add: fsim_def)

lemma fcore_simps [simp]:
  "fcore cur (klog es k) = fcore cur k" "fcore cur (k\<lparr>k_file := fh\<rparr>) = fcore cur k"
  "fcore cur (k\<lparr>k_mappings := mh\<rparr>) = fcore cur k" "fcore cur (k\<lparr>k_kv := kh\<rparr>) = fcore cur k"
  by (simp_all add: fcore_def klog_def)

lemma clear_nproc_idem [simp]: "clear_nproc (clear_nproc t) = clear_nproc t"
  by (simp add: clear_nproc_def word_bw_assocs)

lemma fsim_sel:
  assumes "fsim cur k k'"
  shows "k_signals k = k_signals k'" "k_sighands k = k_sighands k'" "k_fss k = k_fss k'" "k_fds k = k_fds k'"
    "k_iocs k = k_iocs k'" "k_mms k = k_mms k'" "k_vms k = k_vms k'" "k_cached_stacks k = k_cached_stacks k'"
    "k_charged k = k_charged k'" "k_stack_kb k = k_stack_kb k'"
proof -
  have e: "g (fcore cur k) = g (fcore cur k')" for g using assms by (simp add: fsim_def)
  show "k_signals k = k_signals k'" using e [of k_signals] by (simp add: fcore_def)
  show "k_sighands k = k_sighands k'" using e [of k_sighands] by (simp add: fcore_def)
  show "k_fss k = k_fss k'" using e [of k_fss] by (simp add: fcore_def)
  show "k_fds k = k_fds k'" using e [of k_fds] by (simp add: fcore_def)
  show "k_iocs k = k_iocs k'" using e [of k_iocs] by (simp add: fcore_def)
  show "k_mms k = k_mms k'" using e [of k_mms] by (simp add: fcore_def)
  show "k_vms k = k_vms k'" using e [of k_vms] by (simp add: fcore_def)
  show "k_cached_stacks k = k_cached_stacks k'" using e [of k_cached_stacks] by (simp add: fcore_def)
  show "k_charged k = k_charged k'" using e [of k_charged] by (simp add: fcore_def)
  show "k_stack_kb k = k_stack_kb k'" using e [of k_stack_kb] by (simp add: fcore_def)
qed

named_theorems fcong \<open>operations respect similarity\<close>

lemma fsim_klog:
  "fsim cur k k' \<Longrightarrow> (\<And>r. r \<notin> loose_res \<Longrightarrow> held (rev es) r = held (rev es') r) \<Longrightarrow> fsim cur (klog es k) (klog es' k')"
  by (simp add: fsim_def held_append)

lemma fsim_klog_same [fcong]: "fsim cur k k' \<Longrightarrow> fsim cur (klog es k) (klog es k')"
  by (rule fsim_klog) simp_all

lemma fsim_upds [fcong]:
  assumes "fsim cur k k'"
  shows "fsim cur (k\<lparr>k_signals := a\<rparr>) (k'\<lparr>k_signals := a\<rparr>)"
    "fsim cur (k\<lparr>k_sighands := b\<rparr>) (k'\<lparr>k_sighands := b\<rparr>)"
    "fsim cur (k\<lparr>k_fss := c\<rparr>) (k'\<lparr>k_fss := c\<rparr>)" "fsim cur (k\<lparr>k_fds := d\<rparr>) (k'\<lparr>k_fds := d\<rparr>)"
    "fsim cur (k\<lparr>k_iocs := e\<rparr>) (k'\<lparr>k_iocs := e\<rparr>)" "fsim cur (k\<lparr>k_mms := f\<rparr>) (k'\<lparr>k_mms := f\<rparr>)"
    "fsim cur (k\<lparr>k_vms := g\<rparr>) (k'\<lparr>k_vms := g\<rparr>)"
    "fsim cur (k\<lparr>k_cached_stacks := h\<rparr>) (k'\<lparr>k_cached_stacks := h\<rparr>)"
    "fsim cur (k\<lparr>k_charged := i\<rparr>) (k'\<lparr>k_charged := i\<rparr>)"
    "fsim cur (k\<lparr>k_stack_kb := j\<rparr>) (k'\<lparr>k_stack_kb := j\<rparr>)"
proof -
  have c: "fcore cur k = fcore cur k'" and h: "\<forall>r. r \<notin> loose_res \<longrightarrow> held (k_log k) r = held (k_log k') r"
    using assms by (auto simp: fsim_def)
  have "fcore cur (k\<lparr>k_signals := a\<rparr>) = (fcore cur k)\<lparr>k_signals := a\<rparr>"
    "fcore cur (k\<lparr>k_sighands := b\<rparr>) = (fcore cur k)\<lparr>k_sighands := b\<rparr>"
    "fcore cur (k\<lparr>k_fss := c\<rparr>) = (fcore cur k)\<lparr>k_fss := c\<rparr>" "fcore cur (k\<lparr>k_fds := d\<rparr>) = (fcore cur k)\<lparr>k_fds := d\<rparr>"
    "fcore cur (k\<lparr>k_iocs := e\<rparr>) = (fcore cur k)\<lparr>k_iocs := e\<rparr>" "fcore cur (k\<lparr>k_mms := f\<rparr>) = (fcore cur k)\<lparr>k_mms := f\<rparr>"
    "fcore cur (k\<lparr>k_vms := g\<rparr>) = (fcore cur k)\<lparr>k_vms := g\<rparr>"
    "fcore cur (k\<lparr>k_cached_stacks := h\<rparr>) = (fcore cur k)\<lparr>k_cached_stacks := h\<rparr>"
    "fcore cur (k\<lparr>k_charged := i\<rparr>) = (fcore cur k)\<lparr>k_charged := i\<rparr>"
    "fcore cur (k\<lparr>k_stack_kb := j\<rparr>) = (fcore cur k)\<lparr>k_stack_kb := j\<rparr>" for k :: kernel and c d e f g h
    by (simp_all add: fcore_def)
  with c h show "fsim cur (k\<lparr>k_signals := a\<rparr>) (k'\<lparr>k_signals := a\<rparr>)"
    "fsim cur (k\<lparr>k_sighands := b\<rparr>) (k'\<lparr>k_sighands := b\<rparr>)"
    "fsim cur (k\<lparr>k_fss := c\<rparr>) (k'\<lparr>k_fss := c\<rparr>)" "fsim cur (k\<lparr>k_fds := d\<rparr>) (k'\<lparr>k_fds := d\<rparr>)"
    "fsim cur (k\<lparr>k_iocs := e\<rparr>) (k'\<lparr>k_iocs := e\<rparr>)" "fsim cur (k\<lparr>k_mms := f\<rparr>) (k'\<lparr>k_mms := f\<rparr>)"
    "fsim cur (k\<lparr>k_vms := g\<rparr>) (k'\<lparr>k_vms := g\<rparr>)"
    "fsim cur (k\<lparr>k_cached_stacks := h\<rparr>) (k'\<lparr>k_cached_stacks := h\<rparr>)"
    "fsim cur (k\<lparr>k_charged := i\<rparr>) (k'\<lparr>k_charged := i\<rparr>)"
    "fsim cur (k\<lparr>k_stack_kb := j\<rparr>) (k'\<lparr>k_stack_kb := j\<rparr>)"
    by (simp_all add: fsim_def)
qed

section \<open>The operations of the error paths respect similarity\<close>

lemma set_signal_fsim [fcong]: "fsim cur k k' \<Longrightarrow> fsim cur (set_signal a f k) (set_signal a f k')"
  unfolding set_signal_def by (simp add: fsim_sel(1) fcong)

lemma set_mm_fsim [fcong]: "fsim cur k k' \<Longrightarrow> fsim cur (set_mm a f k) (set_mm a f k')"
  unfolding set_mm_def by (simp add: fsim_sel(6) fcong)

lemma drop_fsim [fcong]:
  assumes "fsim cur k k'"
  shows "fsim cur (drop_fs a k) (drop_fs a k')" "fsim cur (drop_files a k) (drop_files a k')"
    "fsim cur (drop_ioc a k) (drop_ioc a k')" "fsim cur (cleanup_sighand b k) (cleanup_sighand b k')"
  using fsim_sel(2-5) [OF assms] assms
  by (auto simp: drop_fs_def drop_files_def drop_ioc_def cleanup_sighand_def Let_def fcong split: option.split)

lemma mmdrop_async_fsim [fcong]: "fsim cur k k' \<Longrightarrow> fsim cur (mmdrop_async a k) (mmdrop_async a k')"
  using fsim_sel(6) [OF set_mm_fsim, of cur k k'] by (auto simp: mmdrop_async_def Let_def fcong)

lemma free_signal_fsim [fcong]:
  assumes "fsim cur k k'"
  shows "fsim cur (free_signal_struct a k) (free_signal_struct a k')"
  using fsim_sel(1) [OF assms] assms
  by (auto simp: free_signal_struct_def Let_def fcong split: option.split)

lemma check_mm_fsim [fcong]: "fsim cur k k' \<Longrightarrow> fsim cur (check_mm a k) (check_mm a k')"
  using fsim_sel(6) [of cur k k'] by (auto simp: check_mm_def Let_def fcong)

lemma mmdrop_fsim [fcong]:
  assumes "fsim cur k k'"
  shows "fsim cur (mmdrop E t a k) (mmdrop E t a k')"
proof -
  have "fsim cur (free_mm a k) (free_mm a k')" if "fsim cur k k'" for k k'
    using fsim_sel(6) [OF that] that by (simp add: free_mm_def fcong)
  then have "fsim cur (mmdrop_free E t a k) (mmdrop_free E t a k')" if "fsim cur k k'" for k k'
    using that by (simp add: mmdrop_free_def mm_free_pgd_def Let_def fcong)
  then show ?thesis
    using fsim_sel(6) [OF set_mm_fsim [OF assms]] assms by (simp add: mmdrop_def Let_def fcong)
qed

lemma exe_file_fsim [fcong]:
  assumes "fsim cur k k'"
  shows "fsim cur (snd (set_mm_exe_file b mm None k)) (snd (set_mm_exe_file b mm None k'))"
proof -
  have "fcore cur (fput f k) = fcore cur k" "fcore cur (allow_write_access f k) = fcore cur k"
    "held (k_log (fput f k)) = held (k_log k)" "k_log (allow_write_access f k) = k_log k" for f k
    by (simp_all add: fput_def allow_write_access_def Let_def fun_eq_iff)
  then have f: "fsim cur (fput f (allow_write_access f k)) (fput f (allow_write_access f k'))" if "fsim cur k k'" for f k k'
    using that by (simp add: fsim_def)
  show ?thesis
    using fsim_sel(6) [OF assms] assms by (auto simp: set_mm_exe_file_def Let_def fcong f split: option.split)
qed

lemma let_fsim:
  "fsim cur a a' \<Longrightarrow> (\<And>k k'. fsim cur k k' \<Longrightarrow> k_mms k = k_mms k' \<Longrightarrow> fsim cur (F k) (G k')) \<Longrightarrow>
     fsim cur (Let a F) (Let a' G)"
  by (simp add: Let_def fsim_sel(6))

lemma mmput_fsim [fcong]:
  assumes "fsim cur k k'"
  shows "fsim cur (mmput E t a k) (mmput E t a k')"
proof -
  have "fsim cur (mmput_final E t a k) (mmput_final E t a k')" if "fsim cur k k'" for k k'
    unfolding mmput_final_def using fsim_sel(6) [OF that] that by (intro let_fsim) (simp_all add: fcong)
  then show ?thesis
    using fsim_sel(6) [OF set_mm_fsim [OF assms]] assms by (simp add: mmput_def Let_def fcong)
qed

lemma mm_clear_owner_fsim [fcong]: "fsim cur k k' \<Longrightarrow> fsim cur (mm_clear_owner a p k) (mm_clear_owner a p k')"
  unfolding mm_clear_owner_def by (rule set_mm_fsim)

lemma put_task_stack_fsim:
  assumes "fsim cur k k'" and "ts_stack_vm_area p = ts_stack_vm_area p'" and "ts_stack_refcount p = ts_stack_refcount p'"
    and "ts_state p = ts_state p'"
  shows "fsim cur (snd (put_task_stack K cpu p k)) (snd (put_task_stack K cpu p' k'))"
proof -
  have free: "fsim cur (free_thread_stack K cpu t k) (free_thread_stack K cpu t' k')"
    if "fsim cur k k'" "ts_stack_vm_area t = ts_stack_vm_area t'" for k k' t t'
    using that fsim_sel [OF that(1)] by (auto simp: free_thread_stack_def vfree_stack_def Let_def fcong split: option.split)
  have acct: "fsim cur (account_kernel_stack K t n k) (account_kernel_stack K t' n k')"
    if "fsim cur k k'" "ts_stack_vm_area t = ts_stack_vm_area t'" for k k' t t' n
    using that fsim_sel [OF that(1)] by (auto simp: account_kernel_stack_def fcong split: option.split)
  show ?thesis
    using assms by (auto simp: put_task_stack_def release_task_stack_def Let_def fcong free acct)
qed

section \<open>The labels respect similarity\<close>

text \<open>
  The labels in the order of the fall-through, and the fields of the task that the code from a label
  on reads: \<open>same n\<close> says that two tasks agree on those of the labels up to number \<open>n\<close>.
\<close>

fun rank :: "fork_label \<Rightarrow> nat" where
  "rank Fork_out = 0" | "rank Bad_fork_free = 1" | "rank Bad_fork_cleanup_count = 2"
| "rank Bad_fork_cleanup_threadgroup_lock = 3" | "rank Bad_fork_cleanup_policy = 4" | "rank Bad_fork_cleanup_perf = 5"
| "rank Bad_fork_cleanup_audit = 6" | "rank Bad_fork_cleanup_security = 7" | "rank Bad_fork_cleanup_semundo = 8"
| "rank Bad_fork_cleanup_files = 9" | "rank Bad_fork_cleanup_fs = 10" | "rank Bad_fork_cleanup_sighand = 11"
| "rank Bad_fork_cleanup_signal = 12" | "rank Bad_fork_cleanup_mm = 13" | "rank Bad_fork_cleanup_namespaces = 14"
| "rank Bad_fork_cleanup_io = 15" | "rank Bad_fork_cleanup_thread = 16" | "rank Bad_fork_free_pid = 17"
| "rank Bad_fork_put_pidfd = 18" | "rank Bad_fork_cancel_cgroup = 19"

definition same :: "nat \<Rightarrow> task_struct \<Rightarrow> task_struct \<Rightarrow> bool" where
  "same n p p' \<longleftrightarrow> ts_stack_vm_area p = ts_stack_vm_area p' \<and> ts_stack_refcount p = ts_stack_refcount p' \<and>
     (4 \<le> n \<longrightarrow> (ts_mempolicy p \<noteq> None) = (ts_mempolicy p' \<noteq> None)) \<and> (9 \<le> n \<longrightarrow> ts_files p = ts_files p') \<and>
     (10 \<le> n \<longrightarrow> ts_fs p = ts_fs p') \<and> (11 \<le> n \<longrightarrow> ts_sighand p = ts_sighand p') \<and>
     (12 \<le> n \<longrightarrow> ts_signal p = ts_signal p') \<and> (13 \<le> n \<longrightarrow> ts_mm p = ts_mm p') \<and>
     (15 \<le> n \<longrightarrow> ts_io_context p = ts_io_context p')"

lemma same_refl [simp]: "same n p p"
  by (simp add: same_def)

lemma same_mono: "same n p p' \<Longrightarrow> m \<le> n \<Longrightarrow> same m p p'"
  by (auto simp: same_def)

lemma un_fork_out_fsim [fcong]: "fsim cur k k' \<Longrightarrow> fsim cur (un_fork_out C k) (un_fork_out C k')"
  by (simp add: un_fork_out_def fcong)

lemma un_free_fsim:
  assumes "fsim cur k k'" and "same n p p'"
  shows "fsim cur (un_free C p k) (un_free C p' k')"
proof -
  let ?put = "put_task_stack (cx_K C) (se_cpu (ce_stack (cx_E C)))"
  have "fsim cur (snd (?put (p\<lparr>ts_state := TASK_DEAD\<rparr>) k)) (snd (?put (p'\<lparr>ts_state := TASK_DEAD\<rparr>) k'))"
    by (rule put_task_stack_fsim) (use assms in \<open>simp_all add: same_def\<close>)
  moreover have "fsim cur (delayed_free_task t l) (delayed_free_task t' l')" if "fsim cur l l'" for t t' l l'
    using that by (auto simp: delayed_free_task_def free_task_def Let_def intro!: fsim_klog)
  ultimately show ?thesis
    unfolding un_free_def case_prod_beta by (intro un_fork_out_fsim)
qed

lemma un_low_fsim:
  assumes "fsim cur k k'" and "same n p p'"
  shows "fsim cur (un_count C p k) (un_count C p' k')" "fsim cur (un_threadgroup_lock C p k) (un_threadgroup_lock C p' k')"
  using assms(2) by (auto simp: un_count_def un_threadgroup_lock_def intro!: un_free_fsim fsim_klog_same assms(1))

lemma un_policy_fsim:
  assumes "fsim cur k k'" and "same n p p'" and "4 \<le> n"
  shows "fsim cur (un_policy C p k) (un_policy C p' k')" "fsim cur (un_perf C p k) (un_perf C p' k')"
    "fsim cur (un_audit C p k) (un_audit C p' k')" "fsim cur (un_security C p k) (un_security C p' k')"
    "fsim cur (un_semundo C p k) (un_semundo C p' k')"
proof -
  have m: "(ts_mempolicy p \<noteq> None) = (ts_mempolicy p' \<noteq> None)" using assms(2,3) by (simp add: same_def)
  have pol: "fsim cur (un_policy C p k) (un_policy C p' k')" if "fsim cur k k'" for k k'
    unfolding un_policy_def m by (intro un_low_fsim(2) [OF _ assms(2)] fsim_klog_same that)
  show "fsim cur (un_policy C p k) (un_policy C p' k')" "fsim cur (un_perf C p k) (un_perf C p' k')"
    "fsim cur (un_audit C p k) (un_audit C p' k')" "fsim cur (un_security C p k) (un_security C p' k')"
    "fsim cur (un_semundo C p k) (un_semundo C p' k')"
    unfolding un_semundo_def un_security_def un_audit_def un_perf_def
    by (intro pol fsim_klog_same assms(1))+
qed

lemma exits_okD:
  "exits_ok E \<Longrightarrow> ce_exit_fs E t k = drop_fs (ts_fs t) k" "exits_ok E \<Longrightarrow> ce_exit_files E t k = drop_files (ts_files t) k"
  "exits_ok E \<Longrightarrow> ce_exit_io E t k = drop_ioc (ts_io_context t) k"
  by (simp_all add: exits_ok_def)

lemma un_files_fsim:
  assumes "exits_ok (cx_E C)" "fsim cur k k'" "same n p p'" "9 \<le> n"
  shows "fsim cur (un_files C p k) (un_files C p' k')"
  using assms unfolding un_files_def exits_okD(2) [OF assms(1)]
  by (intro un_policy_fsim(5) [OF _ assms(3)]) (auto simp: same_def fcong)

lemma un_fs_fsim:
  assumes "exits_ok (cx_E C)" "fsim cur k k'" "same n p p'" "10 \<le> n"
  shows "fsim cur (un_fs C p k) (un_fs C p' k')"
  using assms unfolding un_fs_def exits_okD(1) [OF assms(1)]
  by (intro un_files_fsim [OF assms(1) _ assms(3)]) (auto simp: same_def fcong)

lemma un_sighand_fsim:
  assumes "exits_ok (cx_E C)" "fsim cur k k'" "same n p p'" "11 \<le> n"
  shows "fsim cur (un_sighand C p k) (un_sighand C p' k')"
  using assms unfolding un_sighand_def
  by (intro un_fs_fsim [OF assms(1) _ assms(3)]) (auto simp: same_def fcong)

lemma un_signal_fsim:
  assumes "exits_ok (cx_E C)" "fsim cur k k'" "same n p p'" "12 \<le> n"
  shows "fsim cur (un_signal C p k) (un_signal C p' k')"
  using assms unfolding un_signal_def
  by (intro un_sighand_fsim [OF assms(1) _ assms(3)]) (auto simp: same_def fcong)

lemma un_mm_fsim:
  assumes "exits_ok (cx_E C)" "fsim cur k k'" "same n p p'" "13 \<le> n"
  shows "fsim cur (un_mm C p k) (un_mm C p' k')" "fsim cur (un_namespaces C p k) (un_namespaces C p' k')"
proof -
  have mm: "fsim cur (un_mm C p k) (un_mm C p' k')" if "fsim cur k k'" for k k'
    using assms that unfolding un_mm_def
    by (intro un_signal_fsim [OF assms(1) _ assms(3)]) (auto simp: same_def fcong split: option.split)
  show "fsim cur (un_mm C p k) (un_mm C p' k')" "fsim cur (un_namespaces C p k) (un_namespaces C p' k')"
    unfolding un_namespaces_def by (intro mm fsim_klog_same assms(2))+
qed

lemma un_io_fsim:
  assumes "exits_ok (cx_E C)" "fsim cur k k'" "same n p p'" "15 \<le> n"
  shows "fsim cur (un_io C p k) (un_io C p' k')" "fsim cur (un_thread C p k) (un_thread C p' k')"
    "fsim cur (un_free_pid C pid p k) (un_free_pid C pid p' k')" "fsim cur (un_put_pidfd C pid p k) (un_put_pidfd C pid p' k')"
    "fsim cur (un_cancel_cgroup C pid p k) (un_cancel_cgroup C pid p' k')"
proof -
  have io: "fsim cur (un_io C p k) (un_io C p' k')" if "fsim cur k k'" for k k'
    using assms that unfolding un_io_def exits_okD(3) [OF assms(1)]
    by (intro un_mm_fsim(2) [OF assms(1) _ assms(3)]) (auto simp: same_def fcong)
  show "fsim cur (un_io C p k) (un_io C p' k')" "fsim cur (un_thread C p k) (un_thread C p' k')"
    "fsim cur (un_free_pid C pid p k) (un_free_pid C pid p' k')" "fsim cur (un_put_pidfd C pid p k) (un_put_pidfd C pid p' k')"
    "fsim cur (un_cancel_cgroup C pid p k) (un_cancel_cgroup C pid p' k')"
    unfolding un_cancel_cgroup_def un_put_pidfd_def un_free_pid_def un_thread_def
    using assms(2) by (auto intro!: io fsim_klog_same)
qed

lemma unwind_fork_fsim:
  assumes "exits_ok (cx_E C)" "fsim cur (cp_k st) (cp_k st')" "same (rank l) (cp_p st) (cp_p st')"
    "17 \<le> rank l \<longrightarrow> cp_pid st = cp_pid st'"
  shows "fsim cur (unwind_fork C l st) (unwind_fork C l st')"
proof -
  note c = un_fork_out_fsim un_free_fsim un_low_fsim un_policy_fsim un_files_fsim [OF assms(1)] un_fs_fsim [OF assms(1)]
    un_sighand_fsim [OF assms(1)] un_signal_fsim [OF assms(1)] un_mm_fsim [OF assms(1)] un_io_fsim [OF assms(1)]
  show ?thesis using assms(2-4) by (cases l) (simp_all add: c)
qed

interpretation fw: unwinding "fsim (cx_cur C)" "unwind_fork C" for C
  by unfold_locales (auto intro: fsim_trans)

end
