(* ===== verification/Copy_Stages.thy ===== *)
theory Copy_Stages
  imports Copy_Unwind
begin

text \<open>
  Each stage of \<^verbatim>\<open>copy_process\<close> keeps what unwinding gives. \<open>cp_inv C n\<close> is what holds after \<open>n\<close> stages:
  the parts of the running task that are still to be copied are valid and those of the new task are
  still the ones duplicated from it.
\<close>

section \<open>The invariant of the stages\<close>

definition mm_ok :: "cp_ctx \<Rightarrow> (addr \<rightharpoonup> mm_struct) \<Rightarrow> bool" where
  "mm_ok C h \<longleftrightarrow> (\<forall>a. me_mm (ce_mm (cx_E C)) = Some a \<longrightarrow> h a = None) \<and>
     (\<forall>a. ts_mm (cx_curt C) = Some a \<longrightarrow> (\<exists>m. h a = Some m \<and> 0 < mm_users m \<and> mm_owner m \<noteq> Some (cx_p C)))"

definition env_ok :: "cp_ctx \<Rightarrow> bool" where
  "env_ok C \<longleftrightarrow> exits_ok (cx_E C) \<and> vm_bits_ok (cx_K C) \<and> (\<forall>pid. ce_pid (cx_E C) = Inr pid \<longrightarrow> pid \<noteq> cx_init_struct_pid C)"

definition cp_inv :: "cp_ctx \<Rightarrow> nat \<Rightarrow> cp_state \<Rightarrow> bool" where
  "cp_inv C n st \<longleftrightarrow>
     (n \<le> 8 \<longrightarrow> files_ok (cx_E C) (cx_curt C) (k_fds (cp_k st)) \<and> ts_files (cp_p st) = ts_files (cx_curt C)) \<and>
     (n \<le> 9 \<longrightarrow> fs_ok (cx_E C) (cx_curt C) (k_fss (cp_k st)) \<and> ts_fs (cp_p st) = ts_fs (cx_curt C)) \<and>
     (n \<le> 10 \<longrightarrow> sighand_ok (cx_E C) (cx_curt C) (k_sighands (cp_k st)) \<and> ts_sighand (cp_p st) = ts_sighand (cx_curt C)) \<and>
     (n \<le> 11 \<longrightarrow> signal_ok (cx_E C) (cx_curt C) (k_signals (cp_k st)) \<and> ts_signal (cp_p st) = ts_signal (cx_curt C)) \<and>
     (n \<le> 12 \<longrightarrow> mm_ok C (k_mms (cp_k st))) \<and>
     (n \<le> 14 \<longrightarrow> ioc_ok (cx_E C) (cx_curt C) (k_iocs (cp_k st)) \<and> (3 \<le> n \<longrightarrow> ts_io_context (cp_p st) = None)) \<and>
     (n \<le> 16 \<longrightarrow> cp_pid st = cx_pid C)"

lemma fsim_klogs:
  "(\<And>r. r \<notin> loose_res \<Longrightarrow> held (rev es) r = held (rev es') r) \<Longrightarrow> fsim cur (klog es k) (klog es' k)"
  by (rule fsim_klog) simp_all

section \<open>Stages that call other subsystems\<close>

lemma keeps_call:
  assumes env: "exits_ok (cx_E C)"
    and inv: "\<And>st. cp_inv C n st \<Longrightarrow> cp_inv C n' (st\<lparr>cp_k := klog es (cp_k st)\<rparr>)"
    and un: "\<And>st. unwind_fork C l' st = unwind_fork C l (st\<lparr>cp_k := klog rel (cp_k st)\<rparr>)"
    and bal: "\<And>r. held (rev (es @ rel)) r = 0"
  shows "fw.keeps C (cp_inv C n) l (call_or l r es) l' (cp_inv C n')"
proof (rule fw.keepsI)
  fix st st'
  assume I: "cp_inv C n st" and "call_or l r es st = (None, st')"
  then have st': "st' = st\<lparr>cp_k := klog es (cp_k st)\<rparr>" by (auto simp: call_or_def split: option.splits)
  show "cp_inv C n' st'" using inv [OF I] by (simp add: st')
  have "fsim (cx_cur C) (klog (es @ rel) (cp_k st)) (klog [] (cp_k st))"
    using bal by (intro fsim_klog) simp_all
  then show "fsim (cx_cur C) (unwind_fork C l' st') (unwind_fork C l st)"
    unfolding un by (intro unwind_fork_fsim [OF env]) (simp_all add: st')
next
  fix st m e st'
  assume "call_or l r es st = (Some (m, e), st')"
  then show "fsim (cx_cur C) (unwind_fork C m st') (unwind_fork C l st)"
    by (auto simp: call_or_def split: option.splits)
qed

lemma stage_creds_keeps:
  "exits_ok (cx_E C) \<Longrightarrow> fw.keeps C (cp_inv C 0) Bad_fork_free (stage_creds C) Bad_fork_cleanup_count (cp_inv C 1)"
  unfolding stage_creds_def
  by (rule keeps_call [where rel = "[Rel R_nproc, Rel R_creds]"]) (simp_all add: un_count_def cp_inv_def)

lemma stage_perf_keeps:
  "exits_ok (cx_E C) \<Longrightarrow> fw.keeps C (cp_inv C 4) Bad_fork_cleanup_policy (stage_perf C) Bad_fork_cleanup_perf (cp_inv C 5)"
  unfolding stage_perf_def by (rule keeps_call [where rel = "[Rel R_perf]"]) (simp_all add: un_perf_def cp_inv_def)

lemma stage_audit_keeps:
  "exits_ok (cx_E C) \<Longrightarrow> fw.keeps C (cp_inv C 5) Bad_fork_cleanup_perf (stage_audit C) Bad_fork_cleanup_audit (cp_inv C 6)"
  unfolding stage_audit_def by (rule keeps_call [where rel = "[Rel R_audit]"]) (simp_all add: un_audit_def cp_inv_def)

lemma stage_security_keeps:
  "exits_ok (cx_E C) \<Longrightarrow> fw.keeps C (cp_inv C 6) Bad_fork_cleanup_audit (stage_security C) Bad_fork_cleanup_security (cp_inv C 7)"
  unfolding stage_security_def by (rule keeps_call [where rel = "[Rel R_security]"]) (simp_all add: un_security_def cp_inv_def)

lemma stage_semundo_keeps:
  "exits_ok (cx_E C) \<Longrightarrow> fw.keeps C (cp_inv C 7) Bad_fork_cleanup_security (stage_semundo C) Bad_fork_cleanup_semundo (cp_inv C 8)"
  unfolding stage_semundo_def by (rule keeps_call [where rel = "[Rel R_semundo]"]) (simp_all add: un_semundo_def cp_inv_def)

lemma stage_thread_keeps:
  "exits_ok (cx_E C) \<Longrightarrow> fw.keeps C (cp_inv C 15) Bad_fork_cleanup_io (stage_thread C) Bad_fork_cleanup_thread (cp_inv C 16)"
  unfolding stage_thread_def by (rule keeps_call [where rel = "[Rel R_thread]"]) (simp_all add: un_thread_def cp_inv_def)

lemma stage_limits_keeps:
  assumes "exits_ok (cx_E C)"
  shows "fw.keeps C (cp_inv C 1) Bad_fork_cleanup_count (stage_limits C) Bad_fork_cleanup_count (cp_inv C 2)"
proof (rule fw.keepsI)
  have s: "fsim (cx_cur C) (k\<lparr>k_tasks := upd (cx_cur C) clear_nproc (k_tasks k)\<rparr>) k"
    for k by (simp add: fsim_def fcore_def)
  have k: "cp_p st' = cp_p st \<and> cp_pid st' = cp_pid st \<and> fsim (cx_cur C) (cp_k st') (cp_k st)" if "stage_limits C st = (x, st')" for st st' x
    using that s by (auto simp: stage_limits_def Let_def split: if_splits)
  then show "fsim (cx_cur C) (unwind_fork C Bad_fork_cleanup_count st') (unwind_fork C Bad_fork_cleanup_count st)"
    if "stage_limits C st = (None, st')" for st st'
    using k [OF that] by (intro unwind_fork_fsim [OF assms]) simp_all
  show "fsim (cx_cur C) (unwind_fork C m st') (unwind_fork C Bad_fork_cleanup_count st)"
    if "stage_limits C st = (Some (m, e), st')" for st m e st'
  proof -
    have m: "m = Bad_fork_cleanup_count" using that by (auto simp: stage_limits_def Let_def split: if_splits)
    show ?thesis unfolding m using k [OF that] by (intro unwind_fork_fsim [OF assms]) simp_all
  qed
qed (auto simp: stage_limits_def Let_def cp_inv_def split: if_splits)

lemma init_fields_sel [simp]:
  "ts_mempolicy (init_fields C p) = ts_mempolicy p" "ts_stack_vm_area (init_fields C p) = ts_stack_vm_area p"
  "ts_stack_refcount (init_fields C p) = ts_stack_refcount p" "ts_files (init_fields C p) = ts_files p"
  "ts_fs (init_fields C p) = ts_fs p" "ts_sighand (init_fields C p) = ts_sighand p"
  "ts_signal (init_fields C p) = ts_signal p" "ts_io_context (init_fields C p) = None"
  by (simp_all add: init_fields_def rcu_copy_process_def Let_def)

lemma stage_policy_keeps:
  assumes "exits_ok (cx_E C)"
  shows "fw.keeps C (cp_inv C 2) Bad_fork_cleanup_count (stage_policy C) Bad_fork_cleanup_policy (cp_inv C 3)"
proof (rule fw.keepsI)
  show "cp_inv C 3 st'" if "cp_inv C 2 st" "stage_policy C st = (None, st')" for st st'
    using that by (auto simp: stage_policy_def cp_inv_def Let_def split: option.splits sum.splits)
  show "fsim (cx_cur C) (unwind_fork C Bad_fork_cleanup_policy st') (unwind_fork C Bad_fork_cleanup_count st)"
    if "stage_policy C st = (None, st')" for st st'
    using that
    by (auto simp: stage_policy_def un_policy_def un_threadgroup_lock_def un_count_def Let_def same_def
        intro!: un_free_fsim [where n = 0] fsim_klogs split: option.splits sum.splits)
  show "fsim (cx_cur C) (unwind_fork C m st') (unwind_fork C Bad_fork_cleanup_count st)"
    if "stage_policy C st = (Some (m, e), st')" for st m e st'
    using that
    by (auto simp: stage_policy_def un_policy_def un_threadgroup_lock_def un_count_def Let_def same_def
        intro!: un_free_fsim [where n = 0] fsim_klogs split: option.splits sum.splits)
qed

lemma stage_sched_keeps:
  assumes "exits_ok (cx_E C)"
  shows "fw.keeps C (cp_inv C 3) Bad_fork_cleanup_policy (stage_sched C) Bad_fork_cleanup_policy (cp_inv C 4)"
proof (rule fw.keepsI)
  show "cp_inv C 4 st'" if "cp_inv C 3 st" "stage_sched C st = (None, st')" for st st'
    using that by (auto simp: stage_sched_def call_or_def cp_inv_def split: option.splits)
  have k: "same 4 (cp_p st') (cp_p st) \<and> fsim (cx_cur C) (cp_k st') (cp_k st)" if "stage_sched C st = (x, st')" for st st' x
    using that by (auto simp: stage_sched_def call_or_def same_def fsim_def split: option.splits)
  show "fsim (cx_cur C) (unwind_fork C Bad_fork_cleanup_policy st') (unwind_fork C Bad_fork_cleanup_policy st)"
    if "stage_sched C st = (None, st')" for st st'
    using k [OF that] by (intro unwind_fork_fsim [OF assms]) simp_all
  show "fsim (cx_cur C) (unwind_fork C m st') (unwind_fork C Bad_fork_cleanup_policy st)"
    if "stage_sched C st = (Some (m, e), st')" for st m e st'
  proof -
    have m: "m = Bad_fork_cleanup_policy" using that by (auto simp: stage_sched_def call_or_def split: option.splits)
    show ?thesis unfolding m using k [OF that] by (intro unwind_fork_fsim [OF assms]) simp_all
  qed
qed

section \<open>Stages that copy a part of the task\<close>

text \<open>
  A copy function that keeps the stack of the task: its failure leaves similar states at the label it
  jumps to, its success followed by the undo of the next label gives a similar state back.
\<close>

lemma keeps_copy:
  assumes env: "exits_ok (cx_E C)"
    and inv: "\<And>st p k. cp_inv C n st \<Longrightarrow> f (cp_p st) (cp_k st) = (None, p, k) \<Longrightarrow> cp_inv C n' (st\<lparr>cp_p := p, cp_k := k\<rparr>)"
    and un: "\<And>st. unwind_fork C l' st = unwind_fork C l (st\<lparr>cp_k := undo (cp_p st) (cp_k st)\<rparr>)"
    and pid: "rank l < 17"
    and view: "\<And>st r p k. cp_inv C n st \<Longrightarrow> f (cp_p st) (cp_k st) = (r, p, k) \<Longrightarrow> same (rank l) p (cp_p st)"
    and ok: "\<And>st p k. cp_inv C n st \<Longrightarrow> f (cp_p st) (cp_k st) = (None, p, k) \<Longrightarrow> fsim (cx_cur C) (undo p k) (cp_k st)"
    and fail: "\<And>st e p k. cp_inv C n st \<Longrightarrow> f (cp_p st) (cp_k st) = (Some e, p, k) \<Longrightarrow> fsim (cx_cur C) k (cp_k st)"
  shows "fw.keeps C (cp_inv C n) l (copy_or l f) l' (cp_inv C n')"
proof (rule fw.keepsI)
  fix st st'
  assume I: "cp_inv C n st" and c: "copy_or l f st = (None, st')"
  then obtain p k where f: "f (cp_p st) (cp_k st) = (None, p, k)" and st': "st' = st\<lparr>cp_p := p, cp_k := k\<rparr>"
    by (auto simp: copy_or_def split: prod.splits)
  show "cp_inv C n' st'" unfolding st' by (rule inv [OF I f])
  show "fsim (cx_cur C) (unwind_fork C l' st') (unwind_fork C l st)"
    unfolding un using ok [OF I f] view [OF I f] pid by (intro unwind_fork_fsim [OF env]) (simp_all add: st')
next
  fix st m e st'
  assume I: "cp_inv C n st" and c: "copy_or l f st = (Some (m, e), st')"
  then obtain p k where f: "f (cp_p st) (cp_k st) = (Some e, p, k)" and m: "m = l" and st': "st' = st\<lparr>cp_p := p, cp_k := k\<rparr>"
    by (auto simp: copy_or_def split: prod.splits)
  show "fsim (cx_cur C) (unwind_fork C m st') (unwind_fork C l st)"
    unfolding m using fail [OF I f] view [OF I f] pid by (intro unwind_fork_fsim [OF env]) (simp_all add: st')
qed

lemma stage_files_keeps:
  assumes "exits_ok (cx_E C)"
  shows "fw.keeps C (cp_inv C 8) Bad_fork_cleanup_semundo (stage_files C) Bad_fork_cleanup_files (cp_inv C 9)"
  unfolding stage_files_def
proof (rule keeps_copy [OF assms, where undo = "\<lambda>p. drop_files (ts_files p)"])
  let ?f = "copy_files (cx_K C) (cx_E C) (cx_flags C) (cx_curt C)"
  fix st r p k assume I: "cp_inv C 8 st" and f: "?f (cp_p st) (cp_k st) = (r, p, k)"
  show "same (rank Bad_fork_cleanup_semundo) p (cp_p st)"
    using f by (auto simp: copy_files_def same_def split: option.splits if_splits sum.splits)
next
  let ?f = "copy_files (cx_K C) (cx_E C) (cx_flags C) (cx_curt C)"
  fix st p k assume I: "cp_inv C 8 st" and f: "?f (cp_p st) (cp_k st) = (None, p, k)"
  show "cp_inv C 9 (st\<lparr>cp_p := p, cp_k := k\<rparr>)"
    using I f by (auto simp: copy_files_def cp_inv_def split: option.splits if_splits sum.splits)
  show "fsim (cx_cur C) (drop_files (ts_files p) k) (cp_k st)"
    using copy_files_undo [OF _ _ f] I by (simp add: cp_inv_def)
qed (auto simp: un_files_def exits_okD [OF assms] dest: copy_fails(2))

lemma stage_fs_keeps:
  assumes "exits_ok (cx_E C)"
  shows "fw.keeps C (cp_inv C 9) Bad_fork_cleanup_files (stage_fs C) Bad_fork_cleanup_fs (cp_inv C 10)"
  unfolding stage_fs_def
proof (rule keeps_copy [OF assms, where undo = "\<lambda>p. drop_fs (ts_fs p)"])
  let ?f = "copy_fs (cx_K C) (cx_E C) (cx_flags C) (cx_curt C)"
  fix st r p k assume I: "cp_inv C 9 st" and f: "?f (cp_p st) (cp_k st) = (r, p, k)"
  show "same (rank Bad_fork_cleanup_files) p (cp_p st)"
    using f by (auto simp: copy_fs_def same_def Let_def split: option.splits if_splits)
next
  let ?f = "copy_fs (cx_K C) (cx_E C) (cx_flags C) (cx_curt C)"
  fix st p k assume I: "cp_inv C 9 st" and f: "?f (cp_p st) (cp_k st) = (None, p, k)"
  show "cp_inv C 10 (st\<lparr>cp_p := p, cp_k := k\<rparr>)"
    using I f by (auto simp: copy_fs_def cp_inv_def Let_def split: option.splits if_splits)
  show "fsim (cx_cur C) (drop_fs (ts_fs p) k) (cp_k st)"
    using copy_fs_undo [OF _ _ f] I by (simp add: cp_inv_def)
qed (auto simp: un_fs_def exits_okD [OF assms] dest: copy_fails(1))

lemma fsim_klog_zero: "held (rev es) = (\<lambda>_. 0) \<Longrightarrow> fsim cur (klog es k) k"
  using fsim_klogs [of es "[]" cur k] by simp

lemma stage_sighand_keeps:
  assumes "exits_ok (cx_E C)"
  shows "fw.keeps C (cp_inv C 10) Bad_fork_cleanup_fs (stage_sighand C) Bad_fork_cleanup_sighand (cp_inv C 11)"
  unfolding stage_sighand_def
proof (rule keeps_copy [OF assms, where undo = "\<lambda>p. cleanup_sighand (the (ts_sighand p))"])
  let ?f = "copy_sighand (cx_K C) (cx_E C) (cx_flags C) (cx_curt C)"
  fix st r p k assume I: "cp_inv C 10 st" and f: "?f (cp_p st) (cp_k st) = (r, p, k)"
  show "same (rank Bad_fork_cleanup_fs) p (cp_p st)"
    using f by (auto simp: copy_sighand_def same_def Let_def split: option.splits if_splits)
next
  let ?f = "copy_sighand (cx_K C) (cx_E C) (cx_flags C) (cx_curt C)"
  fix st p k assume I: "cp_inv C 10 st" and f: "?f (cp_p st) (cp_k st) = (None, p, k)"
  show "cp_inv C 11 (st\<lparr>cp_p := p, cp_k := k\<rparr>)"
    using I f by (auto simp: copy_sighand_def get_sighand_def cp_inv_def Let_def split: option.splits if_splits)
  have "sighand_ok (cx_E C) (cx_curt C) (k_sighands (cp_k st))" "ts_sighand (cp_p st) = ts_sighand (cx_curt C)"
    using I by (simp_all add: cp_inv_def)
  from copy_sighand_undo [OF this f] show "fsim (cx_cur C) (cleanup_sighand (the (ts_sighand p)) k) (cp_k st)"
    by (metis fsim_klog_zero option.sel)
qed (auto simp: un_sighand_def dest: copy_fails(4))

lemma stage_signal_keeps:
  assumes "exits_ok (cx_E C)"
  shows "fw.keeps C (cp_inv C 11) Bad_fork_cleanup_sighand (stage_signal C) Bad_fork_cleanup_signal (cp_inv C 12)"
  unfolding stage_signal_def
proof (rule keeps_copy [OF assms, where undo = "\<lambda>p k. if has (cx_flags C) (CLONE_THREAD (cx_K C)) then k
    else free_signal_struct (the (ts_signal p)) k"])
  let ?f = "copy_signal (cx_K C) (cx_E C) (cx_flags C) (cx_curt C) (cx_p C)"
  fix st r p k assume I: "cp_inv C 11 st" and f: "?f (cp_p st) (cp_k st) = (r, p, k)"
  show "same (rank Bad_fork_cleanup_sighand) p (cp_p st)"
    using f by (auto simp: copy_signal_def same_def Let_def split: option.splits if_splits)
next
  let ?f = "copy_signal (cx_K C) (cx_E C) (cx_flags C) (cx_curt C) (cx_p C)"
  fix st p k assume I: "cp_inv C 11 st" and f: "?f (cp_p st) (cp_k st) = (None, p, k)"
  show "cp_inv C 12 (st\<lparr>cp_p := p, cp_k := k\<rparr>)"
    using I f by (auto simp: copy_signal_def cp_inv_def Let_def split: option.splits if_splits)
  show "fsim (cx_cur C) (if has (cx_flags C) (CLONE_THREAD (cx_K C)) then k else free_signal_struct (the (ts_signal p)) k) (cp_k st)"
  proof (cases "has (cx_flags C) (CLONE_THREAD (cx_K C))")
    case True
    with f show ?thesis by (simp add: copy_signal_def)
  next
    case False
    have "signal_ok (cx_E C) (cx_curt C) (k_signals (cp_k st))" using I by (simp add: cp_inv_def)
    from copy_signal_undo [OF this False f] False show ?thesis by (metis fsim_klog_zero option.sel)
  qed
qed (auto simp: un_signal_def dest: copy_fails(5))

lemma stage_io_keeps:
  assumes "exits_ok (cx_E C)"
  shows "fw.keeps C (cp_inv C 14) Bad_fork_cleanup_namespaces (stage_io C) Bad_fork_cleanup_io (cp_inv C 15)"
  unfolding stage_io_def
proof (rule keeps_copy [OF assms, where undo = "\<lambda>p k. if ts_io_context p \<noteq> None then drop_ioc (ts_io_context p) k else k"])
  let ?f = "copy_io (cx_K C) (cx_E C) (cx_flags C) (cx_curt C)"
  fix st r p k assume I: "cp_inv C 14 st" and f: "?f (cp_p st) (cp_k st) = (r, p, k)"
  show "same (rank Bad_fork_cleanup_namespaces) p (cp_p st)"
    using f by (auto simp: copy_io_def same_def Let_def split: option.splits if_splits)
next
  let ?f = "copy_io (cx_K C) (cx_E C) (cx_flags C) (cx_curt C)"
  fix st p k assume I: "cp_inv C 14 st" and f: "?f (cp_p st) (cp_k st) = (None, p, k)"
  show "cp_inv C 15 (st\<lparr>cp_p := p, cp_k := k\<rparr>)"
    using I f by (auto simp: copy_io_def cp_inv_def Let_def split: option.splits if_splits)
  have eq: "(if ts_io_context p \<noteq> None then drop_ioc (ts_io_context p) k else k) = drop_ioc (ts_io_context p) k"
    by (simp add: drop_ioc_def)
  have "ioc_ok (cx_E C) (cx_curt C) (k_iocs (cp_k st))" "ts_io_context (cp_p st) = None" using I by (simp_all add: cp_inv_def)
  from copy_io_undo [OF this f] show "fsim (cx_cur C) (if ts_io_context p \<noteq> None then drop_ioc (ts_io_context p) k else k) (cp_k st)"
    unfolding eq by (metis fsim_klog_zero)
qed (auto simp: un_io_def exits_okD [OF assms] dest: copy_fails(3))

section \<open>The address space\<close>

lemma fsim_mmless:
  assumes "mmless k' = mmless k" and "k_mms k' = k_mms k" and "\<And>r. r \<notin> vma_res \<Longrightarrow> held (k_log k') r = held (k_log k) r"
  shows "fsim cur k' k"
proof -
  have c: "fcore cur k = (mmless k)\<lparr>k_mms := k_mms k, k_kv := \<lparr>kh_nodes = Map.empty, kh_stores = Map.empty\<rparr>,
      k_tasks := upd cur clear_nproc (k_tasks (mmless k))\<rparr>" for k :: kernel
    by (simp add: fcore_def mmless_def)
  have "fcore cur k' = fcore cur k" by (simp only: c assms(1,2))
  with assms(3) show ?thesis by (simp add: fsim_def)
qed

lemma copy_mm_undo:
  assumes ok: "mm_ok C (k_mms k)" and bits: "vm_bits_ok (cx_K C)"
    and c: "copy_mm (cx_K C) (ce_mm (cx_E C)) (cx_flags C) (cx_curt C) (cx_p C) t k = (r, t', k')"
  shows "case r of Some e \<Rightarrow> fsim cur k' k
    | None \<Rightarrow> fsim cur (case ts_mm t' of None \<Rightarrow> k' | Some a \<Rightarrow> mmput (ce_mm (cx_E C)) (cx_curt C) a (mm_clear_owner a (cx_p C) k')) k"
proof -
  let ?put = "\<lambda>a k. mmput (ce_mm (cx_E C)) (cx_curt C) a (mm_clear_owner a (cx_p C) k)"
  have "mm_copied (cx_K C) (ce_mm (cx_E C)) (cx_flags C) (cx_curt C) (cx_p C) k r t' k'"
    by (rule copy_mm_spec [OF bits _ _ c]) (use ok in \<open>auto simp: mm_ok_def\<close>)
  note m = this [unfolded mm_copied_def]
  then have less: "mmless k' = mmless k" by simp
  consider e where "r = Some e" | "r = None" "ts_mm t' = None" | a where "r = None" "ts_mm t' = Some a"
    by (cases r; cases "ts_mm t'") auto
  then show ?thesis
  proof cases
    case 1
    with m show ?thesis by (auto intro!: fsim_mmless)
  next
    case 2
    with m show ?thesis by simp
  next
    case (3 a)
    have less': "mmless (?put a k') = mmless k" by (simp add: less mm_clear_owner_def)
    show ?thesis
    proof (cases "has (cx_flags C) (CLONE_VM (cx_K C))")
      case True
      with m 3 have cm: "ts_mm (cx_curt C) = Some a" "k_mms k' = k_mms (mmget a k)" "held (k_log k') = held (k_log k)" by simp_all
      with ok obtain x where x: "k_mms k a = Some x" "0 < mm_users x" "mm_owner x \<noteq> Some (cx_p C)" by (auto simp: mm_ok_def)
      let ?x = "x\<lparr>mm_users := mm_users x + 1\<rparr>"
      define l where "l = mm_clear_owner a (cx_p C) k'"
      have l: "k_mms l = (k_mms k)(a \<mapsto> ?x)" "k_log l = k_log k'"
        using cm(2) x by (simp_all add: l_def mmget_def set_mm_def mm_clear_owner_def)
      have "?put a k' = set_mm a (\<lambda>m. m\<lparr>mm_users := mm_users m - 1\<rparr>) l"
        unfolding l_def [symmetric] by (rule mmput_live [of _ _ ?x]) (use l x in simp_all)
      then have "k_mms (?put a k') = k_mms k" "k_log (?put a k') = k_log k'"
        using l x by (simp_all add: set_mm_def fun_upd_idem)
      with 3 less' cm show ?thesis by (auto intro!: fsim_mmless)
    next
      case False
      with m 3 obtain x where x: "me_mm (ce_mm (cx_E C)) = Some a" "mm_created a x k k'" "mm_owner x = Some (cx_p C)" by auto
      let ?k = "mm_clear_owner a (cx_p C) k'"
      have new: "k_mms k a = None" using ok x(1) by (auto simp: mm_ok_def)
      have c: "mm_created a (x\<lparr>mm_owner := None\<rparr>) k ?k"
        using x(2,3) by (simp add: mm_created_def mm_clear_owner_def set_mm_def mm_refs_def)
      have A: "k_mms (?put a k') = k_mms k" by (rule mmput_created [OF c new refl])
      have B: "held (k_log (?put a k')) q = held (k_log k) q" if "q \<notin> vma_res" for q
        using mmput_created_held [OF c refl that, of "ce_mm (cx_E C)" "cx_curt C"] by linarith
      show ?thesis using 3 fsim_mmless [OF less' A B] by simp
    qed
  qed
qed

lemma copy_mm_sel:
  assumes "copy_mm K E f cur p t k = (r, t', k')"
  shows "ts_stack_vm_area t' = ts_stack_vm_area t" "ts_stack_refcount t' = ts_stack_refcount t" "ts_mempolicy t' = ts_mempolicy t"
    "ts_files t' = ts_files t" "ts_fs t' = ts_fs t" "ts_sighand t' = ts_sighand t" "ts_signal t' = ts_signal t"
    "ts_io_context t' = ts_io_context t"
  using assms by (auto simp: copy_mm_def Let_def split: option.splits if_splits prod.splits)

lemma stage_mm_keeps:
  assumes "exits_ok (cx_E C)" and bits: "vm_bits_ok (cx_K C)"
  shows "fw.keeps C (cp_inv C 12) Bad_fork_cleanup_signal (stage_mm C) Bad_fork_cleanup_mm (cp_inv C 13)"
  unfolding stage_mm_def
proof (rule keeps_copy [OF assms(1), where undo = "\<lambda>p k. case ts_mm p of None \<Rightarrow> k
    | Some mm \<Rightarrow> mmput (ce_mm (cx_E C)) (cx_curt C) mm (mm_clear_owner mm (cx_p C) k)"])
  let ?f = "copy_mm (cx_K C) (ce_mm (cx_E C)) (cx_flags C) (cx_curt C) (cx_p C)"
  fix st r p k assume I: "cp_inv C 12 st" and f: "?f (cp_p st) (cp_k st) = (r, p, k)"
  show "same (rank Bad_fork_cleanup_signal) p (cp_p st)"
    using copy_mm_sel [OF f] by (simp add: same_def)
next
  let ?f = "copy_mm (cx_K C) (ce_mm (cx_E C)) (cx_flags C) (cx_curt C) (cx_p C)"
  have ok: "mm_ok C (k_mms (cp_k st))" if "cp_inv C 12 st" for st using that by (simp add: cp_inv_def)
  fix st p k assume I: "cp_inv C 12 st"
  { assume f: "?f (cp_p st) (cp_k st) = (None, p, k)"
    have "mmless k = mmless (cp_k st)"
      using copy_mm_spec [OF bits _ _ f] ok [OF I] by (fastforce simp: mm_ok_def mm_copied_def)
    then have "k_iocs (mmless k) = k_iocs (mmless (cp_k st))" by simp
    then have "k_iocs k = k_iocs (cp_k st)" by (simp add: mmless_def)
    with I copy_mm_sel [OF f] show "cp_inv C 13 (st\<lparr>cp_p := p, cp_k := k\<rparr>)" by (simp add: cp_inv_def)
    show "fsim (cx_cur C) (case ts_mm p of None \<Rightarrow> k
        | Some mm \<Rightarrow> mmput (ce_mm (cx_E C)) (cx_curt C) mm (mm_clear_owner mm (cx_p C) k)) (cp_k st)"
      using copy_mm_undo [OF ok [OF I] bits f] by simp }
  show "fsim (cx_cur C) k (cp_k st)" if "?f (cp_p st) (cp_k st) = (Some e, p, k)" for e
    using copy_mm_undo [OF ok [OF I] bits that] by simp
qed (simp_all add: un_mm_def)

section \<open>Namespaces, pid and pidfd, and the last failure point\<close>

lemma stage_namespaces_keeps:
  assumes "exits_ok (cx_E C)"
  shows "fw.keeps C (cp_inv C 13) Bad_fork_cleanup_mm (stage_namespaces C) Bad_fork_cleanup_namespaces (cp_inv C 14)"
proof (rule fw.keepsI)
  show "fsim (cx_cur C) (unwind_fork C Bad_fork_cleanup_namespaces st') (unwind_fork C Bad_fork_cleanup_mm st)"
    if "stage_namespaces C st = (None, st')" for st st'
  proof -
    from that obtain nsp where st': "st' = st\<lparr>cp_p := (cp_p st)\<lparr>ts_nsproxy := nsp\<rparr>, cp_k := klog [Acq R_namespaces] (cp_k st)\<rparr>"
      by (auto simp: stage_namespaces_def split: sum.splits)
    have "fsim (cx_cur C) (klog [Acq R_namespaces, Rel R_namespaces] (cp_k st)) (cp_k st)"
      by (rule fsim_klog_zero) (simp add: fun_eq_iff)
    then show ?thesis
      unfolding st' by (simp add: un_namespaces_def) (intro un_mm_fsim(1) [OF assms, where n = 13], simp_all add: same_def)
  qed
qed (auto simp: stage_namespaces_def cp_inv_def split: sum.splits)

lemma stage_pid_keeps:
  assumes "env_ok C"
  shows "fw.keeps C (cp_inv C 16) Bad_fork_cleanup_thread (stage_pid C) Bad_fork_free_pid (cp_inv C 17)"
proof (rule fw.keepsI)
  have ex: "exits_ok (cx_E C)" using assms by (simp add: env_ok_def)
  show "fsim (cx_cur C) (unwind_fork C Bad_fork_free_pid st') (unwind_fork C Bad_fork_cleanup_thread st)"
    if "cp_inv C 16 st" "stage_pid C st = (None, st')" for st st'
  proof (cases "cx_pid C = cx_init_struct_pid C")
    case True
    with that show ?thesis by (simp add: stage_pid_def cp_inv_def un_free_pid_def)
  next
    case False
    with that obtain pid where "ce_pid (cx_E C) = Inr pid" "st' = st\<lparr>cp_pid := pid, cp_k := klog [Acq R_pid] (cp_k st)\<rparr>"
      by (auto simp: stage_pid_def split: sum.splits)
    moreover have "fsim (cx_cur C) (klog [Acq R_pid, Rel R_pid] (cp_k st)) (cp_k st)"
      by (rule fsim_klog_zero) (simp add: fun_eq_iff)
    ultimately show ?thesis
      using assms un_io_fsim(2) [OF ex, of _ _ _ 16] by (simp add: un_free_pid_def env_ok_def)
  qed
qed (auto simp: stage_pid_def cp_inv_def split: sum.splits if_splits)

lemma stage_pidfd_keeps:
  assumes ex: "exits_ok (cx_E C)"
  shows "fw.keeps C (cp_inv C 17) Bad_fork_free_pid (stage_pidfd C) Bad_fork_put_pidfd (cp_inv C 18)"
proof (rule fw.keepsI)
  have z: "fsim cur (un_free_pid C pid p (klog es k)) (un_free_pid C pid p k)" if "held (rev es) = (\<lambda>_. 0)" for cur pid p es k
    by (rule un_io_fsim(3) [OF ex fsim_klog_zero [OF that], where n = 17]) simp_all
  show "fsim (cx_cur C) (unwind_fork C Bad_fork_put_pidfd st') (unwind_fork C Bad_fork_free_pid st)"
    if "stage_pidfd C st = (None, st')" for st st'
    using that by (auto simp: stage_pidfd_def un_put_pidfd_def Let_def fun_eq_iff intro!: z split: sum.splits if_splits)
  show "fsim (cx_cur C) (unwind_fork C m st') (unwind_fork C Bad_fork_free_pid st)"
    if "stage_pidfd C st = (Some (m, e), st')" for st m e st'
    using that by (auto simp: stage_pidfd_def un_put_pidfd_def Let_def fun_eq_iff intro!: z split: sum.splits if_splits)
qed (simp add: cp_inv_def)

lemma copy_kv_sel:
  assumes "copy_kv C p k = (p', k')"
  shows "\<exists>H s. k' = k\<lparr>k_kv := H\<rparr> \<and> p' = p\<lparr>ts_kv := s\<rparr>"
proof -
  have "\<exists>H. l = l\<lparr>k_kv := H\<rparr>" for l :: kernel by (rule exI [of _ "k_kv l"]) simp
  with assms show ?thesis
    by (auto simp: copy_kv_def init_task_kv_store_def Let_def split: if_splits option.splits)
qed

lemma same_fields [simp]:
  "same n (set_ids C pid p) q = same n p q" "same n (set_parent C k p) q = same n p q" "same n (rseq_fork b c p) q = same n p q"
  by (simp_all add: same_def set_ids_def set_parent_def rseq_fork_def Let_def)

lemma same_upd [simp]:
  "same n (p\<lparr>ts_sas_ss_sp := u, ts_sas_ss_size := v\<rparr>) q = same n p q" "same n (p\<lparr>ts_syscall_work := w\<rparr>) q = same n p q"
  "same n (p\<lparr>ts_start_time := u, ts_start_boottime := v\<rparr>) q = same n p q"
  "same n (p\<lparr>ts_nr_dirtied := d, ts_nr_dirtied_pause := e, ts_dirty_paused_when := g, ts_pdeath_signal := h,
     ts_thread_group := i, ts_task_works := j, ts_kretprobe_instances := l\<rparr>) q = same n p q"
  "same n (p\<lparr>ts_plug := j, ts_kv := l\<rparr>) q = same n p q"
  by (simp_all add: same_def)

lemma stage_cgroup_spec:
  assumes "stage_cgroup C st = (r, st')"
  shows "same 18 (cp_p st') (cp_p st)" "cp_pid st' = cp_pid st"
    "\<exists>H es. cp_k st' = (klog es (cp_k st))\<lparr>k_kv := H\<rparr> \<and>
      held (rev es) = (\<lambda>q. if r = None \<and> q = R_cgroup then 1 else 0)"
    "r = None \<or> (\<exists>e. r = Some (Bad_fork_put_pidfd, e))"
proof -
  obtain p k where pk: "copy_kv C ((cp_p st)\<lparr>ts_plug := None\<rparr>) (klog [Call ''futex_init_task''] (cp_k st)) = (p, k)" by (rule prod.exhaust)
  from copy_kv_sel [OF this] obtain H s where H: "k = (klog [Call ''futex_init_task''] (cp_k st))\<lparr>k_kv := H\<rparr>"
    "p = (cp_p st)\<lparr>ts_plug := None, ts_kv := s\<rparr>" by blast
  let ?es = "[Call ''futex_init_task'', Call ''user_disable_single_step'', Call ''clear_tsk_latency_tracing'']"
  let ?fs = "?es @ [Acq R_cgroup, Call ''sched_cgroup_fork'']"
  have swap: "klog es (k\<lparr>k_kv := H\<rparr>) = (klog es k)\<lparr>k_kv := H\<rparr>" for es and k :: kernel by (simp add: klog_def)
  show "same 18 (cp_p st') (cp_p st)" "cp_pid st' = cp_pid st" "r = None \<or> (\<exists>e. r = Some (Bad_fork_put_pidfd, e))"
    using assms H by (auto simp: stage_cgroup_def pk call_or_def Let_def split: option.splits if_splits)
  have "cp_k st' = (klog (if r = None then ?fs else ?es) (cp_k st))\<lparr>k_kv := H\<rparr>"
    using assms H by (auto simp: stage_cgroup_def pk call_or_def Let_def swap split: option.splits if_splits)
  then show "\<exists>H es. cp_k st' = (klog es (cp_k st))\<lparr>k_kv := H\<rparr> \<and>
      held (rev es) = (\<lambda>q. if r = None \<and> q = R_cgroup then 1 else 0)"
    by (intro exI [of _ H] exI [of _ "if r = None then ?fs else ?es"]) (auto simp: fun_eq_iff)
qed

lemma last_stages_keep:
  assumes ex: "exits_ok (cx_E C)"
  shows "fw.keeps C (cp_inv C 18) Bad_fork_put_pidfd (run_stages [stage_cgroup C, stage_lock C]) Bad_fork_cancel_cgroup (\<lambda>_. True)"
proof (rule fw.keepsI)
  have z: "fsim cur (un_put_pidfd C pid p' (klog ds ((klog es k)\<lparr>k_kv := H\<rparr>))) (un_put_pidfd C pid p k)"
    if "same 18 p' p" "held (rev (es @ ds)) = (\<lambda>_. 0)" for cur pid p p' es ds k H
  proof -
    have "klog ds ((klog es k)\<lparr>k_kv := H\<rparr>) = (klog (es @ ds) k)\<lparr>k_kv := H\<rparr>" by (simp add: klog_def)
    with that(2) have "fsim cur (klog ds ((klog es k)\<lparr>k_kv := H\<rparr>)) k" by (simp add: fsim_def held_append fun_eq_iff)
    from un_io_fsim(4) [OF ex this that(1)] show ?thesis by simp
  qed
  have lock: "cp_pid st' = cp_pid st \<and> same 18 (cp_p st') (cp_p st) \<and>
      cp_k st' = klog [Acq R_tasklist, Call ''klp_copy_process'', Acq R_sched_core, Acq R_siglock] (cp_k st) \<and>
      (r = None \<or> (\<exists>e. r = Some (Bad_fork_cancel_cgroup, e)))" if "stage_lock C st = (r, st')" for r st st'
    using that by (auto simp: stage_lock_def Let_def split: if_splits)
  have both: "fsim (cx_cur C) (unwind_fork C Bad_fork_cancel_cgroup st') (unwind_fork C Bad_fork_put_pidfd st)"
    if c: "stage_cgroup C st = (None, st1)" and l: "stage_lock C st1 = (r, st')" for st st1 st' r
  proof -
    note cs = stage_cgroup_spec [OF c] and ls = lock [OF l]
    from cs(3) obtain H es where H: "cp_k st1 = (klog es (cp_k st))\<lparr>k_kv := H\<rparr>" "held (rev es) = (\<lambda>q. if q = R_cgroup then 1 else 0)" by auto
    have "same 18 (cp_p st') (cp_p st)" using cs(1) ls by (auto simp: same_def)
    then show ?thesis
      using ls cs(2) H by (auto simp: un_cancel_cgroup_def held_append fun_eq_iff intro!: z)
  qed
  show "fsim (cx_cur C) (unwind_fork C Bad_fork_cancel_cgroup st') (unwind_fork C Bad_fork_put_pidfd st)"
    if "run_stages [stage_cgroup C, stage_lock C] st = (None, st')" for st st'
    using that both by (auto split: prod.splits option.splits)
  show "fsim (cx_cur C) (unwind_fork C m st') (unwind_fork C Bad_fork_put_pidfd st)"
    if "run_stages [stage_cgroup C, stage_lock C] st = (Some (m, e), st')" for st m e st'
  proof -
    from that consider "stage_cgroup C st = (Some (m, e), st')"
      | st1 where "stage_cgroup C st = (None, st1)" "stage_lock C st1 = (Some (m, e), st')"
      by (auto split: prod.splits option.splits)
    then show ?thesis
    proof cases
      case 1
      note cs = stage_cgroup_spec [OF 1]
      from cs(3) obtain H es where "cp_k st' = klog [] ((klog es (cp_k st))\<lparr>k_kv := H\<rparr>)" "held (rev es) = (\<lambda>_. 0)" by auto
      with cs show ?thesis using z [of "cp_p st'" "cp_p st" es "[]"] by auto
    next
      case 2
      with both [OF 2] lock [OF 2(2)] show ?thesis by auto
    qed
  qed
qed simp

lemma fork_stages_keep:
  assumes "env_ok C"
  shows "fw.keeps C (cp_inv C 0) Bad_fork_free (run_stages (fork_stages C)) Bad_fork_cancel_cgroup (\<lambda>_. True)"
proof -
  have ex: "exits_ok (cx_E C)" and bits: "vm_bits_ok (cx_K C)" using assms by (simp_all add: env_ok_def)
  note keeps = stage_creds_keeps [OF ex] stage_limits_keeps [OF ex] stage_policy_keeps [OF ex] stage_sched_keeps [OF ex]
    stage_perf_keeps [OF ex] stage_audit_keeps [OF ex] stage_security_keeps [OF ex] stage_semundo_keeps [OF ex]
    stage_files_keeps [OF ex] stage_fs_keeps [OF ex] stage_sighand_keeps [OF ex] stage_signal_keeps [OF ex]
    stage_mm_keeps [OF ex bits] stage_namespaces_keeps [OF ex] stage_io_keeps [OF ex] stage_thread_keeps [OF ex]
    stage_pid_keeps [OF assms] stage_pidfd_keeps [OF ex]
  show ?thesis
    unfolding fork_stages_def
    by (intro keeps [THEN fw.keeps_Cons]
        last_stages_keep [OF ex])
qed

end
