(* ===== verification/Fork_Props.thy ===== *)
theory Fork_Props
  imports Copy_Stages
begin

text \<open>
  What \<^verbatim>\<open>copy_process\<close> guarantees: a failed call leaves nothing behind, whichever step failed, except the
  key-value store it may have allocated; a successful call makes one new task visible, a thread of the
  group of \<^verbatim>\<open>current\<close> or the leader of a new one, and releases the locks it took.
\<close>

section \<open>A failed fork\<close>

text \<open>
  \<open>fork_undone K cur k k'\<close>: up to the exceptions named for \<open>fcore\<close>, the kernel \<open>k'\<close> has the objects and
  counters of \<open>k\<close>, the stacks in use, their charges and their accounting are the same, and the same
  resources are held.
\<close>

definition fork_undone :: "kconst \<Rightarrow> addr \<Rightarrow> kernel \<Rightarrow> kernel \<Rightarrow> bool" where
  "fork_undone K cur k k' \<longleftrightarrow> stack_inv K k' \<and> stackless (fcore cur k') = stackless (fcore cur k) \<and>
     live_stacks k' = live_stacks k \<and> k_charged k' = k_charged k \<and> k_stack_kb k' = k_stack_kb k \<and>
     (\<forall>r. r \<notin> loose_res \<longrightarrow> held (k_log k') r = held (k_log k) r)"

text \<open>
  The situation in which \<^verbatim>\<open>copy_process\<close> is called: the stack cache is consistent, the running task's
  references are valid, the on-stack node for delayed signals is not linked yet, and what the
  allocators return is fresh.
\<close>

definition fork_ok :: "cp_ctx \<Rightarrow> kernel \<Rightarrow> bool" where
  "fork_ok C k \<longleftrightarrow> env_ok C \<and> stack_inv (cx_K C) k \<and> stack_env_ok (cx_K C) (ce_stack (cx_E C)) k \<and>
     files_ok (cx_E C) (cx_curt C) (k_fds k) \<and> fs_ok (cx_E C) (cx_curt C) (k_fss k) \<and>
     sighand_ok (cx_E C) (cx_curt C) (k_sighands k) \<and> signal_ok (cx_E C) (cx_curt C) (k_signals k) \<and>
     mm_ok C (k_mms k) \<and> ioc_ok (cx_E C) (cx_curt C) (k_iocs k) \<and>
     ce_node (cx_E C) \<notin> set (sg_multiprocess (deref (k_signals k) (the (ts_signal (cx_curt C)))))"

lemma fork_undone_trans:
  "fork_undone K cur k1 k2 \<Longrightarrow> fork_undone K cur k2 k3 \<Longrightarrow> fork_undone K cur k1 k3"
  by (simp add: fork_undone_def)

lemma fork_undone_fsim:
  assumes "fsim cur k' k" and "stack_inv K k"
  shows "fork_undone K cur k k'"
  using assms fsim_sel [OF assms(1)] stack_inv_cong [of k' k K] by (simp add: fork_undone_def fsim_def)

lemma fcore_stackless: "stackless k' = stackless k \<Longrightarrow> stackless (fcore cur k') = stackless (fcore cur k)"
proof -
  assume s: "stackless k' = stackless k"
  have "stackless (fcore cur k) = fcore cur (stackless k)" for k by (simp add: fcore_def stackless_def)
  with s show ?thesis by simp
qed

lemma stackless_signals: "stackless k' = stackless k \<Longrightarrow> k_signals k' = k_signals k"
proof -
  assume "stackless k' = stackless k"
  then have "k_signals (stackless k') = k_signals (stackless k)" by simp
  then show ?thesis by (simp add: stackless_def)
qed

text \<open>Unlinking the delayed-signal node commutes with what happens to the stacks.\<close>

lemma un_fork_out_undone:
  assumes "stack_inv K k'" "stackless k' = stackless k" "live_stacks k' = live_stacks k" "k_charged k' = k_charged k"
    "k_stack_kb k' = k_stack_kb k" "\<And>r. r \<notin> loose_res \<Longrightarrow> held (k_log k') r = held (k_log k) r"
  shows "fork_undone K cur (un_fork_out C k) (un_fork_out C k')"
proof -
  let ?f = "\<lambda>k. set_signal (the (ts_signal (cx_curt C))) (\<lambda>s. s\<lparr>sg_multiprocess := remove1 (ce_node (cx_E C)) (sg_multiprocess s)\<rparr>) k"
  have "stackless (?f k) = (stackless k)\<lparr>k_signals := k_signals (?f k)\<rparr>" for k
    by (simp add: set_signal_def stackless_def)
  moreover have "k_signals (?f k') = k_signals (?f k)"
    using stackless_signals [OF assms(2)] by (simp add: set_signal_def)
  ultimately have "stackless (?f k') = stackless (?f k)" using assms(2) by simp
  then have s: "stackless (un_fork_out C k') = stackless (un_fork_out C k)"
    by (simp add: un_fork_out_def set_signal_def klog_def stackless_def)
  have "k_vms (un_fork_out C k) = k_vms k" "k_cached_stacks (un_fork_out C k) = k_cached_stacks k"
    "k_charged (un_fork_out C k) = k_charged k" "k_stack_kb (un_fork_out C k) = k_stack_kb k"
    "k_log (un_fork_out C k) = Rel R_siglock # Acq R_siglock # k_log k" for k
    by (simp_all add: un_fork_out_def set_signal_def)
  note u = this and c = stack_inv_cong [OF this(1-3), of K]
  show ?thesis
    unfolding fork_undone_def using assms(1,3-6) c u fcore_stackless [OF s] by simp
qed

lemma link_then_out:
  assumes "signal_ok E (cx_curt C) (k_signals k)"
    and "ce_node (cx_E C) \<notin> set (sg_multiprocess (deref (k_signals k) (the (ts_signal (cx_curt C)))))"
  shows "fsim cur (un_fork_out C (link_delayed C k)) k"
proof -
  from assms obtain a s where a: "ts_signal (cx_curt C) = Some a" "k_signals k a = Some s" by (auto simp: signal_ok_def)
  let ?es = "[Acq R_siglock, Call ''recalc_sigpending'', Rel R_siglock, Acq R_siglock, Rel R_siglock]"
  have "un_fork_out C (link_delayed C k) = klog ?es k"
    using a assms(2) by (simp add: un_fork_out_def link_delayed_def set_signal_def klog_def Let_def remove1_idem fun_upd_idem)
  moreover have "held (rev ?es) = (\<lambda>_. 0)" by (simp add: fun_eq_iff)
  ultimately show ?thesis using fsim_klog_zero by metis
qed

lemma link_delayed_sel [simp]:
  "k_vms (link_delayed C k) = k_vms k" "k_cached_stacks (link_delayed C k) = k_cached_stacks k"
  "k_charged (link_delayed C k) = k_charged k" "k_stack_kb (link_delayed C k) = k_stack_kb k"
  "k_fds (link_delayed C k) = k_fds k" "k_fss (link_delayed C k) = k_fss k" "k_iocs (link_delayed C k) = k_iocs k"
  "k_sighands (link_delayed C k) = k_sighands k" "k_mms (link_delayed C k) = k_mms k"
  "stack_inv K (link_delayed C k) = stack_inv K k" "live_stacks (link_delayed C k) = live_stacks k"
  by (simp_all add: link_delayed_def set_signal_def Let_def stack_inv_def live_stacks_def cached_def)

lemma link_delayed_signal:
  "signal_ok E cur (k_signals k) \<Longrightarrow> signal_ok E cur (k_signals (link_delayed C k))"
  by (auto simp: link_delayed_def set_signal_def signal_ok_def upd_def Let_def)

lemma stackless_sel:
  assumes "stackless k' = stackless k"
  shows "k_fds k' = k_fds k" "k_fss k' = k_fss k" "k_iocs k' = k_iocs k" "k_sighands k' = k_sighands k" "k_mms k' = k_mms k"
    "k_signals k' = k_signals k" "k_tasks k' = k_tasks k" "k_nr_threads k' = k_nr_threads k" "k_max_threads k' = k_max_threads k"
    "k_total_forks k' = k_total_forks k" "k_kv k' = k_kv k"
proof -
  show "k_fds k' = k_fds k" using assms by (auto simp: stackless_def dest: arg_cong [where f = k_fds])
  show "k_fss k' = k_fss k" using assms by (auto simp: stackless_def dest: arg_cong [where f = k_fss])
  show "k_iocs k' = k_iocs k" using assms by (auto simp: stackless_def dest: arg_cong [where f = k_iocs])
  show "k_sighands k' = k_sighands k" using assms by (auto simp: stackless_def dest: arg_cong [where f = k_sighands])
  show "k_mms k' = k_mms k" using assms by (auto simp: stackless_def dest: arg_cong [where f = k_mms])
  show "k_signals k' = k_signals k" using assms by (auto simp: stackless_def dest: arg_cong [where f = k_signals])
  show "k_tasks k' = k_tasks k" using assms by (auto simp: stackless_def dest: arg_cong [where f = k_tasks])
  show "k_nr_threads k' = k_nr_threads k" using assms by (auto simp: stackless_def dest: arg_cong [where f = k_nr_threads])
  show "k_max_threads k' = k_max_threads k" using assms by (auto simp: stackless_def dest: arg_cong [where f = k_max_threads])
  show "k_total_forks k' = k_total_forks k" using assms by (auto simp: stackless_def dest: arg_cong [where f = k_total_forks])
  show "k_kv k' = k_kv k" using assms by (auto simp: stackless_def dest: arg_cong [where f = k_kv])
qed

lemma un_free_undone:
  assumes own: "stack_owned K p k1 k2" and inv: "stack_inv K k1" and log: "log_stack_only (klog [Acq R_task] k1) k2"
    and p': "ts_stack_vm_area p' = ts_stack_vm_area p" "ts_stack_refcount p' = 1"
    and K: "K = cx_K C" and k3: "k3 = klog [Call ''ftrace_graph_init_task''] k2"
  shows "fork_undone K cur (un_fork_out C k1) (un_free C p' k3)"
proof -
  let ?p = "p'\<lparr>ts_state := TASK_DEAD\<rparr>"
  obtain q k4 where put: "put_task_stack K (se_cpu (ce_stack (cx_E C))) ?p k3 = (q, k4)" by (rule prod.exhaust)
  have k3': "stack_inv K k3" "live_stacks k3 = live_stacks k2" "k_vms k3 = k_vms k2" "k_charged k3 = k_charged k2"
    "k_stack_kb k3 = k_stack_kb k2" "stackless k3 = stackless k1"
    using own by (simp_all add: k3 stack_owned_def)
  note s = put_task_stack_spec [OF own inv _ _ _ k3'(1-5) put]
  have d: "\<exists>es. delayed_free_task q k4 = klog es k4 \<and> held (rev es) = (\<lambda>r. if r = R_task then -1 else 0)"
    by (auto simp: delayed_free_task_def free_task_def Let_def fun_eq_iff intro!: exI)
  then obtain es where es: "delayed_free_task q k4 = klog es k4" "held (rev es) = (\<lambda>r. if r = R_task then -1 else 0)" by blast
  have "un_free C p' k3 = un_fork_out C (klog es k4)" using put es(1) by (simp add: un_free_def K)
  moreover have "fork_undone K cur (un_fork_out C k1) (un_fork_out C (klog es k4))"
  proof (rule un_fork_out_undone)
    fix r assume "r \<notin> loose_res"
    then have "held (k_log k2) r = held (k_log k1) r + (if r = R_task then 1 else 0)" "held (k_log k4) r = held (k_log k3) r"
      using log s(6) p' by (simp_all add: log_stack_only_def)
    then show "held (k_log (klog es k4)) r = held (k_log k1) r" using es(2) by (simp add: held_append k3)
  qed (use s p' k3'(6) in simp_all)
  ultimately show ?thesis by simp
qed

lemma dup_task_fields_refs:
  assumes "dup_task_struct K E orig k = (Some (a, p), k')"
  shows "ts_files p = ts_files orig" "ts_fs p = ts_fs orig" "ts_sighand p = ts_sighand orig" "ts_signal p = ts_signal orig"
    "ts_mm p = ts_mm orig" "ts_kv p = ts_kv orig"
  using assms by (auto simp: dup_task_struct_def dup_task_free_tsk_def dup_task_free_stack_def dup_task_fields_def Let_def
      split: option.splits prod.splits if_splits)

lemma cp_begin_sel [simp]:
  "ts_files (cp_begin C p) = ts_files p" "ts_fs (cp_begin C p) = ts_fs p" "ts_sighand (cp_begin C p) = ts_sighand p"
  "ts_signal (cp_begin C p) = ts_signal p" "ts_stack_vm_area (cp_begin C p) = ts_stack_vm_area p"
  "ts_stack_refcount (cp_begin C p) = ts_stack_refcount p" "ts_mm (cp_begin C p) = ts_mm p" "ts_kv (cp_begin C p) = ts_kv p"
  by (simp_all add: cp_begin_def rt_mutex_init_task_def Let_def)

text \<open>The state in which the stages start, and what holds there.\<close>

abbreviation first_state :: "cp_ctx \<Rightarrow> task_struct \<Rightarrow> kernel \<Rightarrow> cp_state" where
  "first_state C p k \<equiv> \<lparr>cp_k = klog [Call ''ftrace_graph_init_task''] k, cp_p = cp_begin C p, cp_pid = cx_pid C,
     cp_pidfd = -1, cp_pidfile = None\<rparr>"

lemma first_state_inv:
  assumes ok: "fork_ok C k" and d: "dup_task_struct (cx_K C) (ce_stack (cx_E C)) (cx_curt C) (link_delayed C k) = (Some (a, p), k1)"
  shows "cp_inv C 0 (first_state C p k1)" "stackless k1 = stackless (link_delayed C k)" "cx_p C = a"
    "stack_owned (cx_K C) p (link_delayed C k) k1" "log_stack_only (klog [Acq R_task] (link_delayed C k)) k1"
proof -
  have "stack_inv (cx_K C) (link_delayed C k)" "stack_env_ok (cx_K C) (ce_stack (cx_E C)) (link_delayed C k)"
    using ok by (simp_all add: fork_ok_def stack_env_ok_def)
  from dup_task_struct_spec [OF this d] show o: "stack_owned (cx_K C) p (link_delayed C k) k1"
    "log_stack_only (klog [Acq R_task] (link_delayed C k)) k1" "cx_p C = a" by (simp_all add: cx_p_def)
  then show s: "stackless k1 = stackless (link_delayed C k)" by (simp add: stack_owned_def)
  show "cp_inv C 0 (first_state C p k1)"
    using ok stackless_sel [OF s] dup_task_fields_refs [OF d] link_delayed_signal [of _ _ k C]
    by (simp add: cp_inv_def fork_ok_def)
qed

text \<open>The ways in which \<^verbatim>\<open>copy_process\<close> fails.\<close>

lemma copy_process_errE:
  assumes "copy_process C k = (Inl e, k')"
  obtains "k' = k" | "k' = un_fork_out C (link_delayed C k)"
    | k1 where "dup_task_struct (cx_K C) (ce_stack (cx_E C)) (cx_curt C) (link_delayed C k) = (None, k1)" "k' = un_fork_out C k1"
    | a p k1 l st where "dup_task_struct (cx_K C) (ce_stack (cx_E C)) (cx_curt C) (link_delayed C k) = (Some (a, p), k1)"
        "run_stages (fork_stages C) (first_state C p k1) = (Some (l, e), st)" "k' = unwind_fork C l st"
  using assms by (auto simp: copy_process_def Let_def split: option.splits if_splits prod.splits)

lemma copy_process_undone:
  assumes ok: "fork_ok C k" and c: "copy_process C k = (Inl e, k')"
  shows "fork_undone (cx_K C) (cx_cur C) k k'"
proof -
  let ?k = "link_delayed C k"
  have inv: "stack_inv (cx_K C) k" "env_ok C" using ok by (simp_all add: fork_ok_def)
  have out: "fork_undone (cx_K C) (cx_cur C) k (un_fork_out C ?k)"
    using ok by (intro fork_undone_fsim [OF link_then_out]) (auto simp: fork_ok_def)
  from c show ?thesis
  proof (cases rule: copy_process_errE)
    case 1
    with inv show ?thesis by (simp add: fork_undone_def)
  next
    case 2
    with out show ?thesis by simp
  next
    case (3 k1)
    have "stack_inv (cx_K C) ?k" "stack_env_ok (cx_K C) (ce_stack (cx_E C)) ?k"
      using ok by (simp_all add: fork_ok_def stack_env_ok_def)
    from dup_task_struct_spec [OF this 3(1)] have "fork_undone (cx_K C) (cx_cur C) (un_fork_out C ?k) k'"
      unfolding 3(2) by (intro un_fork_out_undone) (auto simp: stack_restored_def log_stack_only_def)
    with out show ?thesis by (rule fork_undone_trans)
  next
    case (4 a p k1 l st)
    note f = first_state_inv [OF ok 4(1)]
    have "fsim (cx_cur C) k' (unwind_fork C Bad_fork_free (first_state C p k1))"
      unfolding 4(3) by (rule fw.run_fails [OF fork_stages_keep [OF inv(2)] f(1) 4(2)])
    moreover have u: "fork_undone (cx_K C) (cx_cur C) (un_fork_out C ?k) (unwind_fork C Bad_fork_free (first_state C p k1))"
      using f(4) inv(1) by (auto intro!: un_free_undone [OF f(4) _ f(5)] simp: stack_owned_def)
    ultimately have "fork_undone (cx_K C) (cx_cur C) (unwind_fork C Bad_fork_free (first_state C p k1)) k'"
      by (intro fork_undone_fsim) (simp_all add: fork_undone_def)
    with out u show ?thesis by (blast intro: fork_undone_trans)
  qed
qed

end
