(* ===== verification/Fork_Post.thy ===== *)
theory Fork_Post
  imports Fork_Props
begin

text \<open>
  What the stages of \<^verbatim>\<open>copy_process\<close> build: the fields of the new task and the counters of the kernel
  after each stage, for the postcondition of a successful fork and for the fate of the key-value
  store in a failed one.
\<close>

section \<open>State after each stage\<close>

text \<open>The key-value heap once the store of the new task is set up.\<close>

definition kv_after :: "cp_ctx \<Rightarrow> kv_heap \<Rightarrow> kv_heap" where
  "kv_after C H =
     (if has (cx_flags C) (CLONE_THREAD (cx_K C)) then H
      else case ce_kv (cx_E C) of
             None \<Rightarrow> H
           | Some s \<Rightarrow> H\<lparr>kh_stores := (kh_stores H)(s \<mapsto> init_buckets KV_BUCKETS 0 (ce_kv_junk (cx_E C)))\<rparr>)"

abbreviation (input) is_thread :: "cp_ctx \<Rightarrow> bool" where
  "is_thread C \<equiv> has (cx_flags C) (CLONE_THREAD (cx_K C))"

definition counters :: "kernel \<Rightarrow> int \<times> int \<times> u64" where
  "counters k = (k_nr_threads k, k_max_threads k, k_total_forks k)"

definition locks_held :: "kernel \<Rightarrow> int \<times> int" where
  "locks_held k = (held (k_log k) R_siglock, held (k_log k) R_tasklist)"

definition cp_post :: "cp_ctx \<Rightarrow> kernel \<Rightarrow> nat \<Rightarrow> cp_state \<Rightarrow> bool" where
  "cp_post C k n st \<longleftrightarrow>
     counters (cp_k st) = counters k \<and> locks_held (cp_k st) = locks_held k \<and>
     k_kv (cp_k st) = (if n \<le> 18 then k_kv k else kv_after C (k_kv k)) \<and>
     (2 \<le> n \<longrightarrow> k_nr_threads k < k_max_threads k) \<and>
     ts_signal (cp_p st) = (if n < 12 \<or> is_thread C then ts_signal (cx_curt C) else ce_signal (cx_E C)) \<and>
     (12 \<le> n \<and> \<not> is_thread C \<longrightarrow> ce_signal (cx_E C) \<noteq> None) \<and>
     (13 \<le> n \<and> has (cx_flags C) (CLONE_VM (cx_K C)) \<longrightarrow> ts_mm (cp_p st) = ts_mm (cx_curt C)) \<and>
     (n \<le> 12 \<longrightarrow> mm_ok C (k_mms (cp_k st))) \<and>
     (19 \<le> n \<longrightarrow>
        ts_kv (cp_p st) = (if is_thread C then ts_kv (cx_curt C) else ce_kv (cx_E C)) \<and>
        ts_pid (cp_p st) = ce_pid_nr (cx_E C) (cp_pid st) \<and>
        ts_tgid (cp_p st) = (if is_thread C then ts_tgid (cx_curt C) else ts_pid (cp_p st)) \<and>
        ts_group_leader (cp_p st) = (if is_thread C then ts_group_leader (cx_curt C) else cx_p C))"

text \<open>Where a failing stage leaves the key-value heap.\<close>

definition kv_fate :: "cp_ctx \<Rightarrow> kernel \<Rightarrow> cp_state \<Rightarrow> bool" where
  "kv_fate C k st \<longleftrightarrow> k_kv (cp_k st) = k_kv k \<or> k_kv (cp_k st) = kv_after C (k_kv k)"

lemma counters_klog [simp]: "counters (klog es k) = counters k"
  by (simp add: counters_def)

lemma locks_klog: "held (rev es) R_siglock = 0 \<Longrightarrow> held (rev es) R_tasklist = 0 \<Longrightarrow> locks_held (klog es k) = locks_held k"
  by (simp add: locks_held_def held_append)

lemma kv_fate_early: "cp_post C k n st \<Longrightarrow> n \<le> 18 \<Longrightarrow> kv_fate C k st"
  by (simp add: cp_post_def kv_fate_def)

lemma post_call:
  assumes "\<And>st. cp_post C k n st \<Longrightarrow> cp_post C k m (st\<lparr>cp_k := klog es (cp_k st)\<rparr>)" and "n \<le> 18"
  shows "post (cp_post C k n) (call_or l r es) (cp_post C k m) (kv_fate C k)"
  using assms kv_fate_early by (auto simp: post_def call_or_def split: option.split)

lemmas post_simps = cp_post_def locks_klog

lemma post_calls:
  "post (cp_post C k 0) (stage_creds C) (cp_post C k 1) (kv_fate C k)"
  "post (cp_post C k 4) (stage_perf C) (cp_post C k 5) (kv_fate C k)"
  "post (cp_post C k 5) (stage_audit C) (cp_post C k 6) (kv_fate C k)"
  "post (cp_post C k 6) (stage_security C) (cp_post C k 7) (kv_fate C k)"
  "post (cp_post C k 7) (stage_semundo C) (cp_post C k 8) (kv_fate C k)"
  "post (cp_post C k 15) (stage_thread C) (cp_post C k 16) (kv_fate C k)"
  unfolding stage_creds_def stage_perf_def stage_audit_def stage_security_def stage_semundo_def stage_thread_def
  by (rule post_call; simp add: post_simps)+

lemma post_limits: "post (cp_post C k 1) (stage_limits C) (cp_post C k 2) (kv_fate C k)"
  by (auto simp: post_def stage_limits_def cp_post_def kv_fate_def counters_def locks_held_def Let_def)

lemma post_policy: "post (cp_post C k 2) (stage_policy C) (cp_post C k 3) (kv_fate C k)"
  by (auto simp: post_def stage_policy_def post_simps kv_fate_def Let_def split: option.splits sum.splits)

lemma post_sched: "post (cp_post C k 3) (stage_sched C) (cp_post C k 4) (kv_fate C k)"
  by (auto simp: post_def stage_sched_def call_or_def post_simps kv_fate_def Let_def split: option.splits)

lemma post_files: "post (cp_post C k 8) (stage_files C) (cp_post C k 9) (kv_fate C k)"
  by (auto simp: post_def stage_files_def copy_or_def copy_files_def post_simps kv_fate_def counters_def locks_held_def
      split: option.splits if_splits sum.splits)

lemma post_fs: "post (cp_post C k 9) (stage_fs C) (cp_post C k 10) (kv_fate C k)"
  by (auto simp: post_def stage_fs_def copy_or_def copy_fs_def post_simps kv_fate_def counters_def locks_held_def Let_def
      split: option.splits if_splits)

lemma post_sighand: "post (cp_post C k 10) (stage_sighand C) (cp_post C k 11) (kv_fate C k)"
  by (auto simp: post_def stage_sighand_def copy_or_def copy_sighand_def get_sighand_def cp_post_def kv_fate_def counters_def
      locks_held_def Let_def split: option.splits if_splits)

lemma post_signal: "post (cp_post C k 11) (stage_signal C) (cp_post C k 12) (kv_fate C k)"
  by (auto simp: post_def stage_signal_def copy_or_def copy_signal_def cp_post_def kv_fate_def counters_def
      locks_held_def Let_def split: option.splits if_splits)

lemma mmless_counters: "mmless k' = mmless k \<Longrightarrow> counters k' = counters k \<and> k_kv k' = k_kv k"
proof -
  assume m: "mmless k' = mmless k"
  have "counters (mmless k) = counters k" "k_kv (mmless k) = k_kv k" for k by (simp_all add: mmless_def counters_def)
  with m show ?thesis by metis
qed

lemma post_mm:
  assumes "vm_bits_ok (cx_K C)"
  shows "post (cp_post C k 12) (stage_mm C) (cp_post C k 13) (kv_fate C k)"
proof -
  have "case r of None \<Rightarrow> cp_post C k 13 (st\<lparr>cp_p := p, cp_k := l\<rparr>) | Some e \<Rightarrow> kv_fate C k (st\<lparr>cp_p := p, cp_k := l\<rparr>)"
    if P: "cp_post C k 12 st" and c: "copy_mm (cx_K C) (ce_mm (cx_E C)) (cx_flags C) (cx_curt C) (cx_p C) (cp_p st) (cp_k st) = (r, p, l)"
    for st r p l
  proof -
    have "mm_copied (cx_K C) (ce_mm (cx_E C)) (cx_flags C) (cx_curt C) (cx_p C) (cp_k st) r p l"
      by (rule copy_mm_spec [OF assms _ _ c]) (use P in \<open>auto simp: cp_post_def mm_ok_def\<close>)
    note m = this [unfolded mm_copied_def]
    then have l: "counters l = counters (cp_k st)" "k_kv l = k_kv (cp_k st)" using mmless_counters by blast+
    have "locks_held l = locks_held (cp_k st)" if "r = None"
      using m that by (cases "ts_mm p") (auto simp: locks_held_def mm_created_def mm_refs_def split: if_splits)
    moreover have "has (cx_flags C) (CLONE_VM (cx_K C)) \<longrightarrow> ts_mm p = ts_mm (cx_curt C)" if "r = None"
      using m that by (cases "ts_mm p") auto
    ultimately show ?thesis
      using P l copy_mm_sel(7) [OF c] by (cases r) (auto simp: cp_post_def kv_fate_def)
  qed
  then show ?thesis
    unfolding post_def stage_mm_def copy_or_def by (fastforce split: prod.splits option.splits)
qed

lemma post_namespaces: "post (cp_post C k 13) (stage_namespaces C) (cp_post C k 14) (kv_fate C k)"
  by (auto simp: post_def stage_namespaces_def post_simps kv_fate_def split: sum.splits)

lemma post_io: "post (cp_post C k 14) (stage_io C) (cp_post C k 15) (kv_fate C k)"
  by (auto simp: post_def stage_io_def copy_or_def copy_io_def cp_post_def kv_fate_def counters_def locks_held_def Let_def
      split: option.splits if_splits)

lemma post_pid: "post (cp_post C k 16) (stage_pid C) (cp_post C k 17) (kv_fate C k)"
  by (auto simp: post_def stage_pid_def post_simps kv_fate_def split: sum.splits)

lemma post_pidfd: "post (cp_post C k 17) (stage_pidfd C) (cp_post C k 18) (kv_fate C k)"
  by (auto simp: post_def stage_pidfd_def post_simps kv_fate_def Let_def split: sum.splits option.splits)

lemma post_cgroup: "post (cp_post C k 18) (stage_cgroup C) (cp_post C k 19) (kv_fate C k)"
proof -
  have kv: "copy_kv C p l = (p', l') \<Longrightarrow> l' = l\<lparr>k_kv := kv_after C (k_kv l)\<rparr> \<and>
      p' = p\<lparr>ts_kv := (if is_thread C then ts_kv (cx_curt C) else ce_kv (cx_E C))\<rparr>" for p l p' l'
    by (auto simp: copy_kv_def init_task_kv_store_def kv_after_def Let_def split: option.splits if_splits)
  show ?thesis
    by (auto simp: post_def stage_cgroup_def call_or_def cp_post_def kv_fate_def counters_def locks_held_def set_ids_def Let_def
        dest!: kv split: prod.splits option.splits)
qed

text \<open>After the last stage: both locks are taken and the parent is chosen.\<close>

definition cp_done :: "cp_ctx \<Rightarrow> kernel \<Rightarrow> cp_state \<Rightarrow> bool" where
  "cp_done C k st \<longleftrightarrow>
     counters (cp_k st) = counters k \<and> locks_held (cp_k st) = (fst (locks_held k) + 1, snd (locks_held k) + 1) \<and>
     k_kv (cp_k st) = kv_after C (k_kv k) \<and> k_nr_threads k < k_max_threads k \<and>
     ts_signal (cp_p st) = (if is_thread C then ts_signal (cx_curt C) else ce_signal (cx_E C)) \<and>
     (\<not> is_thread C \<longrightarrow> ce_signal (cx_E C) \<noteq> None) \<and>
     (has (cx_flags C) (CLONE_VM (cx_K C)) \<longrightarrow> ts_mm (cp_p st) = ts_mm (cx_curt C)) \<and>
     ts_kv (cp_p st) = (if is_thread C then ts_kv (cx_curt C) else ce_kv (cx_E C)) \<and>
     ts_pid (cp_p st) = ce_pid_nr (cx_E C) (cp_pid st) \<and>
     ts_tgid (cp_p st) = (if is_thread C then ts_tgid (cx_curt C) else ts_pid (cp_p st)) \<and>
     ts_group_leader (cp_p st) = (if is_thread C then ts_group_leader (cx_curt C) else cx_p C) \<and>
     ts_real_parent (cp_p st) =
       (if has (cx_flags C) (CLONE_PARENT (cx_K C) OR CLONE_THREAD (cx_K C)) then ts_real_parent (cx_curt C) else cx_cur C) \<and>
     (is_thread C \<longrightarrow> ts_exit_signal (cp_p st) = -1)"

lemma post_lock: "post (cp_post C k 19) (stage_lock C) (cp_done C k) (kv_fate C k)"
  by (auto simp: post_def stage_lock_def cp_post_def cp_done_def kv_fate_def counters_def locks_held_def set_parent_def
      rseq_fork_def has_or Let_def split: prod.splits)

lemma fork_stages_post:
  assumes "vm_bits_ok (cx_K C)"
  shows "post (cp_post C k 0) (run_stages (fork_stages C)) (cp_done C k) (kv_fate C k)"
  unfolding fork_stages_def
  by (intro post_calls [THEN post_Cons] post_limits [THEN post_Cons] post_policy [THEN post_Cons] post_sched [THEN post_Cons]
      post_files [THEN post_Cons] post_fs [THEN post_Cons] post_sighand [THEN post_Cons] post_signal [THEN post_Cons]
      post_mm [OF assms, THEN post_Cons] post_namespaces [THEN post_Cons] post_io [THEN post_Cons] post_pid [THEN post_Cons]
      post_pidfd [THEN post_Cons] post_cgroup [THEN post_Cons] post_lock [THEN post_Cons] post_Nil)

lemma first_state_post:
  assumes ok: "fork_ok C k" and d: "dup_task_struct (cx_K C) (ce_stack (cx_E C)) (cx_curt C) (link_delayed C k) = (Some (a, p), k1)"
  shows "cp_post C k 0 (first_state C p k1)"
proof -
  note f = first_state_inv [OF ok d]
  have "locks_held k1 = locks_held (link_delayed C k)" using f(5) by (simp add: log_stack_only_def locks_held_def)
  then have "locks_held k1 = locks_held k" by (simp add: locks_held_def link_delayed_def set_signal_def Let_def)
  moreover have "counters (link_delayed C k) = counters k" "k_kv (link_delayed C k) = k_kv k"
    by (simp_all add: counters_def link_delayed_def set_signal_def Let_def)
  ultimately show ?thesis
    using stackless_sel [OF f(2)] dup_task_fields_refs [OF d] ok
    by (simp add: cp_post_def counters_def locks_klog fork_ok_def)
qed

section \<open>Making the task visible\<close>

definition attach_frame :: "kernel \<Rightarrow> int \<times> u64 \<times> kv_heap \<times> int \<times> int" where
  "attach_frame k = (k_nr_threads k, k_total_forks k, k_kv k, locks_held k)"

lemma attach_frame_simps [simp]:
  "attach_frame (set_signal a f k) = attach_frame k" "attach_frame (set_task a g k) = attach_frame k"
  "attach_frame (k\<lparr>k_tasklist := xs\<rparr>) = attach_frame k" "attach_frame (k\<lparr>k_process_counts := c\<rparr>) = attach_frame k"
  by (simp_all add: attach_frame_def set_signal_def set_task_def locks_held_def)

lemma attach_frame_klog:
  "held (rev es) R_siglock = 0 \<Longrightarrow> held (rev es) R_tasklist = 0 \<Longrightarrow> attach_frame (klog es k) = attach_frame k"
  by (simp add: attach_frame_def locks_klog)

lemma attach_leader_sel: "fst (attach_leader C pid p k) = p" "attach_frame (snd (attach_leader C pid p k)) = attach_frame k"
  by (simp_all add: attach_leader_def init_task_pid_def Let_def attach_frame_klog)

lemma attach_thread_sel: "fst (attach_thread C p k) = p" "attach_frame (snd (attach_thread C p k)) = attach_frame k"
  by (simp_all add: attach_thread_def Let_def attach_frame_klog)

lemma copy_seccomp_sel:
  "ts_tgid (fst (copy_seccomp K c p k)) = ts_tgid p" "ts_pid (fst (copy_seccomp K c p k)) = ts_pid p"
  "ts_group_leader (fst (copy_seccomp K c p k)) = ts_group_leader p" "ts_signal (fst (copy_seccomp K c p k)) = ts_signal p"
  "ts_kv (fst (copy_seccomp K c p k)) = ts_kv p" "ts_mm (fst (copy_seccomp K c p k)) = ts_mm p"
  "ts_real_parent (fst (copy_seccomp K c p k)) = ts_real_parent p" "ts_exit_signal (fst (copy_seccomp K c p k)) = ts_exit_signal p"
  "ts_seccomp (fst (copy_seccomp K c p k)) = ts_seccomp c" "snd (copy_seccomp K c p k) = klog [Acq R_seccomp_filter] k"
  by (simp_all add: copy_seccomp_def task_set_no_new_privs_def TASK_PFA_SET_def Let_def)

lemma attach_pids_sel:
  "fst (attach_pids C pid p k) = (if ts_pid p \<noteq> 0 then p\<lparr>ts_thread_pid := Some pid\<rparr> else p)"
  "attach_frame (snd (attach_pids C pid p k)) =
     (k_nr_threads k + (if ts_pid p \<noteq> 0 then 1 else 0), k_total_forks k, k_kv k, locks_held k)"
proof -
  let ?p = "p\<lparr>ts_thread_pid := Some pid\<rparr>" and ?k = "klog [Call ''ptrace_init_task''] k"
  define b where "b = (if thread_group_leader ?p then attach_leader C pid ?p ?k else attach_thread C ?p ?k)"
  have b: "fst b = ?p" "attach_frame (snd b) = attach_frame k"
    by (simp_all add: b_def attach_leader_sel attach_thread_sel attach_frame_klog)
  have eq: "attach_pids C pid p k = (if ts_pid p \<noteq> 0
      then (fst b, (klog [Call ''attach_pid PID''] (snd b))\<lparr>k_nr_threads := k_nr_threads (snd b) + 1\<rparr>) else (p, k))"
    unfolding b_def attach_pids_def init_task_pid_def Let_def by (simp add: case_prod_beta)
  show "fst (attach_pids C pid p k) = (if ts_pid p \<noteq> 0 then ?p else p)" by (simp add: eq b(1))
  show "attach_frame (snd (attach_pids C pid p k)) =
     (k_nr_threads k + (if ts_pid p \<noteq> 0 then 1 else 0), k_total_forks k, k_kv k, locks_held k)"
    using b(2) by (simp add: eq attach_frame_def locks_held_def)
qed

lemma attach_sel:
  assumes "attach_task C pid p l = (p', l')"
  shows "p' = (let q = fst (copy_seccomp (cx_K C) (cx_curt C) p l) in if ts_pid p \<noteq> 0 then q\<lparr>ts_thread_pid := Some pid\<rparr> else q)"
    "k_tasks l' (cx_p C) = Some p'"
    "attach_frame l' = (k_nr_threads l + (if ts_pid p \<noteq> 0 then 1 else 0), k_total_forks l + 1, k_kv l,
       fst (locks_held l) - 1, snd (locks_held l) - 1)"
proof -
  define q where "q = fst (copy_seccomp (cx_K C) (cx_curt C) p l)"
  define r where "r = attach_pids C pid q (klog [Acq R_seccomp_filter] l)"
  have q: "ts_pid q = ts_pid p" by (simp add: q_def copy_seccomp_sel)
  note r = attach_pids_sel [of C pid q "klog [Acq R_seccomp_filter] l", folded r_def]
  have "copy_seccomp (cx_K C) (cx_curt C) p l = (q, klog [Acq R_seccomp_filter] l)"
    unfolding q_def by (rule prod_eqI) (simp_all add: copy_seccomp_sel)
  then have p': "p' = fst r" and l': "k_tasks l' (cx_p C) = Some (fst r)" "k_nr_threads l' = k_nr_threads (snd r)"
    "k_total_forks l' = k_total_forks (snd r) + 1" "k_kv l' = k_kv (snd r)"
    "locks_held l' = (fst (locks_held (snd r)) - 1, snd (locks_held (snd r)) - 1)"
    using assms by (auto simp: attach_task_def Let_def case_prod_beta r_def [symmetric] set_signal_def locks_held_def)
  show "p' = (let q = fst (copy_seccomp (cx_K C) (cx_curt C) p l) in if ts_pid p \<noteq> 0 then q\<lparr>ts_thread_pid := Some pid\<rparr> else q)"
    using r(1) q by (simp add: p' q_def Let_def)
  show "k_tasks l' (cx_p C) = Some p'" using l' p' by simp
  show "attach_frame l' = (k_nr_threads l + (if ts_pid p \<noteq> 0 then 1 else 0), k_total_forks l + 1, k_kv l,
       fst (locks_held l) - 1, snd (locks_held l) - 1)"
    using r(2) q l' by (simp add: attach_frame_def locks_klog)
qed

lemma oom_sel [simp]:
  "k_tasks (copy_oom_score_adj K f c t k) = k_tasks k" "k_total_forks (copy_oom_score_adj K f c t k) = k_total_forks k"
  "k_nr_threads (copy_oom_score_adj K f c t k) = k_nr_threads k" "k_kv (copy_oom_score_adj K f c t k) = k_kv k"
  "k_log (copy_oom_score_adj K f c t k) = k_log k"
  by (simp_all add: copy_oom_score_adj_def set_signal_def set_mm_def Let_def split: option.split)

lemma finish_sel:
  assumes "attach_task C (cp_pid st) (cp_p st) (cp_k st) = (p, l)"
  shows "k_tasks (finish_fork C st) = k_tasks l" "k_total_forks (finish_fork C st) = k_total_forks l"
    "k_nr_threads (finish_fork C st) = k_nr_threads l" "k_kv (finish_fork C st) = k_kv l" "locks_held (finish_fork C st) = locks_held l"
  using assms by (simp_all add: finish_fork_def Let_def locks_held_def)

text \<open>The flag checks: a thread shares its parent's signal handlers and memory.\<close>

lemma thread_shares:
  assumes "clone_flags_check C k = None" and "is_thread C"
  shows "has (cx_flags C) (CLONE_SIGHAND (cx_K C))" "has (cx_flags C) (CLONE_VM (cx_K C))"
    "\<not> has (cx_flags C) (CLONE_NEWUSER (cx_K C))" "\<not> has (cx_flags C) (CLONE_NEWPID (cx_K C))"
  using assms by (auto simp: clone_flags_check_def Let_def has_or split: if_splits)

lemma copy_process_done:
  assumes ok: "fork_ok C k" and c: "copy_process C k = (Inr a, k')"
  obtains st where "a = cx_p C" "k' = finish_fork C st" "cp_done C k st" "clone_flags_check C k = None"
proof -
  from c obtain b p k1 st where d: "dup_task_struct (cx_K C) (ce_stack (cx_E C)) (cx_curt C) (link_delayed C k) = (Some (b, p), k1)"
    and r: "run_stages (fork_stages C) (first_state C p k1) = (None, st)" and e: "a = cx_p C" "k' = finish_fork C st"
      "clone_flags_check C k = None"
    by (auto simp: copy_process_def Let_def split: option.splits if_splits prod.splits)
  have "vm_bits_ok (cx_K C)" using ok by (simp add: fork_ok_def env_ok_def)
  from postD(1) [OF fork_stages_post [OF this] first_state_post [OF ok d] r] e show ?thesis by (intro that)
qed

section \<open>The key-value store in a failed fork\<close>

lemma kv_unwind:
  assumes "exits_ok (cx_E C)"
  shows "k_kv (unwind_fork C l st) = k_kv (cp_k st)"
proof -
  have put: "k_kv (mmput E t a k) = k_kv k" for E t a k using mmless_counters [OF mmless_put] by blast
  have drops: "k_kv (drop_fs a k) = k_kv k" "k_kv (drop_files a k) = k_kv k" "k_kv (drop_ioc a k) = k_kv k"
    "k_kv (cleanup_sighand b k) = k_kv k" "k_kv (mmdrop_async b k) = k_kv k" "k_kv (mm_clear_owner b c k) = k_kv k" for a b c k
    by (simp_all add: drop_fs_def drop_files_def drop_ioc_def cleanup_sighand_def mmdrop_async_def mm_clear_owner_def set_mm_def
        Let_def split: option.split)
  have sig: "k_kv (free_signal_struct a k) = k_kv k" for a k
    by (simp add: free_signal_struct_def Let_def drops split: option.split)
  have stack: "k_kv (snd (put_task_stack K cpu p k)) = k_kv k" for K cpu p k
    by (simp add: put_task_stack_def release_task_stack_def free_thread_stack_def account_kernel_stack_def vfree_stack_def Let_def
        split: option.split)
  have free: "k_kv (un_free C p k) = k_kv k" for p k
    using stack [of "cx_K C" "se_cpu (ce_stack (cx_E C))" "p\<lparr>ts_state := TASK_DEAD\<rparr>" k]
    by (simp add: un_free_def un_fork_out_def set_signal_def delayed_free_task_def free_task_def Let_def case_prod_beta)
  have low: "k_kv (un_semundo C p k) = k_kv k" "k_kv (un_policy C p k) = k_kv k" for p k
    by (simp_all add: un_semundo_def un_security_def un_audit_def un_perf_def un_policy_def un_threadgroup_lock_def un_count_def free)
  have mid: "k_kv (un_signal C p k) = k_kv k" "k_kv (un_sighand C p k) = k_kv k" "k_kv (un_fs C p k) = k_kv k"
      "k_kv (un_files C p k) = k_kv k" for p k
    by (simp_all add: un_signal_def un_sighand_def un_fs_def un_files_def exits_okD [OF assms] drops sig low)
  have hi: "k_kv (un_mm C p k) = k_kv k" for p k by (simp add: un_mm_def mid put drops split: option.split)
  have io: "k_kv (un_io C p k) = k_kv k" for p k by (simp add: un_io_def un_namespaces_def hi drops exits_okD [OF assms])
  show ?thesis
    by (cases l) (simp_all add: free low mid hi io un_fork_out_def set_signal_def un_count_def un_threadgroup_lock_def un_perf_def
        un_audit_def un_security_def un_namespaces_def un_thread_def un_free_pid_def un_put_pidfd_def un_cancel_cgroup_def)
qed

section \<open>Properties\<close>

text \<open>A kernel with one process, and the answers of a fork of it in which every step succeeds.\<close>

definition demo_current :: task_struct where
  "demo_current = zero_task\<lparr>ts_pid := 7, ts_tgid := 7, ts_group_leader := 10, ts_real_parent := 1, ts_signal := Some 20,
     ts_sighand := Some 21, ts_fs := Some 22, ts_files := Some 23, ts_nsproxy := Some 24, ts_kv := Some 50\<rparr>"

definition demo_fork_kernel :: kernel where
  "demo_fork_kernel = zero_kernel\<lparr>k_tasks := [10 \<mapsto> demo_current], k_signals := [20 \<mapsto> zero_signal\<lparr>sg_sigcnt := 1\<rparr>],
     k_sighands := [21 \<mapsto> \<lparr>sh_count = 1, sh_action = \<lambda>_. SIG_DFL\<rparr>], k_fss := [22 \<mapsto> \<lparr>fs_users = 1, fs_in_exec = False\<rparr>],
     k_fds := [23 \<mapsto> \<lparr>fl_count = 1\<rparr>],
     k_nsproxys := [24 \<mapsto> \<lparr>ns_pid_ns_for_children = 2, ns_time_ns = 3, ns_time_ns_for_children = 3\<rparr>],
     k_max_threads := 100, k_nr_threads := 1\<rparr>"

definition demo_cp_env :: cp_env where
  "demo_cp_env = \<lparr>ce_stack = demo_stack_env, ce_mm = demo_mm_env, ce_active_pid_ns = 2, ce_node = 77, ce_sigpending = False,
     ce_delayed = {}, ce_creds = None, ce_overlimit = False, ce_init_user = True, ce_cap_resource = False, ce_cap_admin = False,
     ce_mpol = Inr 150, ce_sched = None, ce_perf = None, ce_audit = None, ce_security = None, ce_semundo = None,
     ce_dup_fd = Inr (123, \<lparr>fl_count = 1\<rparr>), ce_fs = Some (122, \<lparr>fs_users = 1, fs_in_exec = False\<rparr>), ce_sighand = Some 121,
     ce_flush = \<lambda>a. a, ce_signal = Some 120, ce_namespaces = Inr (Some 24), ce_ioprio_valid = \<lambda>_. True, ce_ioc = None,
     ce_thread = None, ce_pid = Inr 130, ce_pid_nr = \<lambda>_. 8, ce_fd = Inr 5, ce_pidfile = Inr 140, ce_put_user = None,
     ce_kv = Some 51, ce_kv_junk = \<lparr>kvs_locks = \<lambda>_. Some 3, kvs_head = \<lambda>_. [9]\<rparr>, ce_can_fork = None, ce_start_time = 1,
     ce_start_boottime = 1, ce_ns_adding = True, ce_fatal = False, ce_pgrp = Some 131, ce_session = Some 132,
     ce_child_reaper = False, ce_exit_fs = \<lambda>t. drop_fs (ts_fs t), ce_exit_files = \<lambda>t. drop_files (ts_files t),
     ce_exit_io = \<lambda>t. drop_ioc (ts_io_context t)\<rparr>"

definition demo_args :: clone_args where
  "demo_args = \<lparr>ca_flags = 0, ca_pidfd = None, ca_child_tid = None, ca_parent_tid = None, ca_exit_signal = 17, ca_stack = 0,
     ca_stack_size = 0, ca_tls = 0, ca_set_tid = [], ca_cgroup = 0, ca_io_thread = False\<rparr>"

definition demo_ctx :: "bool \<Rightarrow> cp_ctx" where
  "demo_ctx fatal = \<lparr>cx_K = linux_x86, cx_E = demo_cp_env\<lparr>ce_fatal := fatal\<rparr>, cx_args = demo_args, cx_cur = 10,
     cx_curt = demo_current, cx_trace = False, cx_pid = 0, cx_init_struct_pid = 1\<rparr>"

lemma demo_fork_ok: "fork_ok (demo_ctx fatal) demo_fork_kernel"
proof -
  have "stack_inv linux_x86 demo_fork_kernel" "stack_env_ok linux_x86 demo_stack_env demo_fork_kernel"
    using zero_kernel_stack_inv [of linux_x86] demo_stack_env_ok
    by (simp_all add: demo_fork_kernel_def stack_inv_def stack_env_ok_def cached_def)
  then show ?thesis
    by (simp add: fork_ok_def env_ok_def exits_ok_def vm_bits_x86 files_ok_def fs_ok_def sighand_ok_def signal_ok_def mm_ok_def
        ioc_ok_def demo_ctx_def demo_cp_env_def demo_mm_env_def demo_current_def demo_fork_kernel_def zero_kernel_def zero_task_def
        zero_signal_def)
qed

lemmas demo_defs = demo_ctx_def demo_cp_env_def demo_current_def demo_fork_kernel_def demo_args_def demo_stack_env_def zero_kernel_def
  zero_task_def zero_signal_def linux_x86_def

lemma demo_link:
  "link_delayed (demo_ctx f) demo_fork_kernel = klog [Acq R_siglock, Call ''recalc_sigpending'', Rel R_siglock]
     (demo_fork_kernel\<lparr>k_signals := [20 \<mapsto> zero_signal\<lparr>sg_sigcnt := 1, sg_multiprocess := [77]\<rparr>]\<rparr>)"
  by (simp add: link_delayed_def demo_ctx_def demo_cp_env_def demo_args_def demo_current_def demo_fork_kernel_def zero_signal_def
      set_signal_def klog_def Let_def)

lemma demo_check: "clone_flags_check (demo_ctx f) demo_fork_kernel = None"
  by (simp add: clone_flags_check_def demo_defs Let_def)

lemma demo_dup_ok:
  obtains p k1 where "dup_task_struct (cx_K (demo_ctx f)) (ce_stack (cx_E (demo_ctx f))) (cx_curt (demo_ctx f))
      (link_delayed (demo_ctx f) demo_fork_kernel) = (Some (900, p), k1)"
  by (simp add: demo_link) (simp add: dup_task_struct_def alloc_thread_stack_node_def demo_ctx_def demo_cp_env_def demo_stack_env_def
      demo_fork_kernel_def zero_kernel_def demo_current_def zero_task_def memcg_charge_kernel_stack_def thread_pages_x86
      Let_def numeral_2_eq_2)

lemma run_succeeds:
  assumes "post P f Q F" "\<And>st. P st \<Longrightarrow> fst (f st) = None"
    and "\<And>st. Q st \<Longrightarrow> \<exists>st'. run_stages fs st = (x, st') \<and> R st'" and "P st"
  shows "\<exists>st'. run_stages (f # fs) st = (x, st') \<and> R st'"
proof -
  obtain st1 where 1: "f st = (None, st1)" using assms(2,4) by (metis prod.collapse)
  with postD(1) [OF assms(1,4)] assms(3) show ?thesis by simp
qed

lemma demo_stages_succeed:
  "fst (stage_creds (demo_ctx f) st) = None" "fst (stage_policy (demo_ctx f) st) = None" "fst (stage_sched (demo_ctx f) st) = None"
  "fst (stage_perf (demo_ctx f) st) = None" "fst (stage_audit (demo_ctx f) st) = None" "fst (stage_security (demo_ctx f) st) = None"
  "fst (stage_semundo (demo_ctx f) st) = None" "fst (stage_files (demo_ctx f) st) = None" "fst (stage_fs (demo_ctx f) st) = None"
  "fst (stage_sighand (demo_ctx f) st) = None" "fst (stage_signal (demo_ctx f) st) = None" "fst (stage_mm (demo_ctx f) st) = None"
  "fst (stage_namespaces (demo_ctx f) st) = None" "fst (stage_io (demo_ctx f) st) = None" "fst (stage_thread (demo_ctx f) st) = None"
  "fst (stage_pid (demo_ctx f) st) = None" "fst (stage_pidfd (demo_ctx f) st) = None" "fst (stage_cgroup (demo_ctx f) st) = None"
  by (simp_all add: stage_creds_def stage_policy_def stage_sched_def stage_perf_def stage_audit_def stage_security_def
      stage_semundo_def stage_files_def stage_fs_def stage_sighand_def stage_signal_def stage_mm_def stage_namespaces_def
      stage_io_def stage_thread_def stage_pid_def stage_pidfd_def stage_cgroup_def call_or_def copy_or_def case_prod_beta
      copy_files_def copy_fs_def copy_sighand_def copy_signal_def copy_mm_def copy_io_def demo_ctx_def demo_cp_env_def
      demo_args_def demo_current_def zero_task_def Let_def split: option.split)

lemma demo_limits: "cp_post (demo_ctx f) demo_fork_kernel 1 st \<Longrightarrow> fst (stage_limits (demo_ctx f) st) = None"
  by (simp add: stage_limits_def cp_post_def counters_def demo_fork_kernel_def demo_ctx_def demo_cp_env_def Let_def)

lemma demo_stages:
  assumes "cp_post (demo_ctx f) demo_fork_kernel 0 st"
  shows "\<exists>st'. run_stages (fork_stages (demo_ctx f)) st = (if f then Some (Bad_fork_cancel_cgroup, EINTR) else None, st') \<and>
     k_kv (cp_k st') = kv_after (demo_ctx f) (k_kv demo_fork_kernel)"
proof -
  have lock: "\<exists>st'. run_stages [stage_lock (demo_ctx f)] st = (if f then Some (Bad_fork_cancel_cgroup, EINTR) else None, st') \<and>
      k_kv (cp_k st') = kv_after (demo_ctx f) (k_kv demo_fork_kernel)" if "cp_post (demo_ctx f) demo_fork_kernel 19 st" for st
    using that by (simp add: stage_lock_def cp_post_def Let_def) (simp add: demo_ctx_def demo_cp_env_def)
  have bits: "vm_bits_ok (cx_K (demo_ctx f))" using demo_fork_ok [of f] by (simp add: fork_ok_def env_ok_def)
  note step = run_succeeds [where P = "cp_post (demo_ctx f) demo_fork_kernel n" for n]
  show ?thesis
    unfolding fork_stages_def
    by (intro step [OF post_calls(1)] step [OF post_limits] step [OF post_policy] step [OF post_sched]
        step [OF post_calls(2)] step [OF post_calls(3)] step [OF post_calls(4)] step [OF post_calls(5)]
        step [OF post_files] step [OF post_fs] step [OF post_sighand] step [OF post_signal]
        step [OF post_mm [OF bits]] step [OF post_namespaces] step [OF post_io] step [OF post_calls(6)]
        step [OF post_pid] step [OF post_pidfd] step [OF post_cgroup] demo_stages_succeed demo_limits lock)
      (assumption | rule assms)+
qed

lemma demo_run:
  obtains k' where "copy_process (demo_ctx f) demo_fork_kernel = (if f then Inl EINTR else Inr 900, k')"
    "f \<Longrightarrow> k_kv k' = kv_after (demo_ctx f) (k_kv demo_fork_kernel)"
proof -
  obtain p k1 where d: "dup_task_struct (cx_K (demo_ctx f)) (ce_stack (cx_E (demo_ctx f))) (cx_curt (demo_ctx f))
      (link_delayed (demo_ctx f) demo_fork_kernel) = (Some (900, p), k1)" by (rule demo_dup_ok)
  have "\<not> ce_sigpending (cx_E (demo_ctx f))" "cx_p (demo_ctx f) = 900"
    by (simp_all add: cx_p_def demo_ctx_def demo_cp_env_def demo_stack_env_def)
  moreover have "exits_ok (cx_E (demo_ctx f))" using demo_fork_ok [of f] by (simp add: fork_ok_def env_ok_def)
  moreover obtain st where "run_stages (fork_stages (demo_ctx f)) (first_state (demo_ctx f) p k1) =
      (if f then Some (Bad_fork_cancel_cgroup, EINTR) else None, st)" "k_kv (cp_k st) = kv_after (demo_ctx f) (k_kv demo_fork_kernel)"
    using demo_stages [OF first_state_post [OF demo_fork_ok d]] by blast
  ultimately show ?thesis
    using that [of "if f then unwind_fork (demo_ctx f) Bad_fork_cancel_cgroup st else finish_fork (demo_ctx f) st"]
    by (simp add: copy_process_def demo_check d Let_def kv_unwind del: unwind_fork.simps split: if_splits)
qed



text \<open>
  C7: A successful \<^verbatim>\<open>copy_process\<close> was below the thread limit, makes exactly the new task visible, counts the fork
  and (unless the task is idle, with pid 0) the thread, and releases the two locks it took. A thread has
  the thread group, the signal structure, the address space, the parent and the key-value store of
  \<^verbatim>\<open>current\<close> and never signals its exit; any other child leads its own group with the new signal structure
  and the store allocated for it, which may be NULL.
\<close>

theorem fork_success:
  assumes "fork_ok C k" and "copy_process C k = (Inr a, k')"
  shows "k_nr_threads k < k_max_threads k \<and> k_total_forks k' = k_total_forks k + 1 \<and>
    held (k_log k') R_siglock = held (k_log k) R_siglock \<and> held (k_log k') R_tasklist = held (k_log k) R_tasklist \<and>
    (\<exists>p. k_tasks k' a = Some p \<and> k_nr_threads k' = k_nr_threads k + (if ts_pid p \<noteq> 0 then 1 else 0) \<and>
       (if has (cx_flags C) (CLONE_THREAD (cx_K C))
        then ts_tgid p = ts_tgid (cx_curt C) \<and> ts_group_leader p = ts_group_leader (cx_curt C) \<and>
          ts_signal p = ts_signal (cx_curt C) \<and> ts_mm p = ts_mm (cx_curt C) \<and> ts_kv p = ts_kv (cx_curt C) \<and>
          ts_real_parent p = ts_real_parent (cx_curt C) \<and> ts_exit_signal p = -1 \<and> k_kv k' = k_kv k
        else ts_tgid p = ts_pid p \<and> ts_group_leader p = a \<and> ts_signal p = ce_signal (cx_E C) \<and> ts_signal p \<noteq> None \<and>
          ts_kv p = ce_kv (cx_E C)))"
proof -
  from copy_process_done [OF assms] obtain st where st: "a = cx_p C" "k' = finish_fork C st" "cp_done C k st" "clone_flags_check C k = None"
    by blast
  obtain p l where p: "attach_task C (cp_pid st) (cp_p st) (cp_k st) = (p, l)" by (rule prod.exhaust)
  note at = attach_sel [OF p] and fin = finish_sel [OF p] and d = st(3) [unfolded cp_done_def]
  have fields: "ts_tgid p = ts_tgid (cp_p st)" "ts_pid p = ts_pid (cp_p st)" "ts_group_leader p = ts_group_leader (cp_p st)"
    "ts_signal p = ts_signal (cp_p st)" "ts_kv p = ts_kv (cp_p st)" "ts_mm p = ts_mm (cp_p st)"
    "ts_real_parent p = ts_real_parent (cp_p st)" "ts_exit_signal p = ts_exit_signal (cp_p st)"
    using at(1) by (simp_all add: Let_def copy_seccomp_sel)
  have frame: "k_nr_threads k' = k_nr_threads k + (if ts_pid p \<noteq> 0 then 1 else 0)" "k_total_forks k' = k_total_forks k + 1"
    "k_kv k' = kv_after C (k_kv k)" "locks_held k' = locks_held k" "k_tasks k' a = Some p"
    using at(2,3) fin d fields(2) by (simp_all add: st attach_frame_def counters_def)
  have vm: "ts_mm p = ts_mm (cx_curt C)" if "is_thread C"
    using d thread_shares(2) [OF st(4) that] by (simp add: fields)
  show ?thesis
    using frame d vm by (auto simp: st(1) fields locks_held_def kv_after_def has_or)
qed

theorem fork_success_witness:
  "\<exists>k' p. copy_process (demo_ctx False) demo_fork_kernel = (Inr 900, k') \<and> k_tasks k' 900 = Some p \<and>
     ts_group_leader p = 900 \<and> ts_kv p = Some 51 \<and> k_total_forks k' = 1"
proof -
  obtain k' where c: "copy_process (demo_ctx False) demo_fork_kernel = (Inr 900, k')" using demo_run [of False] by auto
  have "\<not> has (cx_flags (demo_ctx False)) (CLONE_THREAD (cx_K (demo_ctx False)))" "ce_kv (cx_E (demo_ctx False)) = Some 51"
    "k_total_forks demo_fork_kernel = 0"
    by (simp_all add: demo_ctx_def demo_args_def demo_cp_env_def demo_fork_kernel_def zero_kernel_def)
  with fork_success [OF demo_fork_ok c] c show ?thesis by auto
qed



end
