(* ===== verification/Clone.thy ===== *)
theory Clone
  imports Fork_Post
begin

text \<open>
  The callers of \<^verbatim>\<open>copy_process\<close> (\<^verbatim>\<open>kernel/fork.c\<close>): \<^verbatim>\<open>kernel_clone\<close>, \<^verbatim>\<open>kernel_thread\<close>, \<^verbatim>\<open>create_io_thread\<close>,
  \<^verbatim>\<open>fork_idle\<close>, and the system calls \<^verbatim>\<open>fork\<close>, \<^verbatim>\<open>vfork\<close>, \<^verbatim>\<open>clone\<close> and \<^verbatim>\<open>clone3\<close> with the validation of the
  latter's argument structure. On x86-64 the stack grows down and \<^verbatim>\<open>clone\<close> takes its arguments in
  the default order.

  \<open>clone_env\<close> adds to the answers for \<^verbatim>\<open>copy_process\<close> those of \<^verbatim>\<open>ptrace_event_enabled\<close>, \<^verbatim>\<open>pid_vnr\<close> and
  \<^verbatim>\<open>wait_for_completion_killable\<close>, and the addresses of \<^verbatim>\<open>init_struct_pid\<close> and of the completion on
  the stack of \<^verbatim>\<open>kernel_clone\<close>.
\<close>

section \<open>Kernel-internal callers\<close>

record clone_env =
  cl_E :: cp_env
  cl_ptrace :: "nat \<Rightarrow> bool"
  cl_vnr :: int
  cl_killed :: kret
  cl_init_struct_pid :: addr
  cl_vfork :: addr

definition fork_ctx :: "kconst \<Rightarrow> clone_env \<Rightarrow> addr \<Rightarrow> kernel \<Rightarrow> bool \<Rightarrow> addr \<Rightarrow> clone_args \<Rightarrow> cp_ctx" where
  "fork_ctx K D cur k trace pid args =
     \<lparr>cx_K = K, cx_E = cl_E D, cx_args = args, cx_cur = cur, cx_curt = deref (k_tasks k) cur, cx_trace = trace,
      cx_pid = pid, cx_init_struct_pid = cl_init_struct_pid D\<rparr>"

definition zero_args :: clone_args where
  "zero_args = \<lparr>ca_flags = 0, ca_pidfd = None, ca_child_tid = None, ca_parent_tid = None, ca_exit_signal = 0, ca_stack = 0,
     ca_stack_size = 0, ca_tls = 0, ca_set_tid = [], ca_cgroup = 0, ca_io_thread = False\<rparr>"

definition init_idle_pids :: "ptr \<Rightarrow> task_struct \<Rightarrow> kernel \<Rightarrow> task_struct \<times> kernel" where
  "init_idle_pids init_struct_pid idle k =
     (let (idle, k) = init_task_pid idle PIDTYPE_PID init_struct_pid k;
          (idle, k) = init_task_pid idle PIDTYPE_TGID init_struct_pid k;
          (idle, k) = init_task_pid idle PIDTYPE_PGID init_struct_pid k
      in init_task_pid idle PIDTYPE_SID init_struct_pid k)"

definition fork_idle :: "kconst \<Rightarrow> clone_env \<Rightarrow> addr \<Rightarrow> kernel \<Rightarrow> (errno + addr) \<times> kernel" where
  "fork_idle K D cur k =
     (case copy_process (fork_ctx K D cur k False (cl_init_struct_pid D) (zero_args\<lparr>ca_flags := CLONE_VM K\<rparr>)) k of
        (Inl e, k) \<Rightarrow> (Inl e, k)
      | (Inr task, k) \<Rightarrow>
          (case init_idle_pids (Some (cl_init_struct_pid D)) (deref (k_tasks k) task) k of
             (t, k) \<Rightarrow> (Inr task, klog [Call ''init_idle''] (k\<lparr>k_tasks := (k_tasks k)(task \<mapsto> t)\<rparr>))))"

text \<open>\<^verbatim>\<open>lower_32_bits(n)\<close>.\<close>

definition lower_32_bits :: "u64 \<Rightarrow> u64" where
  "lower_32_bits n = n AND 0xffffffff"

definition thread_args :: "kconst \<Rightarrow> u64 \<Rightarrow> u64 \<Rightarrow> u64 \<Rightarrow> clone_args" where
  "thread_args K flags fn arg =
     zero_args\<lparr>ca_flags := (lower_32_bits flags OR CLONE_VM K OR CLONE_UNTRACED K) AND NOT (CSIGNAL K),
               ca_exit_signal := uint (lower_32_bits flags AND CSIGNAL K), ca_stack := fn, ca_stack_size := arg\<rparr>"

definition create_io_thread :: "kconst \<Rightarrow> clone_env \<Rightarrow> addr \<Rightarrow> u64 \<Rightarrow> u64 \<Rightarrow> kernel \<Rightarrow> (errno + addr) \<times> kernel" where
  "create_io_thread K D cur fn arg k =
     (let flags = CLONE_FS K OR CLONE_FILES K OR CLONE_SIGHAND K OR CLONE_THREAD K OR CLONE_IO K;
          args = (thread_args K flags fn arg)\<lparr>ca_io_thread := True\<rparr>
      in copy_process (fork_ctx K D cur k False 0 args) k)"

text \<open>The event to report to a tracer, 0 for none.\<close>

definition trace_event :: "kconst \<Rightarrow> (nat \<Rightarrow> bool) \<Rightarrow> clone_args \<Rightarrow> nat" where
  "trace_event K enabled args =
     (if has (ca_flags args) (CLONE_UNTRACED K) then 0
      else let trace = (if has (ca_flags args) (CLONE_VFORK K) then PTRACE_EVENT_VFORK K
                        else if ca_exit_signal args \<noteq> uint (SIGCHLD K) then PTRACE_EVENT_CLONE K
                        else PTRACE_EVENT_FORK K)
           in if enabled trace then trace else 0)"

text \<open>The part of \<^verbatim>\<open>kernel_clone\<close> after \<^verbatim>\<open>copy_process\<close>.\<close>

definition start_child :: "kconst \<Rightarrow> clone_env \<Rightarrow> clone_args \<Rightarrow> nat \<Rightarrow> addr \<Rightarrow> kernel \<Rightarrow> int \<times> kernel" where
  "start_child K D args trace p k =
     (let f = ca_flags args;
          k = klog [Call ''trace_sched_process_fork'', Acq R_pidref] k;
          nr = cl_vnr D;
          k = (if has f (CLONE_PARENT_SETTID K) then klog [Call ''put_user''] k else k);
          k = (if has f (CLONE_VFORK K)
               then set_task p (\<lambda>t. t\<lparr>ts_vfork_done := Some (cl_vfork D), ts_usage := ts_usage t + 1\<rparr>) k else k);
          k = klog [Call ''wake_up_new_task''] k;
          k = (if trace \<noteq> 0 then klog [Call ''ptrace_event_pid''] k else k);
          k = (if has f (CLONE_VFORK K)
               then case wait_for_vfork_done (cl_killed D) (deref (k_tasks k) p) k of
                      (killed, t, k) \<Rightarrow>
                        let k = k\<lparr>k_tasks := (k_tasks k)(p \<mapsto> t)\<rparr>
                        in if killed = None then klog [Call ''ptrace_event_pid''] k else k
               else k)
      in (nr, klog [Rel R_pidref] k))"

definition kernel_clone :: "kconst \<Rightarrow> clone_env \<Rightarrow> addr \<Rightarrow> clone_args \<Rightarrow> kernel \<Rightarrow> (errno + int) \<times> kernel" where
  "kernel_clone K D cur args k =
     (if has (ca_flags args) (CLONE_PIDFD K) \<and> has (ca_flags args) (CLONE_PARENT_SETTID K) \<and> ca_pidfd args = ca_parent_tid args
      then (Inl EINVAL, k)
      else let trace = trace_event K (cl_ptrace D) args
           in case copy_process (fork_ctx K D cur k (trace \<noteq> 0) 0 args) k of
                (Inl e, k) \<Rightarrow> (Inl e, k)
              | (Inr p, k) \<Rightarrow> (case start_child K D args trace p k of (nr, k) \<Rightarrow> (Inr nr, k)))"

definition kernel_thread :: "kconst \<Rightarrow> clone_env \<Rightarrow> addr \<Rightarrow> u64 \<Rightarrow> u64 \<Rightarrow> u64 \<Rightarrow> kernel \<Rightarrow> (errno + int) \<times> kernel" where
  "kernel_thread K D cur fn arg flags k = kernel_clone K D cur (thread_args K flags fn arg) k"

section \<open>System calls\<close>

definition sys_fork :: "kconst \<Rightarrow> clone_env \<Rightarrow> addr \<Rightarrow> kernel \<Rightarrow> (errno + int) \<times> kernel" where
  "sys_fork K D cur k = kernel_clone K D cur (zero_args\<lparr>ca_exit_signal := uint (SIGCHLD K)\<rparr>) k"

definition sys_vfork :: "kconst \<Rightarrow> clone_env \<Rightarrow> addr \<Rightarrow> kernel \<Rightarrow> (errno + int) \<times> kernel" where
  "sys_vfork K D cur k =
     kernel_clone K D cur (zero_args\<lparr>ca_flags := CLONE_VFORK K OR CLONE_VM K, ca_exit_signal := uint (SIGCHLD K)\<rparr>) k"

definition clone_syscall_args :: "kconst \<Rightarrow> u64 \<Rightarrow> u64 \<Rightarrow> ptr \<Rightarrow> ptr \<Rightarrow> u64 \<Rightarrow> clone_args" where
  "clone_syscall_args K clone_flags newsp parent_tidptr child_tidptr tls =
     zero_args\<lparr>ca_flags := lower_32_bits clone_flags AND NOT (CSIGNAL K), ca_pidfd := parent_tidptr, ca_child_tid := child_tidptr,
               ca_parent_tid := parent_tidptr, ca_exit_signal := uint (lower_32_bits clone_flags AND CSIGNAL K),
               ca_stack := newsp, ca_tls := tls\<rparr>"

definition sys_clone :: "kconst \<Rightarrow> clone_env \<Rightarrow> addr \<Rightarrow> u64 \<Rightarrow> u64 \<Rightarrow> ptr \<Rightarrow> ptr \<Rightarrow> u64 \<Rightarrow> kernel \<Rightarrow> (errno + int) \<times> kernel" where
  "sys_clone K D cur clone_flags newsp parent_tidptr child_tidptr tls k =
     kernel_clone K D cur (clone_syscall_args K clone_flags newsp parent_tidptr child_tidptr tls) k"

text \<open>\<^verbatim>\<open>struct clone_args\<close> as the user passes it: eleven 64-bit fields.\<close>

record user_clone_args =
  ua_flags :: u64
  ua_pidfd :: u64
  ua_child_tid :: u64
  ua_parent_tid :: u64
  ua_exit_signal :: u64
  ua_stack :: u64
  ua_stack_size :: u64
  ua_tls :: u64
  ua_set_tid :: u64
  ua_set_tid_size :: u64
  ua_cgroup :: u64

definition u64_to_user_ptr :: "u64 \<Rightarrow> ptr" where
  "u64_to_user_ptr x = (if x = 0 then None else Some (unat x))"

text \<open>
  \<open>copied\<close> is the answer of \<^verbatim>\<open>copy_struct_from_user\<close>, \<open>tids\<close> that of \<^verbatim>\<open>copy_from_user\<close> for the array of pids.
\<close>

definition copy_clone_args_from_user ::
    "kconst \<Rightarrow> errno + user_clone_args \<Rightarrow> (nat \<Rightarrow> int list option) \<Rightarrow> u64 \<Rightarrow> errno + clone_args" where
  "copy_clone_args_from_user K copied tids usize =
     (if PAGE_SIZE < usize then Inl E2BIG
      else if usize < CLONE_ARGS_SIZE_VER0 K then Inl EINVAL
      else case copied of
             Inl e \<Rightarrow> Inl e
           | Inr args \<Rightarrow>
               if MAX_PID_NS_LEVEL K < ua_set_tid_size args then Inl EINVAL
               else if ua_set_tid args = 0 \<and> 0 < ua_set_tid_size args then Inl EINVAL
               else if ua_set_tid args \<noteq> 0 \<and> ua_set_tid_size args = 0 then Inl EINVAL
               else if has (ua_exit_signal args) (NOT (CSIGNAL K)) \<or> NSIG K < unat (ua_exit_signal args) then Inl EINVAL
               else if has (ua_flags args) (CLONE_INTO_CGROUP K) \<and>
                    (0x7fffffff < ua_cgroup args \<or> usize < CLONE_ARGS_SIZE_VER2 K) then Inl EINVAL
               else
                 let kargs = \<lparr>ca_flags = ua_flags args, ca_pidfd = u64_to_user_ptr (ua_pidfd args),
                       ca_child_tid = u64_to_user_ptr (ua_child_tid args), ca_parent_tid = u64_to_user_ptr (ua_parent_tid args),
                       ca_exit_signal = uint (ua_exit_signal args), ca_stack = ua_stack args,
                       ca_stack_size = ua_stack_size args, ca_tls = ua_tls args, ca_set_tid = [],
                       ca_cgroup = sint (ucast (ua_cgroup args) :: 32 word), ca_io_thread = False\<rparr>
                 in if ua_set_tid args \<noteq> 0
                    then case tids (unat (ua_set_tid_size args)) of
                           None \<Rightarrow> Inl EFAULT
                         | Some ts \<Rightarrow> Inr (kargs\<lparr>ca_set_tid := ts\<rparr>)
                    else Inr kargs)"

definition clone3_stack_valid :: "(u64 \<Rightarrow> u64 \<Rightarrow> bool) \<Rightarrow> clone_args \<Rightarrow> clone_args option" where
  "clone3_stack_valid access_ok kargs =
     (if ca_stack kargs = 0 then if 0 < ca_stack_size kargs then None else Some kargs
      else if ca_stack_size kargs = 0 then None
      else if \<not> access_ok (ca_stack kargs) (ca_stack_size kargs) then None
      else Some (kargs\<lparr>ca_stack := ca_stack kargs + ca_stack_size kargs\<rparr>))"

definition clone3_args_valid :: "kconst \<Rightarrow> (u64 \<Rightarrow> u64 \<Rightarrow> bool) \<Rightarrow> clone_args \<Rightarrow> clone_args option" where
  "clone3_args_valid K access_ok kargs =
     (let f = ca_flags kargs in
      if has f (NOT (CLONE_LEGACY_FLAGS K OR CLONE_CLEAR_SIGHAND K OR CLONE_INTO_CGROUP K)) then None
      else if has f (CLONE_DETACHED K OR (CSIGNAL K AND NOT (CLONE_NEWTIME K))) then None
      else if f AND (CLONE_SIGHAND K OR CLONE_CLEAR_SIGHAND K) = CLONE_SIGHAND K OR CLONE_CLEAR_SIGHAND K then None
      else if has f (CLONE_THREAD K OR CLONE_PARENT K) \<and> ca_exit_signal kargs \<noteq> 0 then None
      else clone3_stack_valid access_ok kargs)"

definition sys_clone3 ::
    "kconst \<Rightarrow> clone_env \<Rightarrow> addr \<Rightarrow> (u64 \<Rightarrow> u64 \<Rightarrow> bool) \<Rightarrow> errno + user_clone_args \<Rightarrow> (nat \<Rightarrow> int list option) \<Rightarrow> u64 \<Rightarrow> kernel \<Rightarrow>
     (errno + int) \<times> kernel" where
  "sys_clone3 K D cur access_ok copied tids usize k =
     (case copy_clone_args_from_user K copied tids usize of
        Inl err \<Rightarrow> (Inl err, k)
      | Inr kargs \<Rightarrow>
          (case clone3_args_valid K access_ok kargs of
             None \<Rightarrow> (Inl EINVAL, k)
           | Some kargs \<Rightarrow> kernel_clone K D cur kargs k))"

section \<open>Properties\<close>

lemma fork_ok_args:
  "fork_ok (fork_ctx K D cur k trace pid args) k = fork_ok (fork_ctx K D cur k False 0 zero_args) k"
  by (simp add: fork_ok_def env_ok_def mm_ok_def fork_ctx_def cx_p_def)

lemma kernel_clone_undone:
  assumes "fork_ok (fork_ctx K D cur k False 0 zero_args) k" and "kernel_clone K D cur args k = (Inl e, k')"
  shows "fork_undone K cur k k'"
proof -
  let ?C = "fork_ctx K D cur k (trace_event K (cl_ptrace D) args \<noteq> 0) 0 args"
  have C: "cx_K ?C = K" "cx_cur ?C = cur" by (simp_all add: fork_ctx_def)
  have ok: "fork_ok ?C k" using assms(1) fork_ok_args by blast
  from assms(2) consider "k' = k" | "copy_process ?C k = (Inl e, k')"
    by (auto simp: kernel_clone_def Let_def split: if_splits prod.splits sum.splits)
  then show ?thesis
  proof cases
    case 1
    with ok C show ?thesis by (simp add: fork_undone_def fork_ok_def)
  next
    case 2
    from copy_process_undone [OF ok 2] show ?thesis unfolding C .
  qed
qed

text \<open>What \<^verbatim>\<open>clone3\<close> has established when it calls \<^verbatim>\<open>kernel_clone\<close>.\<close>

definition clone3_sane :: "kconst \<Rightarrow> (u64 \<Rightarrow> u64 \<Rightarrow> bool) \<Rightarrow> clone_args \<Rightarrow> bool" where
  "clone3_sane K access_ok a \<longleftrightarrow>
     \<not> has (ca_flags a) (NOT (CLONE_LEGACY_FLAGS K OR CLONE_CLEAR_SIGHAND K OR CLONE_INTO_CGROUP K)) \<and>
     \<not> has (ca_flags a) (CLONE_DETACHED K) \<and>
     0 \<le> ca_exit_signal a \<and> ca_exit_signal a \<le> int (NSIG K) \<and>
     (has (ca_flags a) (CLONE_THREAD K) \<or> has (ca_flags a) (CLONE_PARENT K) \<longrightarrow> ca_exit_signal a = 0) \<and>
     length (ca_set_tid a) \<le> unat (MAX_PID_NS_LEVEL K) \<and>
     (if ca_stack_size a = 0 then ca_stack a = 0
      else \<exists>base. base \<noteq> 0 \<and> access_ok base (ca_stack_size a) \<and> unat (ca_stack a) = unat base + unat (ca_stack_size a))"

lemma clone3_sane_args:
  assumes "copy_clone_args_from_user K copied tids usize = Inr a" and "clone3_args_valid K access_ok a = Some a'"
    and "\<forall>b s. access_ok b s \<longrightarrow> unat b + unat s < 2 ^ 64" and "\<forall>n ts. tids n = Some ts \<longrightarrow> length ts = n"
  shows "clone3_sane K access_ok a'"
proof -
  have sig: "uint x \<le> int n \<longleftrightarrow> unat x \<le> n" for x :: u64 and n by (simp only: uint_nat of_nat_le_iff)
  have a: "0 \<le> ca_exit_signal a" "ca_exit_signal a \<le> int (NSIG K)" "length (ca_set_tid a) \<le> unat (MAX_PID_NS_LEVEL K)"
    using assms(1,4) by (auto simp: copy_clone_args_from_user_def Let_def not_less word_le_nat_alt sig
        split: if_splits sum.splits option.splits)
  have st: "clone3_stack_valid access_ok a = Some a'" and f: "\<not> has (ca_flags a) (NOT (CLONE_LEGACY_FLAGS K OR CLONE_CLEAR_SIGHAND K OR CLONE_INTO_CGROUP K))"
    "\<not> has (ca_flags a) (CLONE_DETACHED K)"
    "has (ca_flags a) (CLONE_THREAD K) \<or> has (ca_flags a) (CLONE_PARENT K) \<longrightarrow> ca_exit_signal a = 0"
    using assms(2) by (auto simp: clone3_args_valid_def Let_def has_or split: if_splits)
  show ?thesis
  proof (cases "ca_stack a = 0")
    case True
    with st have "a' = a" "ca_stack_size a = 0" by (auto simp: clone3_stack_valid_def word_gt_0 split: if_splits)
    with True a f show ?thesis by (simp add: clone3_sane_def)
  next
    case False
    with st have a': "a' = a\<lparr>ca_stack := ca_stack a + ca_stack_size a\<rparr>" "ca_stack_size a \<noteq> 0" "access_ok (ca_stack a) (ca_stack_size a)"
      by (auto simp: clone3_stack_valid_def split: if_splits)
    have "unat (ca_stack a + ca_stack_size a) = unat (ca_stack a) + unat (ca_stack_size a)"
      using assms(3) a'(3) by (intro unat_add_lem [THEN iffD1]) auto
    with a a' f False show ?thesis by (auto simp: clone3_sane_def intro!: exI [of _ "ca_stack a"])
  qed
qed


definition demo_uargs :: user_clone_args where
  "demo_uargs = \<lparr>ua_flags = 0x100, ua_pidfd = 0, ua_child_tid = 0, ua_parent_tid = 0, ua_exit_signal = 17, ua_stack = 0x7000,
     ua_stack_size = 0x1000, ua_tls = 0, ua_set_tid = 0, ua_set_tid_size = 0, ua_cgroup = 0\<rparr>"

definition demo_access_ok :: "u64 \<Rightarrow> u64 \<Rightarrow> bool" where
  "demo_access_ok b s \<longleftrightarrow> unat b + unat s \<le> 0x7ffffffff000"

definition demo_clone_env :: clone_env where
  "demo_clone_env = \<lparr>cl_E = demo_cp_env\<lparr>ce_fatal := True\<rparr>, cl_ptrace = \<lambda>_. False, cl_vnr = 8, cl_killed = None,
     cl_init_struct_pid = 1, cl_vfork = 60\<rparr>"



lemma demo_clone_ok: "fork_ok (fork_ctx linux_x86 demo_clone_env 10 demo_fork_kernel False 0 zero_args) demo_fork_kernel"
proof -
  have "fork_ctx linux_x86 demo_clone_env 10 demo_fork_kernel False 0 demo_args = demo_ctx True"
    by (simp add: fork_ctx_def demo_ctx_def demo_clone_env_def demo_fork_kernel_def)
  with demo_fork_ok [of True] show ?thesis
    using fork_ok_args [of linux_x86 demo_clone_env 10 demo_fork_kernel False 0 demo_args] by simp
qed


text \<open>
  The legacy \<^verbatim>\<open>clone\<close> splits its flags word without loss: the clone flags and the exit signal it passes on
  together are the lower 32 bits the caller gave, they do not overlap, the exit signal is below 256, and
  none of the flags reserved for \<^verbatim>\<open>clone3\<close> can be requested this way.
\<close>

theorem clone_flags_split:
  assumes "K = linux_x86" and "a = clone_syscall_args K f sp pt ct tls"
  shows "ca_flags a OR word_of_int (ca_exit_signal a) = lower_32_bits f \<and> ca_flags a AND word_of_int (ca_exit_signal a) = 0 \<and>
    0 \<le> ca_exit_signal a \<and> ca_exit_signal a < 256 \<and>
    \<not> has (ca_flags a) (CLONE_CLEAR_SIGHAND K OR CLONE_INTO_CGROUP K)"
proof -
  have 1: "(x AND NOT c) OR (x AND c) = x" "(x AND NOT c) AND (x AND c) = 0" for x c :: u64
    by (auto simp: bit_eq_iff bit_simps)
  have "uint (x AND 0xff) < 256" for x :: u64
  proof -
    have "x AND 0xff = take_bit 8 x" by (simp add: take_bit_eq_mask mask_eq_exp_minus_1)
    then show ?thesis using take_bit_int_less_exp [of 8 "uint x"] by (simp add: unsigned_take_bit_eq)
  qed
  moreover have "(lower_32_bits f AND NOT 0xff) AND 0x300000000 = 0"
    by (auto simp: lower_32_bits_def and.assoc and.left_commute [of "NOT 0xff"])
  ultimately show ?thesis
    using 1 [of "lower_32_bits f" "0xff"] by (simp add: assms clone_syscall_args_def linux_x86_def has_def)
qed

theorem clone_flags_split_witness:
  "ca_flags (clone_syscall_args linux_x86 0x100011 0 None None 0) = 0x100000 \<and>
   ca_flags (clone_syscall_args linux_x86 0x100011 0 None None 0) OR
     word_of_int (ca_exit_signal (clone_syscall_args linux_x86 0x100011 0 None None 0)) = 0x100011"
  using clone_flags_split [of linux_x86 "clone_syscall_args linux_x86 0x100011 0 None None 0" "0x100011" 0 None None 0]
  by (simp add: clone_syscall_args_def linux_x86_def lower_32_bits_def)

end
