(* ===== verification/Unshare.thy ===== *)
theory Unshare
  imports Fork_Copy Unwind
begin

text \<open>
  The system call \<^verbatim>\<open>unshare\<close> and \<^verbatim>\<open>unshare_files\<close> (\<^verbatim>\<open>kernel/fork.c\<close>). \<open>unshare_env\<close> holds the answers of the
  other subsystems (\<^verbatim>\<open>copy_fs_struct\<close>, \<^verbatim>\<open>dup_fd\<close>, \<^verbatim>\<open>unshare_userns\<close>, \<^verbatim>\<open>unshare_nsproxy_namespaces\<close>,
  \<^verbatim>\<open>set_cred_ucounts\<close>, \<^verbatim>\<open>current_is_single_threaded\<close>) and the functions \<^verbatim>\<open>put_files_struct\<close> and
  \<^verbatim>\<open>free_fs_struct\<close>; \<open>puts_ok\<close> says what the two are documented to do.
\<close>

section \<open>Operations\<close>

record unshare_env =
  ue_single_threaded :: bool
  ue_fs :: "(addr \<times> fs_struct) option"
  ue_dup_fd :: "errno + addr \<times> files_struct"
  ue_userns :: "errno + ptr"
  ue_nsproxy :: "errno + ptr"
  ue_ucounts :: kret
  ue_put_files :: "addr \<Rightarrow> kernel \<Rightarrow> kernel"
  ue_free_fs :: "addr \<Rightarrow> kernel \<Rightarrow> kernel"

text \<open>\<^verbatim>\<open>thread_group_empty(p)\<close>: the list of the group, which is anchored at its leader, has no other member.\<close>

definition thread_group_empty :: "addr \<Rightarrow> task_struct \<Rightarrow> bool" where
  "thread_group_empty p t \<longleftrightarrow> ts_group_leader t = p \<and> ts_thread_group t = []"

definition check_unshare_flags :: "kconst \<Rightarrow> unshare_env \<Rightarrow> u64 \<Rightarrow> addr \<Rightarrow> task_struct \<Rightarrow> kernel \<Rightarrow> kret" where
  "check_unshare_flags K U f p cur k =
     (if has f (NOT (CLONE_THREAD K OR CLONE_FS K OR CLONE_NEWNS K OR CLONE_SIGHAND K OR CLONE_VM K OR CLONE_FILES K OR
             CLONE_SYSVSEM K OR CLONE_NEWUTS K OR CLONE_NEWIPC K OR CLONE_NEWNET K OR CLONE_NEWUSER K OR CLONE_NEWPID K OR
             CLONE_NEWCGROUP K OR CLONE_NEWTIME K)) then Some EINVAL
      else if has f (CLONE_THREAD K OR CLONE_SIGHAND K OR CLONE_VM K) \<and> \<not> thread_group_empty p cur then Some EINVAL
      else if has f (CLONE_SIGHAND K OR CLONE_VM K) \<and> 1 < sh_count (deref (k_sighands k) (the (ts_sighand cur))) then Some EINVAL
      else if has f (CLONE_VM K) \<and> \<not> ue_single_threaded U then Some EINVAL
      else None)"

definition unshare_fs :: "kconst \<Rightarrow> unshare_env \<Rightarrow> u64 \<Rightarrow> task_struct \<Rightarrow> kernel \<Rightarrow> kret \<times> ptr \<times> kernel" where
  "unshare_fs K U f cur k =
     (case ts_fs cur of
        None \<Rightarrow> (None, None, k)
      | Some fs \<Rightarrow>
          if \<not> has f (CLONE_FS K) then (None, None, k)
          else if fs_users (deref (k_fss k) fs) = 1 then (None, None, k)
          else case ue_fs U of
                 None \<Rightarrow> (Some ENOMEM, None, k)
               | Some (a, s) \<Rightarrow> (None, Some a, k\<lparr>k_fss := (k_fss k)(a \<mapsto> s)\<rparr>))"

definition unshare_fd :: "kconst \<Rightarrow> unshare_env \<Rightarrow> u64 \<Rightarrow> task_struct \<Rightarrow> kernel \<Rightarrow> kret \<times> ptr \<times> kernel" where
  "unshare_fd K U f cur k =
     (case ts_files cur of
        None \<Rightarrow> (None, None, k)
      | Some fd \<Rightarrow>
          if has f (CLONE_FILES K) \<and> 1 < fl_count (deref (k_fds k) fd)
          then case ue_dup_fd U of
                 Inl e \<Rightarrow> (Some e, None, k)
               | Inr (a, s) \<Rightarrow> (None, Some a, k\<lparr>k_fds := (k_fds k)(a \<mapsto> s)\<rparr>)
          else (None, None, k))"

text \<open>The flags that others imply.\<close>

definition unshare_flags_closure :: "kconst \<Rightarrow> u64 \<Rightarrow> u64" where
  "unshare_flags_closure K f =
     (let f = (if has f (CLONE_NEWUSER K) then f OR CLONE_THREAD K OR CLONE_FS K else f);
          f = (if has f (CLONE_VM K) then f OR CLONE_SIGHAND K else f);
          f = (if has f (CLONE_SIGHAND K) then f OR CLONE_THREAD K else f)
      in if has f (CLONE_NEWNS K) then f OR CLONE_FS K else f)"

record us_state =
  us_k :: kernel
  us_fs :: ptr
  us_fd :: ptr
  us_cred :: ptr
  us_nsproxy :: ptr

datatype unshare_label = Bad_unshare_out | Bad_unshare_cleanup_fs | Bad_unshare_cleanup_fd | Bad_unshare_cleanup_cred

definition un_cleanup_fs :: "unshare_env \<Rightarrow> us_state \<Rightarrow> kernel" where
  "un_cleanup_fs U st = (case us_fs st of None \<Rightarrow> us_k st | Some a \<Rightarrow> ue_free_fs U a (us_k st))"

definition un_cleanup_fd :: "unshare_env \<Rightarrow> us_state \<Rightarrow> kernel" where
  "un_cleanup_fd U st =
     un_cleanup_fs U (case us_fd st of None \<Rightarrow> st | Some a \<Rightarrow> st\<lparr>us_k := ue_put_files U a (us_k st)\<rparr>)"

definition un_cleanup_cred :: "unshare_env \<Rightarrow> us_state \<Rightarrow> kernel" where
  "un_cleanup_cred U st =
     un_cleanup_fd U (if us_cred st \<noteq> None then st\<lparr>us_k := klog [Rel R_cred] (us_k st)\<rparr> else st)"

fun unwind_unshare :: "unshare_env \<Rightarrow> unshare_label \<Rightarrow> us_state \<Rightarrow> kernel" where
  "unwind_unshare U Bad_unshare_out st = us_k st"
| "unwind_unshare U Bad_unshare_cleanup_fs st = un_cleanup_fs U st"
| "unwind_unshare U Bad_unshare_cleanup_fd st = un_cleanup_fd U st"
| "unwind_unshare U Bad_unshare_cleanup_cred st = un_cleanup_cred U st"

type_synonym us_stage = "us_state \<Rightarrow> (unshare_label \<times> errno) option \<times> us_state"

definition us_check :: "kconst \<Rightarrow> unshare_env \<Rightarrow> u64 \<Rightarrow> addr \<Rightarrow> task_struct \<Rightarrow> us_stage" where
  "us_check K U f p cur st = (map_option (Pair Bad_unshare_out) (check_unshare_flags K U f p cur (us_k st)), st)"

definition us_stage_fs :: "kconst \<Rightarrow> unshare_env \<Rightarrow> u64 \<Rightarrow> task_struct \<Rightarrow> us_stage" where
  "us_stage_fs K U f cur st =
     (case unshare_fs K U f cur (us_k st) of (r, new_fs, k) \<Rightarrow>
        (map_option (Pair Bad_unshare_out) r, st\<lparr>us_fs := new_fs, us_k := k\<rparr>))"

definition us_stage_fd :: "kconst \<Rightarrow> unshare_env \<Rightarrow> u64 \<Rightarrow> task_struct \<Rightarrow> us_stage" where
  "us_stage_fd K U f cur st =
     (case unshare_fd K U f cur (us_k st) of (r, new_fd, k) \<Rightarrow>
        (map_option (Pair Bad_unshare_cleanup_fs) r, st\<lparr>us_fd := new_fd, us_k := k\<rparr>))"

definition us_stage_userns :: "unshare_env \<Rightarrow> us_stage" where
  "us_stage_userns U st =
     (case ue_userns U of
        Inl e \<Rightarrow> (Some (Bad_unshare_cleanup_fd, e), st)
      | Inr None \<Rightarrow> (None, st)
      | Inr (Some c) \<Rightarrow> (None, st\<lparr>us_cred := Some c, us_k := klog [Acq R_cred] (us_k st)\<rparr>))"

definition us_stage_nsproxy :: "unshare_env \<Rightarrow> us_stage" where
  "us_stage_nsproxy U st =
     (case ue_nsproxy U of
        Inl e \<Rightarrow> (Some (Bad_unshare_cleanup_cred, e), st)
      | Inr None \<Rightarrow> (None, st)
      | Inr (Some n) \<Rightarrow> (None, st\<lparr>us_nsproxy := Some n, us_k := klog [Acq R_nsproxy] (us_k st)\<rparr>))"

definition us_stage_ucounts :: "unshare_env \<Rightarrow> us_stage" where
  "us_stage_ucounts U st =
     (if us_cred st \<noteq> None then (map_option (Pair Bad_unshare_cleanup_cred) (ue_ucounts U), st) else (None, st))"

definition unshare_stages :: "kconst \<Rightarrow> unshare_env \<Rightarrow> u64 \<Rightarrow> addr \<Rightarrow> task_struct \<Rightarrow> us_stage list" where
  "unshare_stages K U f p cur =
     [us_check K U f p cur, us_stage_fs K U f cur, us_stage_fd K U f cur, us_stage_userns U, us_stage_nsproxy U, us_stage_ucounts U]"

text \<open>The commit: everything new is installed in \<^verbatim>\<open>current\<close>, what it replaces is left for the labels to drop.\<close>

definition us_switch_fs :: "addr \<Rightarrow> us_state \<Rightarrow> us_state" where
  "us_switch_fs cur st =
     (case us_fs st of
        None \<Rightarrow> st
      | Some new_fs \<Rightarrow>
          let k = us_k st; fs = the (ts_fs (deref (k_tasks k) cur));
              k = k\<lparr>k_tasks := upd cur (\<lambda>t. t\<lparr>ts_fs := Some new_fs\<rparr>) (k_tasks k),
                    k_fss := upd fs (\<lambda>s. s\<lparr>fs_users := fs_users s - 1\<rparr>) (k_fss k)\<rparr>
          in if fs_users (deref (k_fss k) fs) \<noteq> 0 then st\<lparr>us_k := k, us_fs := None\<rparr>
             else st\<lparr>us_k := k, us_fs := Some fs\<rparr>)"

definition us_switch_fd :: "addr \<Rightarrow> us_state \<Rightarrow> us_state" where
  "us_switch_fd cur st =
     (case us_fd st of
        None \<Rightarrow> st
      | Some new_fd \<Rightarrow>
          let k = us_k st; fd = ts_files (deref (k_tasks k) cur)
          in st\<lparr>us_k := k\<lparr>k_tasks := upd cur (\<lambda>t. t\<lparr>ts_files := Some new_fd\<rparr>) (k_tasks k)\<rparr>, us_fd := fd\<rparr>)"

definition us_commit :: "kconst \<Rightarrow> u64 \<Rightarrow> addr \<Rightarrow> us_state \<Rightarrow> us_state" where
  "us_commit K f cur st =
     (let do_sysvsem = has f (CLONE_NEWIPC K OR CLONE_SYSVSEM K)
      in if us_fs st \<noteq> None \<or> us_fd st \<noteq> None \<or> do_sysvsem \<or> us_cred st \<noteq> None \<or> us_nsproxy st \<noteq> None
         then
           let st = (if do_sysvsem then st\<lparr>us_k := klog [Call ''exit_sem''] (us_k st)\<rparr> else st);
               st = (if has f (CLONE_NEWIPC K) then st\<lparr>us_k := klog [Call ''exit_shm'', Call ''shm_init_task''] (us_k st)\<rparr> else st);
               st = (case us_nsproxy st of None \<Rightarrow> st
                     | Some n \<Rightarrow> st\<lparr>us_k := klog [Call ''switch_task_namespaces'']
                         ((us_k st)\<lparr>k_tasks := upd cur (\<lambda>t. t\<lparr>ts_nsproxy := Some n\<rparr>) (k_tasks (us_k st))\<rparr>)\<rparr>);
               st = st\<lparr>us_k := klog [Acq R_task_lock] (us_k st)\<rparr>;
               st = us_switch_fs cur st;
               st = us_switch_fd cur st;
               st = st\<lparr>us_k := klog [Rel R_task_lock] (us_k st)\<rparr>
           in if us_cred st \<noteq> None then st\<lparr>us_cred := None, us_k := klog [Call ''commit_creds''] (us_k st)\<rparr> else st
         else st)"

definition ksys_unshare :: "kconst \<Rightarrow> unshare_env \<Rightarrow> u64 \<Rightarrow> addr \<Rightarrow> kernel \<Rightarrow> kret \<times> kernel" where
  "ksys_unshare K U f cur k =
     (let f = unshare_flags_closure K f;
          st = \<lparr>us_k = k, us_fs = None, us_fd = None, us_cred = None, us_nsproxy = None\<rparr>
      in case run_stages (unshare_stages K U f cur (deref (k_tasks k) cur)) st of
           (Some (l, e), st) \<Rightarrow> (Some e, unwind_unshare U l st)
         | (None, st) \<Rightarrow>
             let st = us_commit K f cur st;
                 st = st\<lparr>us_k := klog [Call ''perf_event_namespaces''] (us_k st)\<rparr>
             in (None, un_cleanup_cred U st))"

definition unshare_files :: "kconst \<Rightarrow> unshare_env \<Rightarrow> addr \<Rightarrow> kernel \<Rightarrow> kret \<times> kernel" where
  "unshare_files K U task k =
     (case unshare_fd K U (CLONE_FILES K) (deref (k_tasks k) task) k of
        (Some e, _, k) \<Rightarrow> (Some e, k)
      | (None, None, k) \<Rightarrow> (None, k)
      | (None, Some copy, k) \<Rightarrow>
          let old = the (ts_files (deref (k_tasks k) task));
              k = klog [Acq R_task_lock, Rel R_task_lock]
                    (k\<lparr>k_tasks := upd task (\<lambda>t. t\<lparr>ts_files := Some copy\<rparr>) (k_tasks k)\<rparr>)
          in (None, ue_put_files U old k))"

section \<open>A failed call\<close>

definition puts_ok :: "unshare_env \<Rightarrow> bool" where
  "puts_ok U \<longleftrightarrow> (\<forall>a k. ue_put_files U a k = drop_files (Some a) k) \<and>
     (\<forall>a k. ue_free_fs U a k = k\<lparr>k_fss := (k_fss k)(a := None)\<rparr>)"

definition unshare_ok :: "unshare_env \<Rightarrow> kernel \<Rightarrow> bool" where
  "unshare_ok U k \<longleftrightarrow> puts_ok U \<and> (\<forall>a s. ue_fs U = Some (a, s) \<longrightarrow> k_fss k a = None \<and> fs_users s = 1) \<and>
     (\<forall>a s. ue_dup_fd U = Inr (a, s) \<longrightarrow> k_fds k a = None \<and> fl_count s = 1)"

text \<open>Equal but for the log, and with the same resources, the namespace proxy left out.\<close>

definition usim :: "kernel \<Rightarrow> kernel \<Rightarrow> bool" where
  "usim k k' \<longleftrightarrow> k\<lparr>k_log := []\<rparr> = k'\<lparr>k_log := []\<rparr> \<and> (\<forall>r. r \<noteq> R_nsproxy \<longrightarrow> held (k_log k) r = held (k_log k') r)"

lemma usim_refl [simp]: "usim k k"
  by (simp add: usim_def)

interpretation uw: unwinding usim "unwind_unshare U" for U
  by unfold_locales (simp_all add: usim_def)

lemma usim_klog:
  "(\<And>r. r \<noteq> R_nsproxy \<Longrightarrow> held (rev es) r = 0) \<Longrightarrow> usim (klog es k) k"
  by (simp add: usim_def klog_def held_append)

text \<open>The labels on a logged state.\<close>

lemma put_free_klog:
  assumes "puts_ok U"
  shows "ue_put_files U a (klog es k) = klog es (ue_put_files U a k)" "ue_free_fs U a (klog es k) = klog es (ue_free_fs U a k)"
  using assms by (auto simp: puts_ok_def drop_files_def klog_def split: option.split)

lemma un_klog:
  assumes "puts_ok U"
  shows "un_cleanup_fs U (st\<lparr>us_k := klog es k\<rparr>) = klog es (un_cleanup_fs U (st\<lparr>us_k := k\<rparr>))"
    "un_cleanup_fd U (st\<lparr>us_k := klog es k\<rparr>) = klog es (un_cleanup_fd U (st\<lparr>us_k := k\<rparr>))"
proof -
  show 1: "un_cleanup_fs U (st\<lparr>us_k := klog es k\<rparr>) = klog es (un_cleanup_fs U (st\<lparr>us_k := k\<rparr>))" for st k
    by (simp add: un_cleanup_fs_def put_free_klog [OF assms] split: option.split)
  show "un_cleanup_fd U (st\<lparr>us_k := klog es k\<rparr>) = klog es (un_cleanup_fd U (st\<lparr>us_k := k\<rparr>))"
    using 1 by (simp add: un_cleanup_fd_def put_free_klog [OF assms] split: option.split)
qed

definition us_inv :: "unshare_env \<Rightarrow> nat \<Rightarrow> us_state \<Rightarrow> bool" where
  "us_inv U n st \<longleftrightarrow> (n \<le> 2 \<longrightarrow> unshare_ok U (us_k st)) \<and>
     (n = 3 \<longrightarrow> (\<forall>a s. ue_dup_fd U = Inr (a, s) \<longrightarrow> k_fds (us_k st) a = None \<and> fl_count s = 1)) \<and>
     (n \<le> 2 \<longrightarrow> us_fs st = None) \<and> (n \<le> 3 \<longrightarrow> us_fd st = None) \<and> (n \<le> 4 \<longrightarrow> us_cred st = None) \<and> (n \<le> 5 \<longrightarrow> us_nsproxy st = None)"

lemma us_check_keeps: "uw.keeps U (us_inv U 1) Bad_unshare_out (us_check K U f p cur) Bad_unshare_out (us_inv U 2)"
  by (rule uw.keepsI) (auto simp: us_check_def us_inv_def)

lemma us_fs_keeps:
  assumes "puts_ok U"
  shows "uw.keeps U (us_inv U 2) Bad_unshare_out (us_stage_fs K U f cur) Bad_unshare_cleanup_fs (us_inv U 3)"
proof (rule uw.keepsI)
  fix st st' assume I: "us_inv U 2 st" and s: "us_stage_fs K U f cur st = (None, st')"
  then show "us_inv U 3 st'"
    by (auto simp: us_stage_fs_def unshare_fs_def us_inv_def unshare_ok_def split: option.splits if_splits)
  show "usim (unwind_unshare U Bad_unshare_cleanup_fs st') (unwind_unshare U Bad_unshare_out st)"
    using I s assms by (auto simp: us_stage_fs_def unshare_fs_def us_inv_def unshare_ok_def un_cleanup_fs_def puts_ok_def fun_upd_idem
        split: option.splits if_splits)
next
  fix st m e st' assume "us_stage_fs K U f cur st = (Some (m, e), st')"
  then show "usim (unwind_unshare U m st') (unwind_unshare U Bad_unshare_out st)"
    by (auto simp: us_stage_fs_def unshare_fs_def split: option.splits if_splits)
qed

lemma us_fd_keeps:
  assumes "puts_ok U"
  shows "uw.keeps U (us_inv U 3) Bad_unshare_cleanup_fs (us_stage_fd K U f cur) Bad_unshare_cleanup_fd (us_inv U 4)"
proof (rule uw.keepsI)
  fix st st' assume I: "us_inv U 3 st" and s: "us_stage_fd K U f cur st = (None, st')"
  then show "us_inv U 4 st'"
    by (auto simp: us_stage_fd_def unshare_fd_def us_inv_def split: option.splits if_splits sum.splits)
  from s consider "st' = st\<lparr>us_fd := None\<rparr>"
    | a g where "ue_dup_fd U = Inr (a, g)" "st' = st\<lparr>us_fd := Some a, us_k := (us_k st)\<lparr>k_fds := (k_fds (us_k st))(a \<mapsto> g)\<rparr>\<rparr>"
    by (auto simp: us_stage_fd_def unshare_fd_def split: option.splits if_splits sum.splits)
  then show "usim (unwind_unshare U Bad_unshare_cleanup_fd st') (unwind_unshare U Bad_unshare_cleanup_fs st)"
  proof cases
    case 1
    then show ?thesis by (simp add: un_cleanup_fd_def un_cleanup_fs_def cong: option.case_cong)
  next
    case (2 a g)
    with I have a: "k_fds (us_k st) a = None" "fl_count g = 1" by (auto simp: us_inv_def)
    have "ue_put_files U a (us_k st') = us_k st"
      using assms a 2(2) by (simp add: puts_ok_def drop_files_def fun_upd_idem)
    with 2(2) show ?thesis by (simp add: un_cleanup_fd_def un_cleanup_fs_def cong: option.case_cong)
  qed
next
  fix st m e st' assume "us_stage_fd K U f cur st = (Some (m, e), st')"
  then show "usim (unwind_unshare U m st') (unwind_unshare U Bad_unshare_cleanup_fs st)"
    by (auto simp: us_stage_fd_def unshare_fd_def un_cleanup_fs_def split: option.splits if_splits sum.splits)
qed

lemma us_userns_keeps:
  assumes "puts_ok U"
  shows "uw.keeps U (us_inv U 4) Bad_unshare_cleanup_fd (us_stage_userns U) Bad_unshare_cleanup_cred (us_inv U 5)"
proof (rule uw.keepsI)
  fix st st' assume I: "us_inv U 4 st" and s: "us_stage_userns U st = (None, st')"
  show "us_inv U 5 st'" using I s by (auto simp: us_stage_userns_def us_inv_def split: sum.splits option.splits)
  obtain x where x: "ue_userns U = Inr x" using s by (cases "ue_userns U") (simp_all add: us_stage_userns_def)
  show "usim (unwind_unshare U Bad_unshare_cleanup_cred st') (unwind_unshare U Bad_unshare_cleanup_fd st)"
  proof (cases x)
    case None
    with I s x show ?thesis by (simp add: us_stage_userns_def un_cleanup_cred_def us_inv_def)
  next
    case (Some c)
    with s x have 2: "st' = st\<lparr>us_cred := Some c, us_k := klog [Acq R_cred] (us_k st)\<rparr>" by (simp add: us_stage_userns_def)
    have cred: "un_cleanup_fd U (st\<lparr>us_cred := x, us_k := k\<rparr>) = un_cleanup_fd U (st\<lparr>us_k := k\<rparr>)" for x k
      by (simp add: un_cleanup_fd_def un_cleanup_fs_def split: option.split)
    have "un_cleanup_cred U st' = klog [Acq R_cred, Rel R_cred] (un_cleanup_fd U st)"
      using un_klog(2) [OF assms, where st = "st\<lparr>us_cred := Some c\<rparr>" and es = "[Acq R_cred, Rel R_cred]" and k = "us_k st"] cred [where x = "Some c" and k = "us_k st"]
      by (simp add: 2 un_cleanup_cred_def)
    then show ?thesis by (simp add: usim_klog)
  qed
qed (auto simp: us_stage_userns_def split: sum.splits option.splits)

lemma us_last_keep:
  assumes "puts_ok U"
  shows "uw.keeps U (us_inv U 5) Bad_unshare_cleanup_cred (run_stages [us_stage_nsproxy U, us_stage_ucounts U])
    Bad_unshare_cleanup_cred (\<lambda>_. True)"
proof (rule uw.keepsI)
  have cleanup: "usim (un_cleanup_cred U (st\<lparr>us_nsproxy := x, us_k := klog [Acq R_nsproxy] (us_k st)\<rparr>)) (un_cleanup_cred U st)" for st x
  proof -
    let ?c = "if us_cred st \<noteq> None then [Rel R_cred] else []"
    have ns: "un_cleanup_fd U (st\<lparr>us_nsproxy := x, us_k := k\<rparr>) = un_cleanup_fd U (st\<lparr>us_k := k\<rparr>)" for k
      by (simp add: un_cleanup_fd_def un_cleanup_fs_def split: option.split)
    have kl: "un_cleanup_fd U (st\<lparr>us_k := klog es (us_k st)\<rparr>) = klog es (un_cleanup_fd U st)" for es
      using un_klog(2) [OF assms, where st = st and es = es and k = "us_k st"] by simp
    have "un_cleanup_cred U (st\<lparr>us_nsproxy := x, us_k := klog [Acq R_nsproxy] (us_k st)\<rparr>) = klog (Acq R_nsproxy # ?c) (un_cleanup_fd U st)"
      "un_cleanup_cred U st = klog ?c (un_cleanup_fd U st)"
      by (simp_all add: un_cleanup_cred_def ns kl)
    then show ?thesis by (simp add: usim_def klog_def held_append)
  qed
  have key: "usim (un_cleanup_cred U st') (un_cleanup_cred U st)"
    if "run_stages [us_stage_nsproxy U, us_stage_ucounts U] st = (r, st')" "r = None \<or> (\<exists>e. r = Some (Bad_unshare_cleanup_cred, e))"
    for st st' r
  proof -
    from that(1) consider x where "ue_nsproxy U = Inr x" | "st' = st"
      by (cases "ue_nsproxy U") (auto simp: us_stage_nsproxy_def)
    then show ?thesis
    proof cases
      case (1 x)
      have u: "us_stage_ucounts U t = (q, t') \<Longrightarrow> t' = t" for t q t' by (simp add: us_stage_ucounts_def split: if_splits)
      show ?thesis
      proof (cases x)
        case None
        with 1 that(1) have "st' = st" by (auto simp: us_stage_nsproxy_def dest: u split: prod.splits option.splits)
        then show ?thesis by simp
      next
        case (Some n)
        with 1 that(1) have "st' = st\<lparr>us_nsproxy := Some n, us_k := klog [Acq R_nsproxy] (us_k st)\<rparr>"
          by (auto simp: us_stage_nsproxy_def dest: u split: prod.splits option.splits)
        then show ?thesis using cleanup by simp
      qed
    qed simp
  qed
  show "usim (unwind_unshare U Bad_unshare_cleanup_cred st') (unwind_unshare U Bad_unshare_cleanup_cred st)"
    if "run_stages [us_stage_nsproxy U, us_stage_ucounts U] st = (None, st')" for st st'
    using key [OF that] by simp
  show "usim (unwind_unshare U m st') (unwind_unshare U Bad_unshare_cleanup_cred st)"
    if "run_stages [us_stage_nsproxy U, us_stage_ucounts U] st = (Some (m, e), st')" for st m e st'
  proof -
    have "m = Bad_unshare_cleanup_cred"
      using that by (auto simp: us_stage_nsproxy_def us_stage_ucounts_def split: sum.splits option.splits if_splits)
    with key [OF that] show ?thesis by simp
  qed
qed simp

lemma unshare_stages_keep:
  assumes "puts_ok U"
  shows "uw.keeps U (us_inv U 1) Bad_unshare_out (run_stages (unshare_stages K U f p cur)) Bad_unshare_cleanup_cred (\<lambda>_. True)"
  unfolding unshare_stages_def
  by (intro us_check_keeps [THEN uw.keeps_Cons] us_fs_keeps [OF assms, THEN uw.keeps_Cons]
      us_fd_keeps [OF assms, THEN uw.keeps_Cons] us_userns_keeps [OF assms, THEN uw.keeps_Cons] us_last_keep [OF assms])

text \<open>The namespace proxy: nothing gives it back once it is created.\<close>

definition ns_fate :: "unshare_env \<Rightarrow> kernel \<Rightarrow> us_state \<Rightarrow> bool" where
  "ns_fate U k st \<longleftrightarrow> held (k_log (us_k st)) R_nsproxy = held (k_log k) R_nsproxy \<or>
     (\<exists>n e. ue_nsproxy U = Inr (Some n) \<and> ue_ucounts U = Some e \<and>
        held (k_log (us_k st)) R_nsproxy = held (k_log k) R_nsproxy + 1)"

lemma nsproxy_unwind:
  assumes "puts_ok U"
  shows "held (k_log (unwind_unshare U l st)) R_nsproxy = held (k_log (us_k st)) R_nsproxy"
proof -
  have log: "k_log (ue_put_files U a k) = k_log k" "k_log (ue_free_fs U a k) = k_log k" for a k
    using assms by (simp_all add: puts_ok_def drop_files_def split: option.split)
  show ?thesis
    by (cases l) (simp_all add: un_cleanup_cred_def un_cleanup_fd_def un_cleanup_fs_def log split: option.split)
qed

lemma unshare_stages_ns:
  "post (\<lambda>st. held (k_log (us_k st)) R_nsproxy = held (k_log k) R_nsproxy) (run_stages (unshare_stages K U f p cur)) (\<lambda>_. True) (ns_fate U k)"
proof -
  let ?P = "\<lambda>st. held (k_log (us_k st)) R_nsproxy = held (k_log k) R_nsproxy"
  have 1: "post ?P (us_check K U f p cur) ?P (ns_fate U k)" "post ?P (us_stage_fs K U f cur) ?P (ns_fate U k)"
    "post ?P (us_stage_fd K U f cur) ?P (ns_fate U k)" "post ?P (us_stage_userns U) ?P (ns_fate U k)"
    by (auto simp: post_def us_check_def us_stage_fs_def unshare_fs_def us_stage_fd_def unshare_fd_def us_stage_userns_def ns_fate_def
        split: option.splits sum.splits)
  have 2: "post ?P (run_stages [us_stage_nsproxy U, us_stage_ucounts U]) (\<lambda>_. True) (ns_fate U k)"
    by (auto simp: post_def us_stage_nsproxy_def us_stage_ucounts_def ns_fate_def split: option.splits sum.splits if_splits)
  show ?thesis unfolding unshare_stages_def by (intro 1 [THEN post_Cons] 2)
qed

section \<open>A successful call\<close>

text \<open>What the stages have prepared for the running task \<open>t\<close>.\<close>

definition us_prepared :: "kconst \<Rightarrow> unshare_env \<Rightarrow> u64 \<Rightarrow> task_struct \<Rightarrow> kernel \<Rightarrow> nat \<Rightarrow> us_state \<Rightarrow> bool" where
  "us_prepared K U f t k n st \<longleftrightarrow> k_tasks (us_k st) = k_tasks k \<and>
     (case us_fs st of
        None \<Rightarrow> k_fss (us_k st) = k_fss k \<and> (2 \<le> n \<and> has f (CLONE_FS K) \<longrightarrow> fs_users (deref (k_fss k) (the (ts_fs t))) = 1)
      | Some a \<Rightarrow> \<exists>s. ue_fs U = Some (a, s) \<and> k_fss (us_k st) = (k_fss k)(a \<mapsto> s) \<and> fs_users (deref (k_fss k) (the (ts_fs t))) \<noteq> 1) \<and>
     (case us_fd st of
        None \<Rightarrow> k_fds (us_k st) = k_fds k \<and> (3 \<le> n \<and> has f (CLONE_FILES K) \<longrightarrow> fl_count (deref (k_fds k) (the (ts_files t))) \<le> 1)
      | Some a \<Rightarrow> \<exists>s. ue_dup_fd U = Inr (a, s) \<and> k_fds (us_k st) = (k_fds k)(a \<mapsto> s) \<and> 1 < fl_count (deref (k_fds k) (the (ts_files t)))) \<and>
     (n \<le> 1 \<longrightarrow> us_fs st = None) \<and> (n \<le> 2 \<longrightarrow> us_fd st = None)"

lemma unshare_stages_prepare:
  assumes "ts_fs t = Some fs" and "ts_files t = Some fd"
  shows "post (us_prepared K U f t k 0) (run_stages (unshare_stages K U f p t)) (us_prepared K U f t k 6) (\<lambda>_. True)"
proof -
  have 1: "post (us_prepared K U f t k 0) (us_check K U f p t) (us_prepared K U f t k 1) (\<lambda>_. True)"
    by (auto simp: post_def us_check_def us_prepared_def split: option.splits)
  have 2: "post (us_prepared K U f t k 1) (us_stage_fs K U f t) (us_prepared K U f t k 2) (\<lambda>_. True)"
    using assms by (auto simp: post_def us_stage_fs_def unshare_fs_def us_prepared_def split: option.splits)
  have 3: "post (us_prepared K U f t k 2) (us_stage_fd K U f t) (us_prepared K U f t k 3) (\<lambda>_. True)"
    using assms by (auto simp: post_def us_stage_fd_def unshare_fd_def us_prepared_def not_less split: option.splits sum.splits)
  have 4: "post (us_prepared K U f t k 3) (us_stage_userns U) (us_prepared K U f t k 4) (\<lambda>_. True)"
    by (auto simp: post_def us_stage_userns_def us_prepared_def split: option.splits sum.splits)
  have 5: "post (us_prepared K U f t k 4) (us_stage_nsproxy U) (us_prepared K U f t k 5) (\<lambda>_. True)"
    by (auto simp: post_def us_stage_nsproxy_def us_prepared_def split: option.splits sum.splits)
  have 6: "post (us_prepared K U f t k 5) (us_stage_ucounts U) (us_prepared K U f t k 6) (\<lambda>_. True)"
    by (auto simp: post_def us_stage_ucounts_def us_prepared_def split: option.splits)
  show ?thesis
    unfolding unshare_stages_def
    by (intro 1 [THEN post_Cons] 2 [THEN post_Cons] 3 [THEN post_Cons] 4 [THEN post_Cons] 5 [THEN post_Cons] 6 [THEN post_Cons] post_Nil)
qed

text \<open>
  The part of a state that the commit works on: the running task's two pointers and the two heaps.
\<close>

definition us_view :: "addr \<Rightarrow> us_state \<Rightarrow> (ptr \<times> ptr) option \<times> (addr \<rightharpoonup> fs_struct) \<times> (addr \<rightharpoonup> files_struct) \<times> ptr \<times> ptr" where
  "us_view cur st = (map_option (\<lambda>t. (ts_fs t, ts_files t)) (k_tasks (us_k st) cur), k_fss (us_k st), k_fds (us_k st), us_fs st, us_fd st)"

lemma switch_fs_view:
  assumes "us_view cur st = (Some (Some fs, fd), h, g, nf, nd)"
  shows "us_view cur (us_switch_fs cur st) =
    (case nf of None \<Rightarrow> (Some (Some fs, fd), h, g, nf, nd)
     | Some a \<Rightarrow> (Some (Some a, fd), upd fs (\<lambda>s. s\<lparr>fs_users := fs_users s - 1\<rparr>) h, g,
         if fs_users (deref (upd fs (\<lambda>s. s\<lparr>fs_users := fs_users s - 1\<rparr>) h) fs) \<noteq> 0 then None else Some fs, nd))"
  using assms by (auto simp: us_view_def us_switch_fs_def Let_def split: option.split)

lemma switch_fd_view:
  assumes "us_view cur st = (Some (fs, fd), h, g, nf, nd)"
  shows "us_view cur (us_switch_fd cur st) =
    (case nd of None \<Rightarrow> (Some (fs, fd), h, g, nf, nd) | Some a \<Rightarrow> (Some (fs, Some a), h, g, nf, fd))"
  using assms by (auto simp: us_view_def us_switch_fd_def Let_def split: option.split)

lemma us_commit_view:
  obtains st0 where "us_view cur st0 = us_view cur st"
    and "us_view cur (us_commit K f cur st) = us_view cur (us_switch_fd cur (us_switch_fs cur st0))"
proof (cases "us_fs st \<noteq> None \<or> us_fd st \<noteq> None \<or> has f (CLONE_NEWIPC K OR CLONE_SYSVSEM K) \<or> us_cred st \<noteq> None \<or> us_nsproxy st \<noteq> None")
  case False
  then have "us_switch_fd cur (us_switch_fs cur st) = st" "us_commit K f cur st = st"
    by (simp_all add: us_switch_fd_def us_switch_fs_def us_commit_def)
  then show thesis using that [of st] by simp
next
  case True
  define st1 where "st1 = (if has f (CLONE_NEWIPC K OR CLONE_SYSVSEM K) then st\<lparr>us_k := klog [Call ''exit_sem''] (us_k st)\<rparr> else st)"
  define st2 where "st2 = (if has f (CLONE_NEWIPC K) then st1\<lparr>us_k := klog [Call ''exit_shm'', Call ''shm_init_task''] (us_k st1)\<rparr> else st1)"
  define st3 where "st3 = (case us_nsproxy st2 of None \<Rightarrow> st2
      | Some n \<Rightarrow> st2\<lparr>us_k := klog [Call ''switch_task_namespaces'']
          ((us_k st2)\<lparr>k_tasks := upd cur (\<lambda>t. t\<lparr>ts_nsproxy := Some n\<rparr>) (k_tasks (us_k st2))\<rparr>)\<rparr>)"
  define st4 where "st4 = st3\<lparr>us_k := klog [Acq R_task_lock] (us_k st3)\<rparr>"
  have "us_view cur st1 = us_view cur st" by (simp add: st1_def us_view_def)
  moreover have "us_view cur st2 = us_view cur st1" by (simp add: st2_def us_view_def)
  moreover have "us_view cur st3 = us_view cur st2"
    by (simp add: st3_def us_view_def upd_def option.map_comp o_def split: option.split)
  moreover have "us_view cur st4 = us_view cur st3" by (simp add: st4_def us_view_def)
  ultimately have v: "us_view cur st4 = us_view cur st" by simp
  have "us_view cur (us_commit K f cur st) = us_view cur (us_switch_fd cur (us_switch_fs cur st4))"
    using True unfolding us_commit_def Let_def st1_def [symmetric] st2_def [symmetric] st3_def [symmetric] st4_def [symmetric]
    by (simp add: us_view_def)
  with v show thesis by (rule that)
qed

lemma cleanup_view:
  assumes "puts_ok U"
  shows "k_tasks (un_cleanup_cred U st) = k_tasks (us_k st)"
    and "k_fss (un_cleanup_cred U st) = (case us_fs st of None \<Rightarrow> k_fss (us_k st) | Some a \<Rightarrow> (k_fss (us_k st))(a := None))"
    and "k_fds (un_cleanup_cred U st) = (case us_fd st of None \<Rightarrow> k_fds (us_k st) | Some a \<Rightarrow> k_fds (drop_files (Some a) (us_k st)))"
  using assms
  by (auto simp: un_cleanup_cred_def un_cleanup_fd_def un_cleanup_fs_def puts_ok_def drop_files_def split: option.split)

lemma unshare_commits:
  assumes "unshare_ok U k" and t: "k_tasks k cur = Some t"
    and fs: "ts_fs t = Some fs" "k_fss k fs = Some s" and fd: "ts_files t = Some fd" "k_fds k fd = Some g"
    and pos: "0 < fs_users s" "0 < fl_count g"
    and prep: "us_prepared K U f t k 6 st"
    and k'_def: "k' = un_cleanup_cred U (us_commit K f cur st\<lparr>us_k := klog es (us_k (us_commit K f cur st))\<rparr>)"
  shows "\<exists>t' a b s' g'. k_tasks k' cur = Some t' \<and> ts_fs t' = Some a \<and> ts_files t' = Some b \<and> k_fss k' a = Some s' \<and> k_fds k' b = Some g' \<and>
     (has f (CLONE_FS K) \<longrightarrow> fs_users s' = 1) \<and> (has f (CLONE_FILES K) \<longrightarrow> fl_count g' = 1) \<and>
     (a \<noteq> fs \<longrightarrow> k_fss k' fs = Some (s\<lparr>fs_users := fs_users s - 1\<rparr>)) \<and>
     (b \<noteq> fd \<longrightarrow> k_fds k' fd = Some (g\<lparr>fl_count := fl_count g - 1\<rparr>))"
proof -
  have puts: "puts_ok U" using assms(1) by (simp add: unshare_ok_def)
  obtain st0 where v: "us_view cur st0 = us_view cur st"
    and c: "us_view cur (us_commit K f cur st) = us_view cur (us_switch_fd cur (us_switch_fs cur st0))"
    using us_commit_view .
  have v0: "us_view cur st0 = (Some (Some fs, Some fd), k_fss (us_k st), k_fds (us_k st), us_fs st, us_fd st)"
    using v prep t fs fd by (simp add: us_view_def us_prepared_def)
  define a where "a = (case us_fs st of None \<Rightarrow> fs | Some a \<Rightarrow> a)"
  define b where "b = (case us_fd st of None \<Rightarrow> fd | Some b \<Rightarrow> b)"
  have a: "us_view cur (us_switch_fs cur st0) = (Some (Some a, Some fd),
      (if us_fs st = None then k_fss k else (k_fss (us_k st))(fs \<mapsto> s\<lparr>fs_users := fs_users s - 1\<rparr>)), k_fds (us_k st), None, us_fd st)"
    using switch_fs_view [OF v0] prep fs pos assms(1)
    by (auto simp: us_prepared_def a_def upd_def unshare_ok_def split: option.splits)
  have b: "us_view cur (us_commit K f cur st) = (Some (Some a, Some b),
      (if us_fs st = None then k_fss k else (k_fss (us_k st))(fs \<mapsto> s\<lparr>fs_users := fs_users s - 1\<rparr>)), k_fds (us_k st), None,
      if us_fd st = None then None else Some fd)"
    unfolding c using switch_fd_view [OF a] by (auto simp: b_def split: option.split)
  then obtain t' where t': "k_tasks (us_k (us_commit K f cur st)) cur = Some t'" "ts_fs t' = Some a" "ts_files t' = Some b"
    by (auto simp: us_view_def)
  have gd: "us_fd st \<noteq> None \<Longrightarrow> k_fds (us_k st) fd = Some g \<and> fl_count g \<noteq> 1"
    using prep fd assms(1) by (auto simp: us_prepared_def unshare_ok_def split: option.splits)
  have heaps: "k_fss k' = (if us_fs st = None then k_fss k else (k_fss (us_k st))(fs \<mapsto> s\<lparr>fs_users := fs_users s - 1\<rparr>))"
    "k_fds k' = (if us_fd st = None then k_fds k else (k_fds (us_k st))(fd \<mapsto> g\<lparr>fl_count := fl_count g - 1\<rparr>))"
    using b gd prep by (auto simp: k'_def cleanup_view [OF puts] us_view_def drop_files_def us_prepared_def split: if_splits option.splits)
  have "k_tasks k' cur = Some t'" using t'(1) by (simp add: k'_def cleanup_view [OF puts])
  moreover have "\<exists>s'. k_fss k' a = Some s' \<and> (has f (CLONE_FS K) \<longrightarrow> fs_users s' = 1) \<and>
      (a \<noteq> fs \<longrightarrow> k_fss k' fs = Some (s\<lparr>fs_users := fs_users s - 1\<rparr>))"
    using heaps(1) prep fs assms(1) by (auto simp: us_prepared_def a_def unshare_ok_def split: option.splits)
  moreover have "\<exists>g'. k_fds k' b = Some g' \<and> (has f (CLONE_FILES K) \<longrightarrow> fl_count g' = 1) \<and>
      (b \<noteq> fd \<longrightarrow> k_fds k' fd = Some (g\<lparr>fl_count := fl_count g - 1\<rparr>))"
    using heaps(2) prep fd pos assms(1) by (auto simp: us_prepared_def b_def unshare_ok_def split: option.splits)
  ultimately show ?thesis using t' by blast
qed

section \<open>The properties\<close>

text \<open>
  C22: When \<^verbatim>\<open>unshare\<close> fails, every heap of the kernel is as it was before the call and every resource but
  the namespace proxy is held as often as before. The namespace proxy is too, unless a new one had
  been created and \<^verbatim>\<open>set_cred_ucounts\<close> failed after it: then, and only then, it is left behind.
\<close>

theorem failed_unshare:
  assumes "unshare_ok U k" and "ksys_unshare K U f cur k = (Some e, k')"
  shows "k'\<lparr>k_log := []\<rparr> = k\<lparr>k_log := []\<rparr> \<and>
    (\<forall>r. r \<noteq> R_nsproxy \<longrightarrow> held (k_log k') r = held (k_log k) r) \<and>
    (held (k_log k') R_nsproxy = held (k_log k) R_nsproxy \<or>
      (\<exists>n e'. ue_nsproxy U = Inr (Some n) \<and> ue_ucounts U = Some e' \<and> held (k_log k') R_nsproxy = held (k_log k) R_nsproxy + 1))"
proof -
  let ?st = "\<lparr>us_k = k, us_fs = None, us_fd = None, us_cred = None, us_nsproxy = None\<rparr>"
  let ?stages = "unshare_stages K U (unshare_flags_closure K f) cur (deref (k_tasks k) cur)"
  obtain l st where run: "run_stages ?stages ?st = (Some (l, e), st)" and k': "k' = unwind_unshare U l st"
    using assms(2) by (auto simp: ksys_unshare_def Let_def split: prod.splits option.splits)
  have puts: "puts_ok U" using assms(1) by (simp add: unshare_ok_def)
  have "us_inv U 1 ?st" using assms(1) by (simp add: us_inv_def)
  then have "usim k' k"
    using uw.run_fails [OF unshare_stages_keep [OF puts] _ run] by (simp add: k')
  moreover have "ns_fate U k st" using postD(2) [OF unshare_stages_ns _ run] by simp
  then have "held (k_log k') R_nsproxy = held (k_log k) R_nsproxy \<or>
      (\<exists>n e'. ue_nsproxy U = Inr (Some n) \<and> ue_ucounts U = Some e' \<and> held (k_log k') R_nsproxy = held (k_log k) R_nsproxy + 1)"
    unfolding k' nsproxy_unwind [OF puts] ns_fate_def .
  ultimately show ?thesis unfolding usim_def by blast
qed

text \<open>A task that shares its directories and its descriptors with another one, and an environment in which both copies are made.\<close>

definition demo_unshare_env :: "errno option \<Rightarrow> unshare_env" where
  "demo_unshare_env ucounts =
     \<lparr>ue_single_threaded = True, ue_fs = Some (20, \<lparr>fs_users = 1, fs_in_exec = False\<rparr>), ue_dup_fd = Inr (21, \<lparr>fl_count = 1\<rparr>),
      ue_userns = Inr (Some 22), ue_nsproxy = Inr (Some 23), ue_ucounts = ucounts,
      ue_put_files = (\<lambda>a. drop_files (Some a)), ue_free_fs = (\<lambda>a k. k\<lparr>k_fss := (k_fss k)(a := None)\<rparr>)\<rparr>"

definition demo_unshare_kernel :: kernel where
  "demo_unshare_kernel =
     zero_kernel\<lparr>k_tasks := [1 \<mapsto> zero_task\<lparr>ts_fs := Some 10, ts_files := Some 11, ts_group_leader := 1, ts_sighand := Some 12\<rparr>],
       k_fss := [10 \<mapsto> \<lparr>fs_users = 2, fs_in_exec = False\<rparr>], k_fds := [11 \<mapsto> \<lparr>fl_count = 2\<rparr>]\<rparr>"

lemma demo_unshare_ok: "unshare_ok (demo_unshare_env r) demo_unshare_kernel"
  by (simp add: unshare_ok_def puts_ok_def demo_unshare_env_def demo_unshare_kernel_def)

lemma demo_unshare_flags:
  "unshare_flags_closure linux_x86 0x10000400 = 0x10010600"
  "has (0x10010600 :: u64) (CLONE_FS linux_x86)" "has (0x10010600 :: u64) (CLONE_FILES linux_x86)"
  by (simp_all add: unshare_flags_closure_def has_def linux_x86_def Let_def)

definition demo_unshare_state :: us_state where
  "demo_unshare_state =
     \<lparr>us_k = klog [Acq R_cred, Acq R_nsproxy] (demo_unshare_kernel\<lparr>
        k_fss := (k_fss demo_unshare_kernel)(20 \<mapsto> \<lparr>fs_users = 1, fs_in_exec = False\<rparr>),
        k_fds := (k_fds demo_unshare_kernel)(21 \<mapsto> \<lparr>fl_count = 1\<rparr>)\<rparr>),
      us_fs = Some 20, us_fd = Some 21, us_cred = Some 22, us_nsproxy = Some 23\<rparr>"

lemma demo_unshare_run:
  "run_stages (unshare_stages linux_x86 (demo_unshare_env r) 0x10010600 1 (deref (k_tasks demo_unshare_kernel) 1))
     \<lparr>us_k = demo_unshare_kernel, us_fs = None, us_fd = None, us_cred = None, us_nsproxy = None\<rparr> =
   (map_option (Pair Bad_unshare_cleanup_cred) r, demo_unshare_state)"
proof -
  have "check_unshare_flags linux_x86 (demo_unshare_env r) 0x10010600 1 (deref (k_tasks demo_unshare_kernel) 1) demo_unshare_kernel = None"
    by (simp add: check_unshare_flags_def has_def linux_x86_def demo_unshare_kernel_def thread_group_empty_def zero_task_def)
  then show ?thesis
    by (cases r)
      (simp_all add: unshare_stages_def us_check_def us_stage_fs_def unshare_fs_def us_stage_fd_def unshare_fd_def us_stage_userns_def
        us_stage_nsproxy_def us_stage_ucounts_def demo_unshare_env_def demo_unshare_kernel_def demo_unshare_flags demo_unshare_state_def
        split: option.split)
qed

theorem failed_unshare_witness:
  "unshare_ok (demo_unshare_env (Some EAGAIN)) demo_unshare_kernel \<and>
   (\<exists>k'. ksys_unshare linux_x86 (demo_unshare_env (Some EAGAIN)) 0x10000400 1 demo_unshare_kernel = (Some EAGAIN, k') \<and>
     held (k_log k') R_nsproxy = 1 \<and> k'\<lparr>k_log := []\<rparr> = demo_unshare_kernel\<lparr>k_log := []\<rparr>)"
proof -
  let ?U = "demo_unshare_env (Some EAGAIN)"
  let ?k = "unwind_unshare ?U Bad_unshare_cleanup_cred demo_unshare_state"
  have r: "ksys_unshare linux_x86 ?U 0x10000400 1 demo_unshare_kernel = (Some EAGAIN, ?k)"
    unfolding ksys_unshare_def Let_def demo_unshare_flags demo_unshare_run by simp
  have "puts_ok ?U" using demo_unshare_ok by (auto simp: unshare_ok_def)
  then have "held (k_log ?k) R_nsproxy = 1"
    unfolding nsproxy_unwind [OF \<open>puts_ok ?U\<close>] by (simp add: demo_unshare_state_def demo_unshare_kernel_def klog_def zero_kernel_def)
  then show ?thesis using failed_unshare [OF demo_unshare_ok r] demo_unshare_ok r by blast
qed

text \<open>
  C31: When \<^verbatim>\<open>unshare\<close> succeeds, the running task has directories (\<^verbatim>\<open>fs\<close>) and descriptors (\<^verbatim>\<open>files\<close>) of its own,
  used by nobody else, wherever the flags or a flag they imply ask for it. Objects that it shared before are still
  there for the other users, with one user less.
\<close>

theorem unshare_success:
  assumes "unshare_ok U k" and "k_tasks k cur = Some t"
    and "ts_fs t = Some fs" and "k_fss k fs = Some s" and "0 < fs_users s"
    and "ts_files t = Some fd" and "k_fds k fd = Some g" and "0 < fl_count g"
    and "ksys_unshare K U f cur k = (None, k')"
  shows "\<exists>t' a b s' g'. k_tasks k' cur = Some t' \<and> ts_fs t' = Some a \<and> ts_files t' = Some b \<and> k_fss k' a = Some s' \<and> k_fds k' b = Some g' \<and>
     (has (unshare_flags_closure K f) (CLONE_FS K) \<longrightarrow> fs_users s' = 1) \<and>
     (has (unshare_flags_closure K f) (CLONE_FILES K) \<longrightarrow> fl_count g' = 1) \<and>
     (a \<noteq> fs \<longrightarrow> k_fss k' fs = Some (s\<lparr>fs_users := fs_users s - 1\<rparr>)) \<and>
     (b \<noteq> fd \<longrightarrow> k_fds k' fd = Some (g\<lparr>fl_count := fl_count g - 1\<rparr>))"
proof -
  let ?st = "\<lparr>us_k = k, us_fs = None, us_fd = None, us_cred = None, us_nsproxy = None\<rparr>"
  let ?f = "unshare_flags_closure K f"
  obtain st where run: "run_stages (unshare_stages K U ?f cur t) ?st = (None, st)"
    and k': "k' = un_cleanup_cred U (us_commit K ?f cur st\<lparr>us_k := klog [Call ''perf_event_namespaces''] (us_k (us_commit K ?f cur st))\<rparr>)"
    using assms(2,9) by (auto simp: ksys_unshare_def Let_def split: prod.splits option.splits)
  have "us_prepared K U ?f t k 0 ?st" by (simp add: us_prepared_def)
  then have prep: "us_prepared K U ?f t k 6 st"
    using postD(1) [OF unshare_stages_prepare [OF assms(3) assms(6)] _ run] by blast
  show ?thesis
    using unshare_commits [OF assms(1) assms(2) assms(3) assms(4) assms(6) assms(7) assms(5) assms(8) prep k'] .
qed

theorem unshare_success_witness:
  "\<exists>k' t'. ksys_unshare linux_x86 (demo_unshare_env None) 0x10000400 1 demo_unshare_kernel = (None, k') \<and>
     k_tasks k' 1 = Some t' \<and> fs_users (deref (k_fss k') (the (ts_fs t'))) = 1 \<and> fl_count (deref (k_fds k') (the (ts_files t'))) = 1"
proof -
  obtain k' where r: "ksys_unshare linux_x86 (demo_unshare_env None) 0x10000400 1 demo_unshare_kernel = (None, k')"
    unfolding ksys_unshare_def Let_def demo_unshare_flags demo_unshare_run by simp
  show ?thesis
    using unshare_success [OF demo_unshare_ok _ _ _ _ _ _ _ r] r demo_unshare_flags
    by (fastforce simp: demo_unshare_kernel_def)
qed

end
