(* ===== verification/Process_Tree.thy ===== *)
theory Process_Tree
  imports Fork_Copy
begin

text \<open>
  \<^verbatim>\<open>walk_process_tree\<close> (\<^verbatim>\<open>kernel/fork.c\<close>): a walk over all descendants of a process without recursion. The C code
  keeps three pointers and moves up by following \<^verbatim>\<open>real_parent\<close> and \<^verbatim>\<open>group_leader\<close> and jumping back into the two
  list loops. The model keeps the same three pieces: the leader, what is left of its thread list (the head
  is \<^verbatim>\<open>parent\<close>) and what is left of the children of that thread. \<open>walk_loop\<close> is a \<open>partial_function\<close>, so that a walk which
  does not end is the value \<open>None\<close>; the theorem shows that it ends and does what the recursive pre-order
  traversal \<open>visit_forest\<close> does.
\<close>

section \<open>The walk\<close>

text \<open>The lists behind \<^verbatim>\<open>for_each_thread(p, t)\<close> and \<^verbatim>\<open>list_for_each_entry(child, &parent->children, sibling)\<close>.\<close>

definition threads_of :: "kernel \<Rightarrow> addr \<Rightarrow> addr list" where
  "threads_of k p = sg_thread_head (deref (k_signals k) (the (ts_signal (deref (k_tasks k) p))))"

definition children_of :: "kernel \<Rightarrow> addr \<Rightarrow> addr list" where
  "children_of k p = ts_children (deref (k_tasks k) p)"

text \<open>A visitor answers a number and may change its data: negative stops the walk, positive descends.\<close>

type_synonym 'd visitor = "addr \<Rightarrow> 'd \<Rightarrow> int \<times> 'd"

record 'd walk_state =
  w_leader :: addr
  w_threads :: "addr list"
  w_children :: "addr list"
  w_data :: 'd

text \<open>The label \<^verbatim>\<open>down\<close>: both loops start afresh at a leader.\<close>

definition walk_down :: "kernel \<Rightarrow> addr \<Rightarrow> 'd \<Rightarrow> 'd walk_state" where
  "walk_down k leader d =
     \<lparr>w_leader = leader, w_threads = threads_of k leader,
      w_children = (case threads_of k leader of [] \<Rightarrow> [] | parent # _ \<Rightarrow> children_of k parent), w_data = d\<rparr>"

text \<open>The label \<^verbatim>\<open>up\<close>: both loops go on after \<^verbatim>\<open>child\<close>.\<close>

definition walk_up :: "kernel \<Rightarrow> addr \<Rightarrow> 'd \<Rightarrow> 'd walk_state" where
  "walk_up k child d =
     (let parent = ts_real_parent (deref (k_tasks k) child);
          leader = ts_group_leader (deref (k_tasks k) parent)
      in \<lparr>w_leader = leader, w_threads = dropWhile (\<lambda>t. t \<noteq> parent) (threads_of k leader),
          w_children = tl (dropWhile (\<lambda>c. c \<noteq> child) (children_of k parent)), w_data = d\<rparr>)"

text \<open>One step; \<open>Inl\<close> is the label \<^verbatim>\<open>out\<close>.\<close>

definition walk_step :: "kernel \<Rightarrow> addr \<Rightarrow> 'd visitor \<Rightarrow> 'd walk_state \<Rightarrow> 'd + 'd walk_state" where
  "walk_step k root visitor w =
     (case w_children w of
        child # cs \<Rightarrow>
          (case visitor child (w_data w) of (res, d) \<Rightarrow>
             if res \<noteq> 0 then if res < 0 then Inl d else Inr (walk_down k child d)
             else Inr (w\<lparr>w_children := cs, w_data := d\<rparr>))
      | [] \<Rightarrow>
          (case w_threads w of
             _ # parent # ps \<Rightarrow> Inr (w\<lparr>w_threads := parent # ps, w_children := children_of k parent\<rparr>)
           | _ \<Rightarrow> if w_leader w \<noteq> root then Inr (walk_up k (w_leader w) (w_data w)) else Inl (w_data w)))"

partial_function (option) walk_loop :: "kernel \<Rightarrow> addr \<Rightarrow> 'd visitor \<Rightarrow> 'd walk_state \<Rightarrow> 'd option" where
  "walk_loop k root visitor w = (case walk_step k root visitor w of Inl d \<Rightarrow> Some d | Inr w' \<Rightarrow> walk_loop k root visitor w')"

definition walk_process_tree :: "kernel \<Rightarrow> addr \<Rightarrow> 'd visitor \<Rightarrow> 'd \<Rightarrow> 'd option" where
  "walk_process_tree k root visitor d =
     (let root = ts_group_leader (deref (k_tasks k) root) in walk_loop k root visitor (walk_down k root d))"

section \<open>The reference: a recursive traversal\<close>

datatype ptree = PNode (p_root: addr) (p_kids: "ptree list")

text \<open>The first component says that a visitor has stopped the traversal.\<close>

fun visit_forest :: "'d visitor \<Rightarrow> ptree list \<Rightarrow> 'd \<Rightarrow> bool \<times> 'd" where
  "visit_forest v [] d = (False, d)"
| "visit_forest v (PNode c ks # ts) d =
     (case v c d of (res, d) \<Rightarrow>
        if res < 0 then (True, d)
        else if res = 0 then visit_forest v ts d
        else case visit_forest v ks d of (True, d) \<Rightarrow> (True, d) | (False, d) \<Rightarrow> visit_forest v ts d)"

fun descendants :: "ptree list \<Rightarrow> addr list" where
  "descendants [] = []"
| "descendants (PNode c ks # ts) = c # descendants ks @ descendants ts"

text \<open>
  \<open>family k l ts\<close>: the children of the threads of \<open>l\<close> are the roots of \<open>ts\<close>, in the order of the lists, and so on below;
  the back pointers of every child and thread agree with the lists.
\<close>

definition links_ok :: "kernel \<Rightarrow> addr \<Rightarrow> bool" where
  "links_ok k l \<longleftrightarrow> distinct (threads_of k l) \<and>
     (\<forall>p \<in> set (threads_of k l). ts_group_leader (deref (k_tasks k) p) = l \<and> distinct (children_of k p) \<and>
        (\<forall>c \<in> set (children_of k p). ts_real_parent (deref (k_tasks k) c) = p))"

fun rooted :: "kernel \<Rightarrow> ptree list \<Rightarrow> bool" where
  "rooted k [] \<longleftrightarrow> True"
| "rooted k (PNode c ks # ts) \<longleftrightarrow>
     links_ok k c \<and> map p_root ks = concat (map (children_of k) (threads_of k c)) \<and> rooted k ks \<and> rooted k ts"

definition family :: "kernel \<Rightarrow> addr \<Rightarrow> ptree list \<Rightarrow> bool" where
  "family k l ts \<longleftrightarrow> links_ok k l \<and> map p_root ts = concat (map (children_of k) (threads_of k l)) \<and> rooted k ts"

section \<open>The walk is the traversal\<close>

text \<open>A state in the middle of the loops of \<open>l\<close>, with the forest that is still to be visited.\<close>

definition at_place :: "kernel \<Rightarrow> addr \<Rightarrow> 'd walk_state \<Rightarrow> bool" where
  "at_place k l w \<longleftrightarrow> w_leader w = l \<and> (\<exists>us. threads_of k l = us @ w_threads w) \<and>
     (case w_threads w of [] \<Rightarrow> w_children w = [] | p # _ \<Rightarrow> \<exists>cs. children_of k p = cs @ w_children w)"

definition pending :: "kernel \<Rightarrow> 'd walk_state \<Rightarrow> addr list" where
  "pending k w = w_children w @ concat (map (children_of k) (tl (w_threads w)))"

definition at_end :: "addr \<Rightarrow> 'd walk_state \<Rightarrow> bool" where
  "at_end l w \<longleftrightarrow> w_leader w = l \<and> w_children w = [] \<and> tl (w_threads w) = []"

lemma at_place_down: "at_place k l (walk_down k l d)"
  by (auto simp: at_place_def walk_down_def split: list.split)

lemma pending_down: "pending k (walk_down k l d) = concat (map (children_of k) (threads_of k l))"
  by (auto simp: pending_def walk_down_def split: list.split)

lemma dropWhile_mid: "distinct (us @ x # vs) \<Longrightarrow> dropWhile (\<lambda>y. y \<noteq> x) (us @ x # vs) = x # vs"
  by (induction us) auto

text \<open>Going up from \<open>c\<close> leads back to the state right after the visit of \<open>c\<close>.\<close>

lemma walk_up_returns:
  assumes "links_ok k l" and "at_place k l w" and "w_children w = c # cs"
  shows "walk_up k c d = w\<lparr>w_children := cs, w_data := d\<rparr>"
proof -
  obtain p ps us bs where p: "w_threads w = p # ps" "threads_of k l = us @ p # ps" "children_of k p = bs @ c # cs"
    using assms(2,3) by (cases "w_threads w") (auto simp: at_place_def)
  have "distinct (us @ p # ps)" "distinct (bs @ c # cs)" and g: "ts_group_leader (deref (k_tasks k) p) = l" "ts_real_parent (deref (k_tasks k) c) = p"
    using assms(1) p unfolding links_ok_def by force+
  moreover have "w_leader w = l" using assms(2) by (simp add: at_place_def)
  ultimately show ?thesis
    using p by (simp add: walk_up_def dropWhile_mid)
qed

text \<open>Steps over an exhausted thread do not change what is pending.\<close>

lemma walk_to_child:
  assumes "at_place k l w" and "pending k w = c # rest"
  obtains w' cs where "walk_loop k root v w = walk_loop k root v w'" "at_place k l w'" "w_children w' = c # cs"
    "pending k w' = c # rest" "w_data w' = w_data w"
proof -
  have "\<exists>w' cs. walk_loop k root v w = walk_loop k root v w' \<and> at_place k l w' \<and> w_children w' = c # cs \<and> pending k w' = c # rest \<and> w_data w' = w_data w"
    using assms
  proof (induction "w_threads w" arbitrary: w)
    case Nil
    then show ?case by (auto simp: pending_def at_place_def)
  next
    case (Cons p ps)
    show ?case
    proof (cases "w_children w")
      case (Cons a list)
      with Cons.prems show ?thesis by (auto simp: pending_def)
    next
      case Nil
      with Cons.hyps(2) [symmetric] Cons.prems obtain q qs where q: "ps = q # qs" by (cases ps) (auto simp: pending_def)
      let ?w = "w\<lparr>w_threads := q # qs, w_children := children_of k q\<rparr>"
      have step: "walk_loop k root v w = walk_loop k root v ?w"
        using Nil Cons.hyps(2) [symmetric] q by (subst walk_loop.simps) (simp add: walk_step_def)
      have "at_place k l ?w" using Cons.prems(1) Cons.hyps(2) [symmetric] q by (auto simp: at_place_def)
      moreover have "pending k ?w = c # rest" using Cons.prems(2) Cons.hyps(2) [symmetric] q Nil by (simp add: pending_def)
      ultimately show ?thesis using Cons.hyps(1) [of ?w] q step by fastforce
    qed
  qed
  then show thesis using that by blast
qed

lemma walk_to_end:
  assumes "at_place k l w" and "pending k w = []"
  shows "\<exists>w'. walk_loop k root v w = walk_loop k root v w' \<and> at_end l w' \<and> w_data w' = w_data w"
  using assms
proof (induction "w_threads w" arbitrary: w)
  case Nil
  then show ?case by (auto simp: at_end_def at_place_def pending_def)
next
  case (Cons p ps)
  show ?case
  proof (cases ps)
    case Nil
    with Cons.hyps(2) [symmetric] Cons.prems show ?thesis by (auto simp: at_end_def at_place_def pending_def)
  next
    case q: (Cons q qs)
    let ?w = "w\<lparr>w_threads := q # qs, w_children := children_of k q\<rparr>"
    have "walk_loop k root v w = walk_loop k root v ?w"
      using Cons.prems(2) Cons.hyps(2) [symmetric] q by (subst walk_loop.simps) (simp add: walk_step_def pending_def)
    moreover have "at_place k l ?w" using Cons.prems(1) Cons.hyps(2) [symmetric] q by (auto simp: at_place_def)
    moreover have "pending k ?w = []" using Cons.prems(2) Cons.hyps(2) [symmetric] q by (simp add: pending_def)
    ultimately show ?thesis using Cons.hyps(1) [of ?w] q by fastforce
  qed
qed

lemma walk_leaves:
  assumes "at_end l w"
  shows "walk_loop k root v w = (if l \<noteq> root then walk_loop k root v (walk_up k l (w_data w)) else Some (w_data w))"
proof -
  have "w_threads w = [] \<or> (\<exists>t. w_threads w = [t])" using assms by (cases "w_threads w") (auto simp: at_end_def)
  then show ?thesis using assms by (subst walk_loop.simps) (auto simp: at_end_def walk_step_def)
qed

text \<open>What the loop does with a pending forest: it stops where the traversal stops, or it arrives at the end of the lists of \<open>l\<close>.\<close>

definition walks :: "kernel \<Rightarrow> addr \<Rightarrow> 'd visitor \<Rightarrow> addr \<Rightarrow> 'd walk_state \<Rightarrow> bool \<times> 'd \<Rightarrow> bool" where
  "walks k root v l w r \<longleftrightarrow>
     (case r of (True, d) \<Rightarrow> walk_loop k root v w = Some d
      | (False, d) \<Rightarrow> \<exists>w'. walk_loop k root v w = walk_loop k root v w' \<and> at_end l w' \<and> w_data w' = d)"

lemma walks_cong: "walk_loop k root v w = walk_loop k root v w' \<Longrightarrow> walks k root v l w r = walks k root v l w' r"
  by (simp add: walks_def split: prod.split bool.split)

lemma walk_forest:
  assumes "rooted k F" and "links_ok k l" and "at_place k l w" and "pending k w = map p_root F" and "root \<notin> set (descendants F)"
  shows "walks k root v l w (visit_forest v F (w_data w))"
  using assms
proof (induction F arbitrary: l w rule: descendants.induct)
  case 1
  then show ?case using walk_to_end [of k l w root v] by (simp add: walks_def)
next
  case (2 c ks ts)
  have "pending k w = c # map p_root ts" using 2(6) by simp
  from walk_to_child [OF 2(5) this, of root v] obtain w' cs
    where w': "walk_loop k root v w = walk_loop k root v w'" "at_place k l w'" "w_children w' = c # cs"
      "pending k w' = c # map p_root ts" "w_data w' = w_data w" .
  obtain res d where v: "v c (w_data w) = (res, d)" by fastforce
  define nxt where "nxt d = w'\<lparr>w_children := cs, w_data := d\<rparr>" for d
  have next_ok: "at_place k l (nxt d)" "pending k (nxt d) = map p_root ts" for d
    using w'(2,3,4) by (auto simp: nxt_def at_place_def pending_def split: list.splits)
  have rest: "walks k root v l (nxt d) (visit_forest v ts d)" for d
    using 2(2) [of l "nxt d"] 2(3,4,7) next_ok by (simp add: nxt_def)
  have step: "walk_loop k root v w = (if res \<noteq> 0 then if res < 0 then Some d else walk_loop k root v (walk_down k c d) else walk_loop k root v (nxt d))"
    unfolding w'(1) using w'(3,5) v by (subst walk_loop.simps) (simp add: walk_step_def nxt_def)
  consider "res < 0" | "res = 0" | "0 < res" by linarith
  then show ?case
  proof cases
    case 1
    with v step show ?thesis by (simp add: walks_def)
  next
    case 2
    with v step rest [of d] walks_cong show ?thesis by fastforce
  next
    case 3
    have kids: "walks k root v c (walk_down k c d) (visit_forest v ks d)"
      using 2(1) [of c "walk_down k c d"] 2(3,7) by (simp add: at_place_down pending_down) (simp add: walk_down_def)
    have c: "c \<noteq> root" using 2(7) by auto
    obtain stop d' where k: "visit_forest v ks d = (stop, d')" by fastforce
    show ?thesis
    proof (cases stop)
      case True
      with 3 v step kids k show ?thesis by (simp add: walks_def)
    next
      case False
      with kids k obtain we where we: "walk_loop k root v (walk_down k c d) = walk_loop k root v we" "at_end c we" "w_data we = d'"
        by (auto simp: walks_def)
      have "walk_loop k root v we = walk_loop k root v (nxt d')"
        using walk_leaves [OF we(2)] c we(3) walk_up_returns [OF 2(4) w'(2,3)] by (simp add: nxt_def)
      with 3 step we have "walk_loop k root v w = walk_loop k root v (nxt d')" by simp
      from walks_cong [OF this] rest [of d'] 3 v k False show ?thesis by simp
    qed
  qed
qed

text \<open>
  C9: On a finite family of processes whose back pointers agree with its lists, \<^verbatim>\<open>walk_process_tree\<close> ends, and its effect is that
  of the recursive pre-order traversal: it visits the children in list order, goes down where the visitor answers
  a positive number, skips a subtree at 0 and stops at the first negative answer.
\<close>

theorem walk_process_tree_preorder:
  assumes "ts_group_leader (deref (k_tasks k) p) = l" and "family k l F" and "l \<notin> set (descendants F)"
  shows "walk_process_tree k p visitor d = Some (snd (visit_forest visitor F d))"
proof -
  have "walks k l visitor l (walk_down k l d) (visit_forest visitor F d)"
    using walk_forest [of k F l "walk_down k l d" l visitor] assms(2,3)
    by (simp add: family_def at_place_down pending_down) (simp add: walk_down_def)
  then show ?thesis
    using assms(1) walk_leaves [of l _ k l visitor]
    by (auto simp: walk_process_tree_def walks_def split: prod.splits bool.splits)
qed

text \<open>Process 7 with the threads 7 and 2; 7 has the children 3 and 4, 2 has the child 5, 3 has the child 6.\<close>

definition demo_tree_task :: "addr \<Rightarrow> addr \<Rightarrow> addr list \<Rightarrow> task_struct" where
  "demo_tree_task leader parent children =
     zero_task\<lparr>ts_group_leader := leader, ts_real_parent := parent, ts_children := children, ts_signal := Some (leader + 10)\<rparr>"

definition demo_tree :: kernel where
  "demo_tree = zero_kernel\<lparr>
     k_tasks := [7 \<mapsto> demo_tree_task 7 0 [3, 4], 2 \<mapsto> demo_tree_task 7 0 [5], 3 \<mapsto> demo_tree_task 3 7 [6], 4 \<mapsto> demo_tree_task 4 7 [],
       5 \<mapsto> demo_tree_task 5 2 [], 6 \<mapsto> demo_tree_task 6 3 []],
     k_signals := [17 \<mapsto> zero_signal\<lparr>sg_thread_head := [7, 2]\<rparr>, 13 \<mapsto> zero_signal\<lparr>sg_thread_head := [3]\<rparr>,
       14 \<mapsto> zero_signal\<lparr>sg_thread_head := [4]\<rparr>, 15 \<mapsto> zero_signal\<lparr>sg_thread_head := [5]\<rparr>, 16 \<mapsto> zero_signal\<lparr>sg_thread_head := [6]\<rparr>]\<rparr>"

text \<open>From thread 2 of the process, with a visitor that records whom it sees and does not descend into 4.\<close>

theorem walk_process_tree_preorder_witness:
  "walk_process_tree demo_tree 2 (\<lambda>c seen. (if c = 4 then 0 else 1, seen @ [c])) [] = Some [3, 6, 4, 5]"
proof -
  let ?F = "[PNode 3 [PNode 6 []], PNode 4 [], PNode 5 []]"
  have lists: "threads_of demo_tree 7 = [7, 2]" "threads_of demo_tree 3 = [3]" "threads_of demo_tree 4 = [4]"
    "threads_of demo_tree 5 = [5]" "threads_of demo_tree 6 = [6]" "children_of demo_tree 7 = [3, 4]" "children_of demo_tree 2 = [5]"
    "children_of demo_tree 3 = [6]" "children_of demo_tree 4 = []" "children_of demo_tree 5 = []" "children_of demo_tree 6 = []"
    by (simp_all add: threads_of_def children_of_def demo_tree_def demo_tree_task_def)
  have links: "links_ok demo_tree 7" "links_ok demo_tree 3" "links_ok demo_tree 4" "links_ok demo_tree 5" "links_ok demo_tree 6"
    by (simp_all add: links_ok_def lists) (simp_all add: demo_tree_def demo_tree_task_def)
  have "ts_group_leader (deref (k_tasks demo_tree) 2) = 7" by (simp add: demo_tree_def demo_tree_task_def)
  moreover have "family demo_tree 7 ?F" by (simp add: family_def lists links)
  ultimately show ?thesis
    using walk_process_tree_preorder [of demo_tree 2 7 ?F "\<lambda>c seen. (if c = 4 then 0 else 1, seen @ [c])" "[]"] by simp
qed

end
