(* ===== verification/Vfork.thy ===== *)
theory Vfork
  imports Fork_Copy
begin

text \<open>
  The protocol between a \<^verbatim>\<open>vfork\<close> parent and its child (\<^verbatim>\<open>kernel/fork.c\<close>), at the grain at which the two
  interleave. The completion lives on the kernel stack of the parent; the child finds it through
  \<^verbatim>\<open>vfork_done\<close> and signals it in \<^verbatim>\<open>complete_vfork_done\<close>, called by \<^verbatim>\<open>mm_release\<close> when it executes a new program or exits. The
  parent waits in \<^verbatim>\<open>wait_for_vfork_done\<close> and may be killed while it waits. \<open>vf_step\<close> has one rule per
  access to shared state; a task lock is taken only when it is free. A signal on a completion whose
  stack frame is gone sets \<open>vf_bad\<close>; the invariant shows that this never happens.
\<close>

section \<open>The step relation\<close>

datatype vf_side = Parent | Child

datatype parent_pc =
    P_wait                 \<comment> \<open>in \<^verbatim>\<open>wait_for_completion_killable\<close>\<close>
  | P_kill_lock            \<comment> \<open>killed, before \<^verbatim>\<open>task_lock(child)\<close>\<close>
  | P_kill_clear           \<comment> \<open>before \<^verbatim>\<open>child->vfork_done = NULL\<close>\<close>
  | P_kill_unlock          \<comment> \<open>before \<^verbatim>\<open>task_unlock(child)\<close>\<close>
  | P_put kret             \<comment> \<open>before \<^verbatim>\<open>put_task_struct(child)\<close>\<close>
  | P_returned kret

datatype child_pc =
    C_run                  \<comment> \<open>before the test of \<^verbatim>\<open>vfork_done\<close> in \<^verbatim>\<open>mm_release\<close>\<close>
  | C_lock                 \<comment> \<open>before \<^verbatim>\<open>task_lock(tsk)\<close>\<close>
  | C_read                 \<comment> \<open>before \<^verbatim>\<open>vfork = tsk->vfork_done\<close>\<close>
  | C_clear addr           \<comment> \<open>before \<^verbatim>\<open>tsk->vfork_done = NULL\<close>\<close>
  | C_complete addr        \<comment> \<open>before \<^verbatim>\<open>complete(vfork)\<close>\<close>
  | C_unlock               \<comment> \<open>before \<^verbatim>\<open>task_unlock(tsk)\<close>\<close>
  | C_released

record vf_state =
  vf_child :: task_struct
  vf_lock :: "vf_side option"
  vf_done :: nat
  vf_parent :: parent_pc
  vf_pc :: child_pc
  vf_bad :: bool

definition frame_live :: "vf_state \<Rightarrow> bool" where
  "frame_live s = (case vf_parent s of P_returned _ \<Rightarrow> False | _ \<Rightarrow> True)"

inductive parent_step :: "vf_state \<Rightarrow> vf_state \<Rightarrow> bool" where
  p_done: "vf_parent s = P_wait \<Longrightarrow> 0 < vf_done s \<Longrightarrow> parent_step s (s\<lparr>vf_done := vf_done s - 1, vf_parent := P_put None\<rparr>)"
| p_killed: "vf_parent s = P_wait \<Longrightarrow> parent_step s (s\<lparr>vf_parent := P_kill_lock\<rparr>)"
| p_lock: "vf_parent s = P_kill_lock \<Longrightarrow> vf_lock s = None \<Longrightarrow> parent_step s (s\<lparr>vf_lock := Some Parent, vf_parent := P_kill_clear\<rparr>)"
| p_clear: "vf_parent s = P_kill_clear \<Longrightarrow>
     parent_step s (s\<lparr>vf_child := (vf_child s)\<lparr>ts_vfork_done := None\<rparr>, vf_parent := P_kill_unlock\<rparr>)"
| p_unlock: "vf_parent s = P_kill_unlock \<Longrightarrow> parent_step s (s\<lparr>vf_lock := None, vf_parent := P_put (Some EINTR)\<rparr>)"
| p_put: "vf_parent s = P_put killed \<Longrightarrow>
     parent_step s (s\<lparr>vf_child := (vf_child s)\<lparr>ts_usage := ts_usage (vf_child s) - 1\<rparr>, vf_parent := P_returned killed\<rparr>)"

inductive child_step :: "vf_state \<Rightarrow> vf_state \<Rightarrow> bool" where
  c_skip: "vf_pc s = C_run \<Longrightarrow> ts_vfork_done (vf_child s) = None \<Longrightarrow> child_step s (s\<lparr>vf_pc := C_released\<rparr>)"
| c_test: "vf_pc s = C_run \<Longrightarrow> ts_vfork_done (vf_child s) \<noteq> None \<Longrightarrow> child_step s (s\<lparr>vf_pc := C_lock\<rparr>)"
| c_lock: "vf_pc s = C_lock \<Longrightarrow> vf_lock s = None \<Longrightarrow> child_step s (s\<lparr>vf_lock := Some Child, vf_pc := C_read\<rparr>)"
| c_read: "vf_pc s = C_read \<Longrightarrow>
     child_step s (s\<lparr>vf_pc := (case ts_vfork_done (vf_child s) of Some vfork \<Rightarrow> C_clear vfork | None \<Rightarrow> C_unlock)\<rparr>)"
| c_clear: "vf_pc s = C_clear vfork \<Longrightarrow>
     child_step s (s\<lparr>vf_child := (vf_child s)\<lparr>ts_vfork_done := None\<rparr>, vf_pc := C_complete vfork\<rparr>)"
| c_complete: "vf_pc s = C_complete vfork \<Longrightarrow>
     child_step s (s\<lparr>vf_done := vf_done s + 1, vf_bad := vf_bad s \<or> \<not> frame_live s, vf_pc := C_unlock\<rparr>)"
| c_unlock: "vf_pc s = C_unlock \<Longrightarrow> child_step s (s\<lparr>vf_lock := None, vf_pc := C_released\<rparr>)"

definition vf_step :: "vf_state \<Rightarrow> vf_state \<Rightarrow> bool" where
  "vf_step s s' \<longleftrightarrow> parent_step s s' \<or> child_step s s'"

inductive_cases parent_stepE: "parent_step s s'"
inductive_cases child_stepE: "child_step s s'"

text \<open>The state in which \<^verbatim>\<open>kernel_clone\<close> wakes the child: the completion \<open>vfork\<close> is fresh and the child points to it.\<close>

definition vf_start :: "addr \<Rightarrow> task_struct \<Rightarrow> vf_state" where
  "vf_start vfork t =
     \<lparr>vf_child = t\<lparr>ts_vfork_done := Some vfork, ts_usage := ts_usage t + 1\<rparr>, vf_lock = None, vf_done = 0,
      vf_parent = P_wait, vf_pc = C_run, vf_bad = False\<rparr>"

abbreviation vf_reach :: "addr \<Rightarrow> task_struct \<Rightarrow> vf_state \<Rightarrow> bool" where
  "vf_reach vfork t s \<equiv> vf_step\<^sup>*\<^sup>* (vf_start vfork t) s"

section \<open>Invariant\<close>

definition lock_inv :: "vf_state \<Rightarrow> bool" where
  "lock_inv s \<longleftrightarrow>
     (vf_lock s = Some Parent \<longleftrightarrow> vf_parent s = P_kill_clear \<or> vf_parent s = P_kill_unlock) \<and>
     (vf_lock s = Some Child \<longleftrightarrow> vf_pc s = C_read \<or> (\<exists>a. vf_pc s = C_clear a \<or> vf_pc s = C_complete a) \<or> vf_pc s = C_unlock)"

text \<open>
  Who may still signal: before the signal the counter is 0 and a child that has read the pointer holds
  the lock, so the parent has not passed the locked section; after it the pointer is gone.
\<close>

definition signal_inv :: "vf_state \<Rightarrow> bool" where
  "signal_inv s \<longleftrightarrow> \<not> vf_bad s \<and>
     (\<forall>a. vf_pc s = C_clear a \<or> vf_pc s = C_complete a \<longrightarrow> vf_parent s = P_wait \<or> vf_parent s = P_kill_lock) \<and>
     (\<forall>a. vf_pc s = C_complete a \<longrightarrow> ts_vfork_done (vf_child s) = None) \<and>
     (\<forall>r. vf_parent s = P_put r \<or> vf_parent s = P_returned r \<or> vf_parent s = P_kill_unlock \<longrightarrow> ts_vfork_done (vf_child s) = None) \<and>
     (vf_parent s = P_put None \<or> vf_parent s = P_returned None \<or> 0 < vf_done s \<longrightarrow>
        (vf_pc s = C_unlock \<or> vf_pc s = C_released) \<and> ts_vfork_done (vf_child s) = None) \<and>
     (vf_pc s = C_released \<and> vf_parent s = P_wait \<longrightarrow> 0 < vf_done s) \<and>
     (vf_pc s = C_unlock \<and> vf_parent s = P_wait \<longrightarrow> 0 < vf_done s) \<and>
     (vf_parent s = P_wait \<and> (vf_pc s = C_run \<or> vf_pc s = C_lock \<or> vf_pc s = C_read) \<longrightarrow> ts_vfork_done (vf_child s) \<noteq> None)"

lemma vf_start_inv: "lock_inv (vf_start vfork t) \<and> signal_inv (vf_start vfork t)"
  by (simp add: vf_start_def lock_inv_def signal_inv_def)

lemma parent_step_inv:
  assumes "parent_step s s'" and "lock_inv s" and "signal_inv s"
  shows "lock_inv s' \<and> signal_inv s'"
  using assms by (cases rule: parent_step.cases) (auto simp: lock_inv_def signal_inv_def)

lemma child_step_inv:
  assumes "child_step s s'" and "lock_inv s" and "signal_inv s"
  shows "lock_inv s' \<and> signal_inv s'"
  using assms
  by (cases rule: child_step.cases; cases "vf_parent s")
    (auto simp: lock_inv_def signal_inv_def frame_live_def split: option.splits)

lemma vf_reach_inv: "vf_reach vfork t s \<Longrightarrow> lock_inv s \<and> signal_inv s"
  by (induction rule: rtranclp_induct) (auto simp: vf_start_inv vf_step_def dest: parent_step_inv child_step_inv)

section \<open>Progress\<close>

fun parent_left :: "parent_pc \<Rightarrow> nat" where
  "parent_left P_wait = 5"
| "parent_left P_kill_lock = 4"
| "parent_left P_kill_clear = 3"
| "parent_left P_kill_unlock = 2"
| "parent_left (P_put r) = 1"
| "parent_left (P_returned r) = 0"

fun child_left :: "child_pc \<Rightarrow> nat" where
  "child_left C_run = 6"
| "child_left C_lock = 5"
| "child_left C_read = 4"
| "child_left (C_clear a) = 3"
| "child_left (C_complete a) = 2"
| "child_left C_unlock = 1"
| "child_left C_released = 0"

definition vf_left :: "vf_state \<Rightarrow> nat" where
  "vf_left s = parent_left (vf_parent s) + child_left (vf_pc s)"

lemma vf_step_left: "vf_step s s' \<Longrightarrow> vf_left s' < vf_left s"
  unfolding vf_step_def
  by (auto elim!: parent_stepE child_stepE simp: vf_left_def split: option.splits)

lemma vf_steps_left: "(vf_step ^^ n) s s' \<Longrightarrow> vf_left s' + n \<le> vf_left s"
  by (induction n arbitrary: s') (auto dest: vf_step_left, fastforce dest: vf_step_left)

lemma vf_stuck:
  assumes "lock_inv s" and "signal_inv s" and "\<not> (\<exists>s'. vf_step s s')"
  shows "(\<exists>r. vf_parent s = P_returned r) \<and> vf_pc s = C_released"
proof -
  have no: "parent_step s s' = False" "child_step s s' = False" for s' using assms(3) by (auto simp: vf_step_def)
  have child: "vf_pc s = C_released \<or> vf_pc s = C_lock"
    using c_skip [of s, unfolded no] c_test [of s, unfolded no] c_read [of s, unfolded no] c_clear [of s, unfolded no]
      c_complete [of s, unfolded no] c_unlock [of s, unfolded no] by (cases "vf_pc s") auto
  have parent: "(\<exists>r. vf_parent s = P_returned r) \<or> vf_parent s = P_kill_lock"
    using p_killed [of s, unfolded no] p_clear [of s, unfolded no] p_unlock [of s, unfolded no] p_put [of s, unfolded no]
    by (cases "vf_parent s") auto
  have "vf_lock s \<noteq> Some Parent" "vf_lock s \<noteq> Some Child" using assms(1) child parent by (auto simp: lock_inv_def)
  then have "vf_lock s = None" by (metis not_Some_eq vf_side.exhaust)
  with child parent c_lock [of s, unfolded no] p_lock [of s, unfolded no] show ?thesis by auto
qed

section \<open>Properties\<close>

text \<open>
  C6: In every interleaving of a \<^verbatim>\<open>vfork\<close> parent with its child the completion is never signalled after the parent has left the stack
  frame that holds it, even when the parent is killed while it waits. Once the parent has returned,
  the child holds no pointer to the completion any more, and a parent that was not killed returns only after
  the child has signalled.
\<close>

theorem vfork_no_dangling_completion:
  assumes "vf_reach vfork t s"
  shows "\<not> vf_bad s \<and>
    (vf_parent s = P_returned r \<longrightarrow> ts_vfork_done (vf_child s) = None \<and> (\<forall>a. vf_pc s \<noteq> C_clear a \<and> vf_pc s \<noteq> C_complete a)) \<and>
    (vf_parent s = P_returned None \<longrightarrow> vf_pc s = C_unlock \<or> vf_pc s = C_released)"
proof -
  have inv: "signal_inv s" using vf_reach_inv [OF assms] ..
  have "vf_parent s \<noteq> P_wait \<and> vf_parent s \<noteq> P_kill_lock" if "vf_parent s = P_returned r" using that by simp
  with inv show ?thesis unfolding signal_inv_def by blast
qed

text \<open>The run in which the parent is killed and clears the pointer between the child's test and its lock.\<close>

lemma demo_killed_run:
  "\<exists>s. vf_reach 9 zero_task s \<and> vf_parent s = P_returned (Some EINTR) \<and> vf_pc s = C_lock"
proof -
  define s0 where "s0 = vf_start 9 zero_task"
  define s1 where "s1 = s0\<lparr>vf_pc := C_lock\<rparr>"
  define s2 where "s2 = s1\<lparr>vf_parent := P_kill_lock\<rparr>"
  define s3 where "s3 = s2\<lparr>vf_lock := Some Parent, vf_parent := P_kill_clear\<rparr>"
  define s4 where "s4 = s3\<lparr>vf_child := (vf_child s3)\<lparr>ts_vfork_done := None\<rparr>, vf_parent := P_kill_unlock\<rparr>"
  define s5 where "s5 = s4\<lparr>vf_lock := None, vf_parent := P_put (Some EINTR)\<rparr>"
  define s6 where "s6 = s5\<lparr>vf_child := (vf_child s5)\<lparr>ts_usage := ts_usage (vf_child s5) - 1\<rparr>, vf_parent := P_returned (Some EINTR)\<rparr>"
  have f: "vf_pc s0 = C_run" "ts_vfork_done (vf_child s0) \<noteq> None" "vf_parent s0 = P_wait" "vf_lock s0 = None"
    by (simp_all add: s0_def vf_start_def)
  have g: "vf_parent s1 = P_wait" "vf_parent s2 = P_kill_lock" "vf_lock s2 = None" "vf_parent s3 = P_kill_clear" "vf_parent s4 = P_kill_unlock"
    "vf_parent s5 = P_put (Some EINTR)" using f by (simp_all add: s1_def s2_def s3_def s4_def s5_def)
  have "vf_step s0 s1" unfolding vf_step_def s1_def using c_test f by blast
  moreover have "vf_step s1 s2" unfolding vf_step_def s2_def using p_killed g by blast
  moreover have "vf_step s2 s3" unfolding vf_step_def s3_def using p_lock g by blast
  moreover have "vf_step s3 s4" unfolding vf_step_def s4_def using p_clear g by blast
  moreover have "vf_step s4 s5" unfolding vf_step_def s5_def using p_unlock g by blast
  moreover have "vf_step s5 s6" unfolding vf_step_def s6_def using p_put g by blast
  ultimately have "vf_reach 9 zero_task s6"
    unfolding s0_def [symmetric] by (blast intro: converse_rtranclp_into_rtranclp)
  moreover have "vf_parent s6 = P_returned (Some EINTR)" "vf_pc s6 = C_lock"
    by (simp_all add: s6_def s5_def s4_def s3_def s2_def s1_def)
  ultimately show ?thesis by blast
qed

theorem vfork_no_dangling_completion_witness:
  "\<exists>s. vf_reach 9 zero_task s \<and> vf_parent s = P_returned (Some EINTR) \<and> \<not> vf_bad s \<and> ts_vfork_done (vf_child s) = None"
  using demo_killed_run vfork_no_dangling_completion [of 9 zero_task _ "Some EINTR"] by blast



end
