(* ===== verification/Pidfd.thy ===== *)
theory Pidfd
  imports Kernel
begin

text \<open>
  The file operations of a pidfd (\<^verbatim>\<open>kernel/fork.c\<close>): \<^verbatim>\<open>pidfd_pid\<close>, \<^verbatim>\<open>pidfd_release\<close>, \<^verbatim>\<open>pidfd_show_fdinfo\<close> and \<^verbatim>\<open>pidfd_poll\<close>, and the
  initialisation of the pid links of a task. A \<^verbatim>\<open>struct pid\<close> has one number per level of the namespace
  hierarchy. \<^verbatim>\<open>pid_nr_ns\<close> (\<^verbatim>\<open>kernel/pid.c\<close>) and \<^verbatim>\<open>thread_group_exited\<close> (\<^verbatim>\<open>kernel/exit.c\<close>) are parameters; the output of
  \<^verbatim>\<open>show_fdinfo\<close> is the list of the \<^verbatim>\<open>seq_file\<close> calls it makes.
\<close>

record upid =
  up_nr :: int
  up_ns :: addr

record pid_struct =
  pd_count :: int
  pd_level :: nat
  pd_tasks :: "pid_type \<Rightarrow> addr list"
  pd_numbers :: "upid list"

record pid_namespace =
  pn_addr :: addr
  pn_level :: nat

datatype file_operations = Pidfd_fops | Other_fops nat

record pid_file =
  pf_op :: file_operations
  pf_private_data :: ptr

datatype seq_token = Decimal string int | Putc char

definition pidfd_pid :: "pid_file \<Rightarrow> errno + ptr" where
  "pidfd_pid file = (if pf_op file = Pidfd_fops then Inr (pf_private_data file) else Inl EBADF)"

definition pidfd_release :: "pid_file \<Rightarrow> (addr \<rightharpoonup> pid_struct) \<Rightarrow> kret \<times> pid_file \<times> (addr \<rightharpoonup> pid_struct)" where
  "pidfd_release file pids =
     (let pid = pf_private_data file
      in (None, file\<lparr>pf_private_data := None\<rparr>,
          case pid of None \<Rightarrow> pids | Some a \<Rightarrow>
            (case pids a of None \<Rightarrow> pids | Some p \<Rightarrow>
               if pd_count p = 1 then pids(a := None) else pids(a \<mapsto> p\<lparr>pd_count := pd_count p - 1\<rparr>))))"

text \<open>The loop of \<^verbatim>\<open>show_fdinfo\<close>: \<open>i\<close> runs from \<^verbatim>\<open>ns->level + 1\<close> to \<^verbatim>\<open>pid->level\<close>.\<close>

function show_levels :: "pid_struct \<Rightarrow> nat \<Rightarrow> seq_token list" where
  "show_levels pid i =
     (if i \<le> pd_level pid then Decimal [CHR 0x09] (up_nr (pd_numbers pid ! i)) # show_levels pid (i + 1) else [])"
  by pat_completeness auto
termination by (relation "measure (\<lambda>(pid, i). Suc (pd_level pid) - i)") auto

declare show_levels.simps [simp del]

definition pidfd_show_fdinfo :: "(pid_struct \<Rightarrow> pid_namespace \<Rightarrow> int) \<Rightarrow> pid_namespace \<Rightarrow> pid_struct \<Rightarrow> seq_token list" where
  "pidfd_show_fdinfo pid_nr_ns proc_ns pid =
     (let nr = (if pd_tasks pid PIDTYPE_PID \<noteq> [] then pid_nr_ns pid proc_ns else -1)
      in [Decimal (''Pid:'' @ [CHR 0x09]) nr, Decimal (CHR 0x0A # ''NSpid:'' @ [CHR 0x09]) nr] @
         (if 0 < nr then show_levels pid (pn_level proc_ns + 1) else []) @ [Putc (CHR 0x0A)])"

definition EPOLLIN :: u32 where "EPOLLIN = 0x1"
definition EPOLLRDNORM :: u32 where "EPOLLRDNORM = 0x40"

definition pidfd_poll :: "(pid_struct \<Rightarrow> bool) \<Rightarrow> pid_struct \<Rightarrow> u32" where
  "pidfd_poll thread_group_exited pid = (if thread_group_exited pid then EPOLLIN OR EPOLLRDNORM else 0)"

text \<open>Every link of the task is unhashed, in the order of the pid types.\<close>

fun init_links :: "pid_type list \<Rightarrow> (pid_type \<Rightarrow> ptr) \<Rightarrow> (pid_type \<Rightarrow> ptr)" where
  "init_links [] links = links"
| "init_links (ty # tys) links = init_links tys (links(ty := None))"

definition init_task_pid_links :: "(pid_type \<Rightarrow> ptr) \<Rightarrow> (pid_type \<Rightarrow> ptr)" where
  "init_task_pid_links = init_links [PIDTYPE_PID, PIDTYPE_TGID, PIDTYPE_PGID, PIDTYPE_SID]"

section \<open>What is printed\<close>

lemma show_levels_drop:
  assumes "length (pd_numbers pid) = pd_level pid + 1"
  shows "show_levels pid i = map (\<lambda>u. Decimal [CHR 0x09] (up_nr u)) (drop i (pd_numbers pid))"
  using assms
proof (induction pid i rule: show_levels.induct)
  case (1 pid i)
  show ?case
  proof (cases "i \<le> pd_level pid")
    case True
    with 1 have "drop i (pd_numbers pid) = pd_numbers pid ! i # drop (Suc i) (pd_numbers pid)"
      by (simp add: Cons_nth_drop_Suc)
    with True 1 show ?thesis by (subst show_levels.simps) simp
  next
    case False
    with 1(2) show ?thesis by (subst show_levels.simps) simp
  qed
qed

text \<open>The documented behaviour of \<^verbatim>\<open>pid_nr_ns\<close>: the number at the level of the namespace if the pid is visible there, and 0 otherwise.\<close>

definition pid_visible :: "pid_struct \<Rightarrow> pid_namespace \<Rightarrow> bool" where
  "pid_visible pid ns \<longleftrightarrow> pn_level ns \<le> pd_level pid \<and> up_ns (pd_numbers pid ! pn_level ns) = pn_addr ns"

definition pid_nr_ns_ok :: "(pid_struct \<Rightarrow> pid_namespace \<Rightarrow> int) \<Rightarrow> bool" where
  "pid_nr_ns_ok f \<longleftrightarrow> (\<forall>pid ns. f pid ns = (if pid_visible pid ns then up_nr (pd_numbers pid ! pn_level ns) else 0))"

definition pid_wf :: "pid_struct \<Rightarrow> bool" where
  "pid_wf pid \<longleftrightarrow> length (pd_numbers pid) = pd_level pid + 1 \<and> (\<forall>u \<in> set (pd_numbers pid). 0 < up_nr u)"

text \<open>The two lines for a list of numbers.\<close>

definition fdinfo_lines :: "int list \<Rightarrow> seq_token list" where
  "fdinfo_lines nrs =
     [Decimal (''Pid:'' @ [CHR 0x09]) (hd nrs), Decimal (CHR 0x0A # ''NSpid:'' @ [CHR 0x09]) (hd nrs)] @
     map (Decimal [CHR 0x09]) (tl nrs) @ [Putc (CHR 0x0A)]"

text \<open>
  The \<^verbatim>\<open>fdinfo\<close> of a pidfd shows -1 for a process that is gone, a single 0 when the pid is not visible in the namespace of
  the \<^verbatim>\<open>procfs\<close> instance, and otherwise the numbers of the pid in that namespace and all those below it, in order, so that
  the field \<^verbatim>\<open>Pid\<close> and the first entry of \<^verbatim>\<open>NSpid\<close> are identical. The loop reads no number beyond the array.
\<close>

theorem pidfd_show_fdinfo_correct:
  assumes "pid_wf pid" and "pid_nr_ns_ok pid_nr_ns"
  shows "pidfd_show_fdinfo pid_nr_ns ns pid =
    fdinfo_lines (if pd_tasks pid PIDTYPE_PID = [] then [-1]
                  else if pid_visible pid ns then map up_nr (drop (pn_level ns) (pd_numbers pid)) else [0])"
proof -
  have len: "length (pd_numbers pid) = pd_level pid + 1" using assms(1) by (simp add: pid_wf_def)
  have nr: "pid_nr_ns pid ns = (if pid_visible pid ns then up_nr (pd_numbers pid ! pn_level ns) else 0)"
    using assms(2) by (simp add: pid_nr_ns_ok_def)
  show ?thesis
  proof (cases "pd_tasks pid PIDTYPE_PID \<noteq> [] \<and> pid_visible pid ns")
    case True
    then have "pn_level ns < length (pd_numbers pid)" using len by (simp add: pid_visible_def)
    then have "0 < up_nr (pd_numbers pid ! pn_level ns)"
      "drop (pn_level ns) (pd_numbers pid) = pd_numbers pid ! pn_level ns # drop (Suc (pn_level ns)) (pd_numbers pid)"
      using assms(1) by (simp_all add: pid_wf_def Cons_nth_drop_Suc)
    with True nr show ?thesis by (simp add: pidfd_show_fdinfo_def fdinfo_lines_def show_levels_drop [OF len] Let_def o_def)
  next
    case False
    with nr show ?thesis by (auto simp: pidfd_show_fdinfo_def fdinfo_lines_def Let_def)
  qed
qed

definition demo_pid :: pid_struct where
  "demo_pid = \<lparr>pd_count = 2, pd_level = 2, pd_tasks = (\<lambda>_. [10]),
     pd_numbers = [\<lparr>up_nr = 400, up_ns = 1\<rparr>, \<lparr>up_nr = 30, up_ns = 2\<rparr>, \<lparr>up_nr = 1, up_ns = 3\<rparr>]\<rparr>"

definition demo_nr_ns :: "pid_struct \<Rightarrow> pid_namespace \<Rightarrow> int" where
  "demo_nr_ns pid ns = (if pid_visible pid ns then up_nr (pd_numbers pid ! pn_level ns) else 0)"

theorem pidfd_show_fdinfo_correct_witness:
  "pidfd_show_fdinfo demo_nr_ns \<lparr>pn_addr = 2, pn_level = 1\<rparr> demo_pid = fdinfo_lines [30, 1] \<and>
   pidfd_show_fdinfo demo_nr_ns \<lparr>pn_addr = 5, pn_level = 1\<rparr> demo_pid = fdinfo_lines [0]"
proof -
  have "pid_wf demo_pid" "pid_nr_ns_ok demo_nr_ns" by (simp_all add: pid_wf_def demo_pid_def pid_nr_ns_ok_def demo_nr_ns_def)
  note shown = pidfd_show_fdinfo_correct [OF this]
  show ?thesis unfolding shown by (simp add: demo_pid_def pid_visible_def)
qed

end
