(* ===== verification/Pages.thy ===== *)
theory Pages
  imports Kernel
begin

text \<open>
  Page arithmetic on 64-bit addresses: rounding down, rounding up, page numbers and offsets within a page, read as natural
  numbers. The vDSO theories use it.
\<close>

abbreviation (input) PAGE_SHIFT :: nat where "PAGE_SHIFT \<equiv> 12"
abbreviation (input) PMD_SIZE :: u64 where "PMD_SIZE \<equiv> 0x200000"

lemma unat_and_mask [kword]: "unat (w AND mask n :: u64) = unat w mod 2 ^ n"
  by (simp only: take_bit_eq_mask [symmetric] unsigned_take_bit_eq take_bit_nat_def)

lemma and_not_mask: "(w :: u64) AND NOT (mask n) = w - (w AND mask n)"
proof -
  have "(w AND NOT (mask n)) + (w AND mask n) = (w AND NOT (mask n)) OR (w AND mask n)"
    by (rule disjunctive_add) (auto simp: bit_simps)
  also have "\<dots> = w" by (rule bit_word_eqI) (auto simp: bit_simps)
  finally show ?thesis by (simp add: eq_diff_eq)
qed

lemma unat_round_down [kword]: "unat (w AND NOT (mask n) :: u64) = unat w div 2 ^ n * 2 ^ n"
proof -
  have "unat (w AND NOT (mask n)) = unat w - unat (w AND mask n)"
    unfolding and_not_mask by (rule unat_sub) (rule word_and_le2)
  then show ?thesis by (simp add: unat_and_mask minus_mod_eq_div_mult)
qed

lemma unat_shift_down [kword]: "unat (drop_bit n w :: u64) = unat w div 2 ^ n"
  by (simp only: unat_drop_bit_eq drop_bit_nat_def)

lemma unat_shift_up [kword]:
  assumes "unat w * 2 ^ n < 2 ^ 64"
  shows "unat (push_bit n w :: u64) = unat w * 2 ^ n"
proof -
  have "unat (push_bit n w) = take_bit 64 (unat w * 2 ^ n)" by (simp only: unsigned_push_bit_eq push_bit_nat_def) simp
  then show ?thesis using assms by (simp only: take_bit_nat_eq_self)
qed

lemma page_masks: "(0xfff :: u64) = mask 12" "(0x1fffff :: u64) = mask 21"
  by (simp_all add: mask_eq_exp_minus_1)

text \<open>\<^verbatim>\<open>PAGE_ALIGN\<close>: rounding up to a page.\<close>

definition PAGE_ALIGN :: "u64 \<Rightarrow> u64" where
  "PAGE_ALIGN x = ALIGN x PAGE_SIZE"

lemma unat_PAGE_ALIGN [kword]:
  assumes "unat x + 0xfff < 2 ^ 64"
  shows "unat (PAGE_ALIGN x) = (unat x + 0xfff) div 0x1000 * 0x1000"
proof -
  have "unat (x + 0xfff) = unat x + 0xfff" using assms by (subst unat_add_no_wrap) simp_all
  then show ?thesis
    using unat_round_down [of "x + 0xfff" 12] by (simp add: PAGE_ALIGN_def ALIGN_def page_masks [symmetric] mask_eq_exp_minus_1)
qed

lemma PAGE_ALIGN_bounds:
  assumes "unat x + 0xfff < 2 ^ 64"
  shows "unat x \<le> unat (PAGE_ALIGN x)" "unat (PAGE_ALIGN x) < unat x + 0x1000" "unat (PAGE_ALIGN x) mod 0x1000 = 0"
  using unat_PAGE_ALIGN [OF assms] by simp_all

end
