(* ===== verification/Vdso.thy ===== *)
theory Vdso
  imports Pages
begin

text \<open>
  Mapping the vDSO (\<^verbatim>\<open>arch/x86/entry/vdso/vma.c\<close>, x86-64): the three neighbouring areas \<^verbatim>\<open>[vtask]\<close>, \<^verbatim>\<open>[vvar]\<close> and \<^verbatim>\<open>[vdso]\<close>, the choice of a random
  address, and the callers. The memory manager (\<^verbatim>\<open>get_unmapped_area\<close>, \<^verbatim>\<open>_install_special_mapping\<close>, \<^verbatim>\<open>do_munmap\<close>) is the record
  \<open>vd_env\<close>; \<open>vd_ok\<close> says what it is documented to do. \<open>sz\<close> is \<^verbatim>\<open>sizeof(struct task_struct)\<close>, which the configuration fixes.
  The lengths of the areas are 64-bit words; the theorems state where sums do not wrap.
\<close>

section \<open>Images and areas\<close>

record vdso_image =
  im_id :: nat
  im_size :: u64
  im_sym_vvar_start :: c_long
  im_sym_vvar_page :: c_long
  im_sym_pvclock_page :: c_long
  im_sym_hvclock_page :: c_long
  im_sym_timens_page :: c_long
  im_sym_int80_landing_pad :: c_long
  im_sym_vdso32_sigreturn_landing_pad :: c_long
  im_sym_vdso32_rt_sigreturn_landing_pad :: c_long

datatype special_mapping = Vdso_mapping | Vvar_mapping | Vtask_mapping

record sp_area =
  sp_start :: u64
  sp_end :: u64
  sp_flags :: u64
  sp_mapping :: "special_mapping option"

record vd_mm =
  vd_areas :: "sp_area list"
  vd_locked :: bool
  vd_start_stack :: u64
  vd_vdso :: u64
  vd_image :: "vdso_image option"

definition vma_is_special_mapping :: "sp_area \<Rightarrow> special_mapping \<Rightarrow> bool" where
  "vma_is_special_mapping v m = (sp_mapping v = Some m)"

text \<open>Flag bits of \<^verbatim>\<open>linux/mm.h\<close>.\<close>

definition VDSO_FLAGS :: u64 where "VDSO_FLAGS = 0x1 OR 0x4 OR 0x10 OR 0x20 OR 0x40"
definition VVAR_FLAGS :: u64 where "VVAR_FLAGS = 0x1 OR 0x10 OR 0x4000 OR 0x4000000 OR 0x400"
definition VTASK_FLAGS :: u64 where "VTASK_FLAGS = 0x1 OR 0x10 OR 0x4000000 OR 0x4000 OR 0x400 OR 0x2000000"

record vd_env =
  ve_killed :: bool
  ve_unmapped :: "vd_mm \<Rightarrow> u64 \<Rightarrow> u64 \<Rightarrow> errno + u64"
  ve_install :: "vd_mm \<Rightarrow> u64 \<Rightarrow> u64 \<Rightarrow> u64 \<Rightarrow> special_mapping \<Rightarrow> errno + vd_mm"
  ve_munmap :: "vd_mm \<Rightarrow> u64 \<Rightarrow> u64 \<Rightarrow> vd_mm"
  ve_random :: u32
  ve_align :: "u64 \<Rightarrow> u64"

section \<open>Operations\<close>

definition VTASK_SIZE :: "u64 \<Rightarrow> u64" where
  "VTASK_SIZE sz = ALIGN sz PAGE_SIZE + PAGE_SIZE"

definition init_vdso_image :: "vdso_image \<Rightarrow> kevent list" where
  "init_vdso_image img = (if im_size img mod PAGE_SIZE \<noteq> 0 then [Bug] else []) @ [Call ''apply_alternatives'']"

text \<open>
  \<open>map_vdso\<close>: the areas are installed from the top down; a failure takes away those installed before it. The lock is
  released on every path.
\<close>

definition map_vdso :: "vd_env \<Rightarrow> u64 \<Rightarrow> vdso_image \<Rightarrow> u64 \<Rightarrow> vd_mm \<Rightarrow> kret \<times> vd_mm" where
  "map_vdso V sz img addr mm =
     (let vvar_size = - im_sym_vvar_start img in
      if ve_killed V then (Some EINTR, mm)
      else
        let mm = mm\<lparr>vd_locked := True\<rparr>;
            (ret, mm) =
              (case ve_unmapped V mm addr (im_size img - im_sym_vvar_start img + VTASK_SIZE sz) of
                 Inl e \<Rightarrow> (Some e, mm)
               | Inr addr \<Rightarrow>
                   let vtask_start = addr; vvar_start = addr + VTASK_SIZE sz; text_start = addr + VTASK_SIZE sz + vvar_size
                   in case ve_install V mm text_start (im_size img) VDSO_FLAGS Vdso_mapping of
                        Inl e \<Rightarrow> (Some e, mm)
                      | Inr mm \<Rightarrow>
                          (case ve_install V mm vvar_start vvar_size VVAR_FLAGS Vvar_mapping of
                             Inl e \<Rightarrow> (Some e, ve_munmap V mm text_start (im_size img))
                           | Inr mm \<Rightarrow>
                               (case ve_install V mm vtask_start (VTASK_SIZE sz) VTASK_FLAGS Vtask_mapping of
                                  Inl e \<Rightarrow> (Some e, ve_munmap V (ve_munmap V mm text_start (im_size img)) vvar_start vvar_size)
                                | Inr mm \<Rightarrow> (None, mm\<lparr>vd_vdso := text_start, vd_image := Some img\<rparr>))))
        in (ret, mm\<lparr>vd_locked := False\<rparr>))"

definition DEFAULT_MAP_WINDOW :: u64 where
  "DEFAULT_MAP_WINDOW = 0x7ffffffff000"

text \<open>\<^verbatim>\<open>offset\<close> and \<^verbatim>\<open>len\<close> are \<^verbatim>\<open>unsigned\<close>: the remainder is cut to 32 bits and shifted at that width.\<close>

definition vdso_addr :: "vd_env \<Rightarrow> u64 \<Rightarrow> u32 \<Rightarrow> u64" where
  "vdso_addr V start len =
     (let start = PAGE_ALIGN start;
          end0 = (start + ucast len + PMD_SIZE - 1) AND NOT 0x1fffff;
          end1 = (if DEFAULT_MAP_WINDOW \<le> end0 then DEFAULT_MAP_WINDOW else end0);
          end2 = end1 - ucast len;
          addr = (if start < end2
                  then let offset :: u32 = ucast ((ucast (ve_random V) :: u64) mod (drop_bit PAGE_SHIFT (end2 - start) + 1))
                       in start + ucast (push_bit PAGE_SHIFT offset)
                  else start)
      in ve_align V addr)"

definition map_vdso_randomized :: "vd_env \<Rightarrow> u64 \<Rightarrow> vdso_image \<Rightarrow> vd_mm \<Rightarrow> kret \<times> vd_mm" where
  "map_vdso_randomized V sz img mm =
     (let addr = vdso_addr V (vd_start_stack mm) (ucast (im_size img - im_sym_vvar_start img))
      in map_vdso V sz img addr mm)"

fun vdso_mapped :: "sp_area list \<Rightarrow> bool" where
  "vdso_mapped [] = False"
| "vdso_mapped (v # vs) =
     (if vma_is_special_mapping v Vdso_mapping \<or> vma_is_special_mapping v Vvar_mapping then True else vdso_mapped vs)"

definition map_vdso_once :: "vd_env \<Rightarrow> u64 \<Rightarrow> vdso_image \<Rightarrow> u64 \<Rightarrow> vd_mm \<Rightarrow> kret \<times> vd_mm" where
  "map_vdso_once V sz img addr mm =
     (let mm = mm\<lparr>vd_locked := True\<rparr>
      in if vdso_mapped (vd_areas mm) then (Some EEXIST, mm\<lparr>vd_locked := False\<rparr>)
         else map_vdso V sz img addr (mm\<lparr>vd_locked := False\<rparr>))"

text \<open>The configuration of the vDSOs: \<^verbatim>\<open>vdso64_enabled\<close>, \<^verbatim>\<open>vdso32_enabled\<close> and the three images.\<close>

record vd_config =
  vc_vdso64_enabled :: u32
  vc_vdso32_enabled :: u32
  vc_image_64 :: vdso_image
  vc_image_x32 :: vdso_image
  vc_image_32 :: vdso_image

definition load_vdso32 :: "vd_config \<Rightarrow> vd_env \<Rightarrow> u64 \<Rightarrow> vd_mm \<Rightarrow> kret \<times> vd_mm" where
  "load_vdso32 C V sz mm = (if vc_vdso32_enabled C \<noteq> 1 then (None, mm) else map_vdso V sz (vc_image_32 C) 0 mm)"

definition arch_setup_additional_pages :: "vd_config \<Rightarrow> vd_env \<Rightarrow> u64 \<Rightarrow> vd_mm \<Rightarrow> kret \<times> vd_mm" where
  "arch_setup_additional_pages C V sz mm =
     (if vc_vdso64_enabled C = 0 then (None, mm) else map_vdso_randomized V sz (vc_image_64 C) mm)"

definition compat_arch_setup_additional_pages :: "vd_config \<Rightarrow> vd_env \<Rightarrow> u64 \<Rightarrow> bool \<Rightarrow> vd_mm \<Rightarrow> kret \<times> vd_mm" where
  "compat_arch_setup_additional_pages C V sz x32 mm =
     (if x32 then if vc_vdso64_enabled C = 0 then (None, mm) else map_vdso_randomized V sz (vc_image_x32 C) mm
      else load_vdso32 C V sz mm)"

definition vdso_setup :: "(string \<Rightarrow> u64) \<Rightarrow> string \<Rightarrow> vd_config \<Rightarrow> int \<times> vd_config" where
  "vdso_setup simple_strtoul s C = (1, C\<lparr>vc_vdso64_enabled := ucast (simple_strtoul s)\<rparr>)"

definition init_vdso :: "vd_config \<Rightarrow> int \<times> kevent list" where
  "init_vdso C = (0, init_vdso_image (vc_image_64 C) @ init_vdso_image (vc_image_x32 C))"

text \<open>The instruction pointer after the area of the 32-bit vDSO has moved, and the test for its return trampolines.\<close>

definition vdso_fix_landing :: "vd_config \<Rightarrow> bool \<Rightarrow> vdso_image \<Rightarrow> vd_mm \<Rightarrow> sp_area \<Rightarrow> u64 \<Rightarrow> u64" where
  "vdso_fix_landing C in_ia32_syscall img mm new_vma ip =
     (if in_ia32_syscall \<and> im_id img = im_id (vc_image_32 C)
      then let vdso_land = im_sym_int80_landing_pad img; old_land_addr = vdso_land + vd_vdso mm
           in if ip = old_land_addr then sp_start new_vma + vdso_land else ip
      else ip)"

definition vdso_mremap :: "vd_config \<Rightarrow> bool \<Rightarrow> sp_area \<Rightarrow> u64 \<Rightarrow> vd_mm \<Rightarrow> int \<times> u64 \<times> vd_mm" where
  "vdso_mremap C in_ia32_syscall new_vma ip mm =
     (let img = the (vd_image mm);
          ip = vdso_fix_landing C in_ia32_syscall img mm new_vma ip
      in (0, ip, mm\<lparr>vd_vdso := sp_start new_vma\<rparr>))"

definition arch_syscall_is_vdso_sigreturn :: "vd_config \<Rightarrow> bool \<Rightarrow> u64 \<Rightarrow> vd_mm \<Rightarrow> bool" where
  "arch_syscall_is_vdso_sigreturn C in_ia32_syscall ip mm =
     (case vd_image mm of
        None \<Rightarrow> False
      | Some img \<Rightarrow>
          in_ia32_syscall \<and> im_id img = im_id (vc_image_32 C) \<and>
          (ip = vd_vdso mm + im_sym_vdso32_sigreturn_landing_pad img \<or>
           ip = vd_vdso mm + im_sym_vdso32_rt_sigreturn_landing_pad img))"

section \<open>The contract of the memory manager\<close>

definition apart :: "u64 \<Rightarrow> u64 \<Rightarrow> sp_area \<Rightarrow> bool" where
  "apart s l v \<longleftrightarrow> unat (sp_end v) \<le> unat s \<or> unat s + unat l \<le> unat (sp_start v)"

definition within :: "u64 \<Rightarrow> u64 \<Rightarrow> sp_area \<Rightarrow> bool" where
  "within s l v \<longleftrightarrow> unat s \<le> unat (sp_start v) \<and> unat (sp_end v) \<le> unat s + unat l"

definition sp_new :: "u64 \<Rightarrow> u64 \<Rightarrow> u64 \<Rightarrow> special_mapping \<Rightarrow> sp_area" where
  "sp_new s l f m = \<lparr>sp_start = s, sp_end = s + l, sp_flags = f, sp_mapping = Some m\<rparr>"

text \<open>
  \<^verbatim>\<open>get_unmapped_area\<close> returns a free range that does not wrap; \<^verbatim>\<open>_install_special_mapping\<close> adds one area to the list and nothing else; \<^verbatim>\<open>do_munmap\<close>
  of a range that cuts no area in two removes the areas in it.
\<close>

definition vd_ok :: "vd_env \<Rightarrow> bool" where
  "vd_ok V \<longleftrightarrow>
     (\<forall>mm a l r. ve_unmapped V mm a l = Inr r \<longrightarrow> unat r + unat l < 2 ^ 64 \<and> (\<forall>v \<in> set (vd_areas mm). apart r l v)) \<and>
     (\<forall>mm s l f m mm'. ve_install V mm s l f m = Inr mm' \<longrightarrow>
        (\<exists>xs ys. vd_areas mm = xs @ ys \<and> mm' = mm\<lparr>vd_areas := xs @ sp_new s l f m # ys\<rparr>)) \<and>
     (\<forall>mm s l. (\<forall>v \<in> set (vd_areas mm). apart s l v \<or> within s l v) \<longrightarrow>
        ve_munmap V mm s l = mm\<lparr>vd_areas := filter (apart s l) (vd_areas mm)\<rparr>)"

text \<open>An image and a task size whose areas are not empty and whose total length does not wrap.\<close>

definition image_ok :: "u64 \<Rightarrow> vdso_image \<Rightarrow> bool" where
  "image_ok sz img \<longleftrightarrow> 0 < unat (im_size img) \<and> 0 < unat (- im_sym_vvar_start img) \<and> 0 < unat (VTASK_SIZE sz) \<and>
     unat (im_size img) + unat (- im_sym_vvar_start img) + unat (VTASK_SIZE sz) < 2 ^ 64"

lemma vd_unmappedD:
  "vd_ok V \<Longrightarrow> ve_unmapped V mm a l = Inr r \<Longrightarrow> unat r + unat l < 2 ^ 64"
  "vd_ok V \<Longrightarrow> ve_unmapped V mm a l = Inr r \<Longrightarrow> v \<in> set (vd_areas mm) \<Longrightarrow> apart r l v"
  unfolding vd_ok_def by blast+

lemma vd_installE:
  assumes "vd_ok V" and "ve_install V mm s l f m = Inr mm'"
  obtains xs ys where "vd_areas mm = xs @ ys" "mm' = mm\<lparr>vd_areas := xs @ sp_new s l f m # ys\<rparr>"
  using assms unfolding vd_ok_def by blast

lemma vd_munmapD:
  "vd_ok V \<Longrightarrow> (\<And>v. v \<in> set (vd_areas mm) \<Longrightarrow> apart s l v \<or> within s l v) \<Longrightarrow>
    ve_munmap V mm s l = mm\<lparr>vd_areas := filter (apart s l) (vd_areas mm)\<rparr>"
  unfolding vd_ok_def by blast

lemma apart_sub:
  "apart s l v \<Longrightarrow> unat s \<le> unat s' \<Longrightarrow> unat s' + unat l' \<le> unat s + unat l \<Longrightarrow> apart s' l' v"
  by (auto simp: apart_def)

lemma install_set:
  assumes "vd_ok V" and "ve_install V mm s l f m = Inr mm'"
  shows "set (vd_areas mm') = insert (sp_new s l f m) (set (vd_areas mm))" and "mm'\<lparr>vd_areas := as\<rparr> = mm\<lparr>vd_areas := as\<rparr>"
proof -
  obtain xs ys where "vd_areas mm = xs @ ys" "mm' = mm\<lparr>vd_areas := xs @ sp_new s l f m # ys\<rparr>"
    using vd_installE [OF assms] .
  then show "set (vd_areas mm') = insert (sp_new s l f m) (set (vd_areas mm))" "mm'\<lparr>vd_areas := as\<rparr> = mm\<lparr>vd_areas := as\<rparr>" by simp_all
qed

lemma install_filter:
  assumes "vd_ok V" and "ve_install V mm s l f m = Inr mm'" and "\<not> P (sp_new s l f m)"
  shows "filter P (vd_areas mm') = filter P (vd_areas mm)"
proof -
  obtain xs ys where "vd_areas mm = xs @ ys" "mm' = mm\<lparr>vd_areas := xs @ sp_new s l f m # ys\<rparr>"
    using vd_installE [OF assms(1,2)] .
  with assms(3) show ?thesis by simp
qed

section \<open>The three areas\<close>

text \<open>Where \<^verbatim>\<open>map_vdso\<close> puts the areas in a range that starts at \<open>a\<close>.\<close>

definition vtask_area :: "u64 \<Rightarrow> u64 \<Rightarrow> sp_area" where
  "vtask_area sz a = sp_new a (VTASK_SIZE sz) VTASK_FLAGS Vtask_mapping"

definition vvar_area :: "u64 \<Rightarrow> vdso_image \<Rightarrow> u64 \<Rightarrow> sp_area" where
  "vvar_area sz img a = sp_new (a + VTASK_SIZE sz) (- im_sym_vvar_start img) VVAR_FLAGS Vvar_mapping"

definition text_area :: "u64 \<Rightarrow> vdso_image \<Rightarrow> u64 \<Rightarrow> sp_area" where
  "text_area sz img a = sp_new (a + VTASK_SIZE sz + - im_sym_vvar_start img) (im_size img) VDSO_FLAGS Vdso_mapping"

text \<open>The addresses as numbers.\<close>

lemma area_numbers:
  assumes "image_ok sz img" and "unat a + unat (im_size img - im_sym_vvar_start img + VTASK_SIZE sz) < 2 ^ 64"
  shows "unat (a + VTASK_SIZE sz) = unat a + unat (VTASK_SIZE sz)"
    and "unat (a + VTASK_SIZE sz + - im_sym_vvar_start img) = unat a + unat (VTASK_SIZE sz) + unat (- im_sym_vvar_start img)"
    and "unat (a + VTASK_SIZE sz + - im_sym_vvar_start img + im_size img) =
      unat a + unat (VTASK_SIZE sz) + unat (- im_sym_vvar_start img) + unat (im_size img)"
    and "unat (im_size img - im_sym_vvar_start img + VTASK_SIZE sz) =
      unat (im_size img) + unat (- im_sym_vvar_start img) + unat (VTASK_SIZE sz)"
proof -
  note ok = assms(1) [unfolded image_ok_def]
  have "unat (im_size img + - im_sym_vvar_start img) = unat (im_size img) + unat (- im_sym_vvar_start img)"
    using ok by (intro unat_add_no_wrap) simp
  moreover have "unat (im_size img + - im_sym_vvar_start img + VTASK_SIZE sz) =
      unat (im_size img + - im_sym_vvar_start img) + unat (VTASK_SIZE sz)"
    using ok calculation by (intro unat_add_no_wrap) simp
  ultimately show len: "unat (im_size img - im_sym_vvar_start img + VTASK_SIZE sz) =
      unat (im_size img) + unat (- im_sym_vvar_start img) + unat (VTASK_SIZE sz)" by simp
  show 1: "unat (a + VTASK_SIZE sz) = unat a + unat (VTASK_SIZE sz)"
    using assms(2) len by (intro unat_add_no_wrap) simp
  show 2: "unat (a + VTASK_SIZE sz + - im_sym_vvar_start img) = unat a + unat (VTASK_SIZE sz) + unat (- im_sym_vvar_start img)"
    using assms(2) len 1 by (subst unat_add_no_wrap) simp_all
  show "unat (a + VTASK_SIZE sz + - im_sym_vvar_start img + im_size img) =
      unat a + unat (VTASK_SIZE sz) + unat (- im_sym_vvar_start img) + unat (im_size img)"
    using assms(2) len 2 by (subst unat_add_no_wrap) simp_all
qed

text \<open>\<open>a\<close> is the start of a free range of the length that \<^verbatim>\<open>map_vdso\<close> asks for.\<close>

definition free_range :: "u64 \<Rightarrow> vdso_image \<Rightarrow> u64 \<Rightarrow> vd_mm \<Rightarrow> bool" where
  "free_range sz img a mm \<longleftrightarrow> unat a + unat (im_size img - im_sym_vvar_start img + VTASK_SIZE sz) < 2 ^ 64 \<and>
     (\<forall>v \<in> set (vd_areas mm). apart a (im_size img - im_sym_vvar_start img + VTASK_SIZE sz) v)"

abbreviation (input) apart_text :: "u64 \<Rightarrow> vdso_image \<Rightarrow> u64 \<Rightarrow> sp_area \<Rightarrow> bool" where
  "apart_text sz img a \<equiv> apart (a + VTASK_SIZE sz + - im_sym_vvar_start img) (im_size img)"

abbreviation (input) apart_vvar :: "u64 \<Rightarrow> vdso_image \<Rightarrow> u64 \<Rightarrow> sp_area \<Rightarrow> bool" where
  "apart_vvar sz img a \<equiv> apart (a + VTASK_SIZE sz) (- im_sym_vvar_start img)"

lemma areas_apart:
  assumes "image_ok sz img" and "free_range sz img a mm"
  shows "v \<in> set (vd_areas mm) \<Longrightarrow> apart_text sz img a v \<and> apart_vvar sz img a v \<and> apart a (VTASK_SIZE sz) v"
    and "\<not> apart_text sz img a (text_area sz img a)" and "apart_vvar sz img a (text_area sz img a)"
    and "\<not> apart_vvar sz img a (vvar_area sz img a)" and "apart_text sz img a (vvar_area sz img a)"
    and "within (a + VTASK_SIZE sz + - im_sym_vvar_start img) (im_size img) (text_area sz img a)"
    and "within (a + VTASK_SIZE sz) (- im_sym_vvar_start img) (vvar_area sz img a)"
proof -
  note n = area_numbers [OF assms(1), of a] and ok = assms(1) [unfolded image_ok_def]
  have w: "unat a + unat (im_size img - im_sym_vvar_start img + VTASK_SIZE sz) < 2 ^ 64" using assms(2) by (simp add: free_range_def)
  note n = n [OF this]
  show "apart_text sz img a v \<and> apart_vvar sz img a v \<and> apart a (VTASK_SIZE sz) v" if "v \<in> set (vd_areas mm)"
  proof -
    have "apart a (im_size img - im_sym_vvar_start img + VTASK_SIZE sz) v" using assms(2) that by (simp add: free_range_def)
    then show ?thesis unfolding apart_def n by linarith
  qed
  show "\<not> apart_text sz img a (text_area sz img a)" "apart_vvar sz img a (text_area sz img a)"
    "\<not> apart_vvar sz img a (vvar_area sz img a)" "apart_text sz img a (vvar_area sz img a)"
    "within (a + VTASK_SIZE sz + - im_sym_vvar_start img) (im_size img) (text_area sz img a)"
    "within (a + VTASK_SIZE sz) (- im_sym_vvar_start img) (vvar_area sz img a)"
    using ok unfolding apart_def within_def text_area_def vvar_area_def sp_new_def sp_area.simps n by simp_all
qed

lemma map_vdso_undo:
  assumes V: "vd_ok V" and img: "image_ok sz img" and free: "free_range sz img a mm"
    and txti: "ve_install V mm (a + VTASK_SIZE sz + - im_sym_vvar_start img) (im_size img) VDSO_FLAGS Vdso_mapping = Inr mm1"
  shows "ve_munmap V mm1 (a + VTASK_SIZE sz + - im_sym_vvar_start img) (im_size img) = mm"
    and "ve_install V mm1 (a + VTASK_SIZE sz) (- im_sym_vvar_start img) VVAR_FLAGS Vvar_mapping = Inr mm2 \<Longrightarrow>
      ve_munmap V (ve_munmap V mm2 (a + VTASK_SIZE sz + - im_sym_vvar_start img) (im_size img)) (a + VTASK_SIZE sz) (- im_sym_vvar_start img) = mm"
proof -
  let ?T = "apart_text sz img a" and ?R = "apart_vvar sz img a"
  note ap = areas_apart [OF img free]
  note t = install_set [OF V txti, folded text_area_def] install_filter [OF V txti, folded text_area_def]
  have keep: "filter ?T (vd_areas mm) = vd_areas mm" "filter ?R (vd_areas mm) = vd_areas mm"
    using ap(1) by (auto simp: filter_id_conv)
  have "ve_munmap V mm1 (a + VTASK_SIZE sz + - im_sym_vvar_start img) (im_size img) = mm1\<lparr>vd_areas := filter ?T (vd_areas mm1)\<rparr>"
    using ap(1,6) t(1) by (intro vd_munmapD [OF V]) auto
  then show "ve_munmap V mm1 (a + VTASK_SIZE sz + - im_sym_vvar_start img) (im_size img) = mm"
    using t(2) t(3) [of ?T, OF ap(2)] keep by simp
  assume vvar: "ve_install V mm1 (a + VTASK_SIZE sz) (- im_sym_vvar_start img) VVAR_FLAGS Vvar_mapping = Inr mm2"
  note r = install_set [OF V vvar, folded vvar_area_def] install_filter [OF V vvar, folded vvar_area_def]
  have m1: "ve_munmap V mm2 (a + VTASK_SIZE sz + - im_sym_vvar_start img) (im_size img) = mm2\<lparr>vd_areas := filter ?T (vd_areas mm2)\<rparr>"
    using ap(1,5,6) t(1) r(1) by (intro vd_munmapD [OF V]) auto
  have m2: "ve_munmap V (mm2\<lparr>vd_areas := filter ?T (vd_areas mm2)\<rparr>) (a + VTASK_SIZE sz) (- im_sym_vvar_start img) =
      mm2\<lparr>vd_areas := filter ?R (filter ?T (vd_areas mm2))\<rparr>"
    using ap(1,3,7) t(1) r(1) by (subst vd_munmapD [OF V]) auto
  have "filter ?R (filter ?T (vd_areas mm2)) = filter ?R (filter ?T (vd_areas mm1))"
    using r(3) [of "\<lambda>v. ?R v \<and> ?T v"] ap(4) by (simp add: conj_commute)
  also have "\<dots> = vd_areas mm" using t(3) [of ?T, OF ap(2)] keep by simp
  finally show "ve_munmap V (ve_munmap V mm2 (a + VTASK_SIZE sz + - im_sym_vvar_start img) (im_size img)) (a + VTASK_SIZE sz) (- im_sym_vvar_start img) = mm"
    unfolding m1 m2 using t(2) r(2) by simp
qed

section \<open>Properties of the mapping\<close>

text \<open>
  A memory manager that always offers the same range, puts new areas in front, and refuses one kind of area: it satisfies the contract.
\<close>

definition demo_vd_env :: "special_mapping option \<Rightarrow> vd_env" where
  "demo_vd_env refuse =
     \<lparr>ve_killed = False,
      ve_unmapped = (\<lambda>mm a l. if unat (0x7ff000000000 :: u64) + unat l < 2 ^ 64 \<and> (\<forall>v \<in> set (vd_areas mm). apart 0x7ff000000000 l v)
        then Inr 0x7ff000000000 else Inl ENOMEM),
      ve_install = (\<lambda>mm s l f m. if refuse = Some m then Inl ENOMEM else Inr (mm\<lparr>vd_areas := sp_new s l f m # vd_areas mm\<rparr>)),
      ve_munmap = (\<lambda>mm s l. mm\<lparr>vd_areas := filter (apart s l) (vd_areas mm)\<rparr>),
      ve_random = 1000, ve_align = (\<lambda>a. a)\<rparr>"

definition demo_image :: vdso_image where
  "demo_image = \<lparr>im_id = 64, im_size = 0x2000, im_sym_vvar_start = - 0x4000, im_sym_vvar_page = - 0x4000, im_sym_pvclock_page = - 0x3000,
     im_sym_hvclock_page = - 0x2000, im_sym_timens_page = - 0x1000, im_sym_int80_landing_pad = 0,
     im_sym_vdso32_sigreturn_landing_pad = 0, im_sym_vdso32_rt_sigreturn_landing_pad = 0\<rparr>"

definition demo_vd_mm :: vd_mm where
  "demo_vd_mm = \<lparr>vd_areas = [\<lparr>sp_start = 0x400000, sp_end = 0x500000, sp_flags = 5, sp_mapping = None\<rparr>], vd_locked = False,
     vd_start_stack = 0x7ffd00000000, vd_vdso = 0, vd_image = None\<rparr>"

lemma demo_vd_ok: "vd_ok (demo_vd_env refuse)"
  unfolding vd_ok_def demo_vd_env_def by (auto split: if_splits intro: exI [of _ "[]"])

lemma demo_image_ok: "image_ok 0x2500 demo_image" and demo_VTASK_SIZE: "VTASK_SIZE 0x2500 = 0x4000"
  by (simp_all add: image_ok_def demo_image_def VTASK_SIZE_def ALIGN_def)

text \<open>
  C14: When \<^verbatim>\<open>map_vdso\<close> fails, at whichever of its steps, the address space is exactly as it was: no area is left behind, none of the
  others is touched, the context is not changed and the lock is released.
\<close>

theorem map_vdso_fails_clean:
  assumes "vd_ok V" and "image_ok sz img" and "\<not> vd_locked mm" and "map_vdso V sz img addr mm = (Some e, mm')"
  shows "mm' = mm"
proof (cases "ve_killed V")
  case True
  with assms(4) show ?thesis by (simp add: map_vdso_def Let_def)
next
  case alive: False
  let ?mm = "mm\<lparr>vd_locked := True\<rparr>"
  have unlock: "?mm\<lparr>vd_locked := False\<rparr> = mm" using assms(3) by simp
  show ?thesis
  proof (cases "ve_unmapped V ?mm addr (im_size img - im_sym_vvar_start img + VTASK_SIZE sz)")
    case (Inl e')
    with alive assms(4) unlock show ?thesis by (simp add: map_vdso_def Let_def)
  next
    case u: (Inr a)
    have free: "free_range sz img a ?mm" using vd_unmappedD [OF assms(1) u] by (simp add: free_range_def)
    show ?thesis
    proof (cases "ve_install V ?mm (a + VTASK_SIZE sz + - im_sym_vvar_start img) (im_size img) VDSO_FLAGS Vdso_mapping")
      case (Inl e')
      with alive assms(4) unlock u show ?thesis by (simp add: map_vdso_def Let_def)
    next
      case t: (Inr mm1)
      note undo = map_vdso_undo [OF assms(1,2) free t]
      show ?thesis
      proof (cases "ve_install V mm1 (a + VTASK_SIZE sz) (- im_sym_vvar_start img) VVAR_FLAGS Vvar_mapping")
        case (Inl e')
        with alive assms(4) unlock u t undo(1) show ?thesis by (simp add: map_vdso_def Let_def)
      next
        case r: (Inr mm2)
        with alive assms(4) unlock u t undo(2) [OF r] show ?thesis
          by (auto simp: map_vdso_def Let_def split: sum.splits)
      qed
    qed
  qed
qed

theorem map_vdso_fails_clean_witness:
  "map_vdso (demo_vd_env (Some Vtask_mapping)) 0x2500 demo_image 0 demo_vd_mm = (Some ENOMEM, demo_vd_mm)"
proof -
  have "fst (map_vdso (demo_vd_env (Some Vtask_mapping)) 0x2500 demo_image 0 demo_vd_mm) = Some ENOMEM"
    by (simp add: map_vdso_def demo_vd_env_def demo_VTASK_SIZE demo_image_def demo_vd_mm_def apart_def del: filter.simps)
  moreover obtain r mm' where "map_vdso (demo_vd_env (Some Vtask_mapping)) 0x2500 demo_image 0 demo_vd_mm = (r, mm')" by fastforce
  ultimately show ?thesis
    using map_vdso_fails_clean [OF demo_vd_ok demo_image_ok, of demo_vd_mm "Some Vtask_mapping" 0 ENOMEM mm'] by (simp add: demo_vd_mm_def)
qed

text \<open>
  C24: When \<^verbatim>\<open>map_vdso\<close> succeeds, the areas \<^verbatim>\<open>[vtask]\<close>, \<^verbatim>\<open>[vvar]\<close> and \<^verbatim>\<open>[vdso]\<close> lie next to each other, in this order and without a gap, in the range that was asked for;
  they overlap no other area, nothing else is mapped, the context points to the start of the text and the lock is released.
\<close>

theorem map_vdso_layout:
  assumes "vd_ok V" and "image_ok sz img" and "map_vdso V sz img addr mm = (None, mm')"
  shows "\<exists>a. set (vd_areas mm') = {vtask_area sz a, vvar_area sz img a, text_area sz img a} \<union> set (vd_areas mm) \<and>
    sp_end (vtask_area sz a) = sp_start (vvar_area sz img a) \<and> sp_end (vvar_area sz img a) = sp_start (text_area sz img a) \<and>
    unat (sp_start (vtask_area sz a)) < unat (sp_end (vtask_area sz a)) \<and> unat (sp_start (vvar_area sz img a)) < unat (sp_end (vvar_area sz img a)) \<and>
    unat (sp_start (text_area sz img a)) < unat (sp_end (text_area sz img a)) \<and>
    (\<forall>v \<in> set (vd_areas mm). unat (sp_end v) \<le> unat (sp_start (vtask_area sz a)) \<or> unat (sp_end (text_area sz img a)) \<le> unat (sp_start v)) \<and>
    vd_vdso mm' = sp_start (text_area sz img a) \<and> vd_image mm' = Some img \<and> \<not> vd_locked mm'"
proof -
  let ?mm = "mm\<lparr>vd_locked := True\<rparr>"
  obtain a mm1 mm2 mm3 where u: "ve_unmapped V ?mm addr (im_size img - im_sym_vvar_start img + VTASK_SIZE sz) = Inr a"
    and t: "ve_install V ?mm (a + VTASK_SIZE sz + - im_sym_vvar_start img) (im_size img) VDSO_FLAGS Vdso_mapping = Inr mm1"
    and r: "ve_install V mm1 (a + VTASK_SIZE sz) (- im_sym_vvar_start img) VVAR_FLAGS Vvar_mapping = Inr mm2"
    and k: "ve_install V mm2 a (VTASK_SIZE sz) VTASK_FLAGS Vtask_mapping = Inr mm3"
    and mm': "mm' = mm3\<lparr>vd_vdso := a + VTASK_SIZE sz + - im_sym_vvar_start img, vd_image := Some img, vd_locked := False\<rparr>"
    using assms(3) by (auto simp: map_vdso_def Let_def split: if_splits sum.splits)
  have w: "unat a + unat (im_size img - im_sym_vvar_start img + VTASK_SIZE sz) < 2 ^ 64" using vd_unmappedD(1) [OF assms(1) u] .
  note n = area_numbers [OF assms(2) w]
  have set: "set (vd_areas mm') = {vtask_area sz a, vvar_area sz img a, text_area sz img a} \<union> set (vd_areas mm)"
    using install_set(1) [OF assms(1) t] install_set(1) [OF assms(1) r] install_set(1) [OF assms(1) k]
    by (simp add: mm' vtask_area_def vvar_area_def text_area_def insert_commute)
  moreover have "\<forall>v \<in> set (vd_areas mm). unat (sp_end v) \<le> unat (sp_start (vtask_area sz a)) \<or> unat (sp_end (text_area sz img a)) \<le> unat (sp_start v)"
  proof
    fix v assume "v \<in> set (vd_areas mm)"
    then have "apart a (im_size img - im_sym_vvar_start img + VTASK_SIZE sz) v" using vd_unmappedD(2) [OF assms(1) u] by simp
    then show "unat (sp_end v) \<le> unat (sp_start (vtask_area sz a)) \<or> unat (sp_end (text_area sz img a)) \<le> unat (sp_start v)"
      unfolding apart_def n vtask_area_def text_area_def sp_new_def sp_area.simps by linarith
  qed
  ultimately show ?thesis
    using assms(2) n
    by (intro exI [of _ a]) (simp add: mm' image_ok_def vtask_area_def vvar_area_def text_area_def sp_new_def)
qed

theorem map_vdso_layout_witness:
  "\<exists>mm'. map_vdso (demo_vd_env None) 0x2500 demo_image 0 demo_vd_mm = (None, mm') \<and> vd_vdso mm' = 0x7ff000008000"
proof -
  obtain mm' where m: "map_vdso (demo_vd_env None) 0x2500 demo_image 0 demo_vd_mm = (None, mm')"
    and a: "vtask_area 0x2500 0x7ff000000000 \<in> set (vd_areas mm')" and f: "vd_vdso mm' = 0x7ff000008000"
    by (simp add: map_vdso_def demo_vd_env_def demo_VTASK_SIZE demo_image_def demo_vd_mm_def apart_def vtask_area_def)
  from map_vdso_layout [OF demo_vd_ok demo_image_ok m] m f show ?thesis by blast
qed

section \<open>The random address\<close>

lemma vdso_addr_end:
  fixes s :: u64 and len :: u32
  assumes "unat s + unat len + 0x1fffff < 2 ^ 64"
  shows "unat ((s + ucast len + PMD_SIZE - 1) AND NOT 0x1fffff) = (unat s + unat len + 0x1fffff) div 0x200000 * 0x200000"
proof -
  have "unat (s + ucast len) = unat s + unat len"
    using assms by (subst unat_add_no_wrap) (simp_all add: unat_ucast_u32)
  then have "unat (s + ucast len + 0x1fffff) = unat s + unat len + 0x1fffff"
    using assms by (subst unat_add_no_wrap) simp_all
  moreover have "s + ucast len + PMD_SIZE - 1 = s + ucast len + 0x1fffff" by simp
  ultimately show ?thesis using unat_round_down [of "s + ucast len + 0x1fffff" 21] unfolding page_masks by (simp add: mask_eq_exp_minus_1 add.commute)
qed

text \<open>The offset within the range: no bit is lost in the 32-bit remainder and shift.\<close>

lemma vdso_addr_offset:
  fixes d :: u64 and r :: u32
  assumes "unat d < 0x200000"
  defines "off \<equiv> (ucast ((ucast r :: u64) mod (drop_bit 12 d + 1)) :: u32)"
  shows "\<exists>k. unat (ucast (push_bit 12 off) :: u64) = k * 0x1000 \<and> k * 0x1000 \<le> unat d"
proof -
  define k where "k = unat r mod (unat d div 0x1000 + 1)"
  have k: "k \<le> unat d div 0x1000" unfolding k_def by (simp add: less_Suc_eq_le [symmetric])
  then have k2: "k * 0x1000 \<le> unat d" by (meson div_times_less_eq_dividend le_trans mult_le_mono1)
  have "unat (drop_bit 12 d + 1) = unat d div 0x1000 + 1"
    using assms(1) by (subst unat_add_no_wrap) (simp_all add: unat_shift_down)
  then have m: "unat ((ucast r :: u64) mod (drop_bit 12 d + 1)) = k"
    by (simp add: unat_mod unat_ucast_u32 k_def)
  have "k < 2 ^ 32" using k2 assms(1) by simp
  with m have off: "unat off = k" unfolding off_def by (simp add: unsigned_ucast_eq take_bit_nat_eq_self)
  have "unat (push_bit 12 off) = take_bit 32 (unat off * 0x1000)" by (simp only: unsigned_push_bit_eq push_bit_nat_def) simp
  also have "\<dots> = k * 0x1000" using off k2 assms(1) by (simp add: take_bit_nat_eq_self)
  finally have "unat (ucast (push_bit 12 off) :: u64) = k * 0x1000" by (simp add: unat_ucast_u32)
  with k2 show ?thesis by blast
qed





end
