(* ===== verification/Vdso_Fault.thy ===== *)
theory Vdso_Fault
  imports Vdso Sched
begin

text \<open>
  Page faults in the vDSO areas (\<^verbatim>\<open>arch/x86/entry/vdso/vma.c\<close>) and the user code that reads the running task's \<^verbatim>\<open>task_struct\<close> through the
  window \<^verbatim>\<open>[vtask]\<close> (\<^verbatim>\<open>vgetinfo.c\<close>, \<^verbatim>\<open>vget_task_info.c\<close>). A page table maps page addresses to frame numbers. \<^verbatim>\<open>vmf_insert_pfn\<close> and
  \<^verbatim>\<open>zap_page_range\<close> are parameters; \<open>insert_ok\<close> and \<open>zap_ok\<close> say what they are documented to do. What a fault depends on (the
  running task, its time namespace, the clock pages) is the record \<open>fault_env\<close>.
\<close>

section \<open>Fault handlers\<close>

type_synonym page_table = "u64 \<rightharpoonup> u64"

definition VM_FAULT_OOM :: u32 where "VM_FAULT_OOM = 0x1"
definition VM_FAULT_SIGBUS :: u32 where "VM_FAULT_SIGBUS = 0x2"
definition VM_FAULT_NOPAGE :: u32 where "VM_FAULT_NOPAGE = 0x100"
definition VM_FAULT_ERROR :: u32 where "VM_FAULT_ERROR = 0x873"

record fault_env =
  fe_current :: u64
  fe_pid :: c_int
  fe_pa :: "u64 \<Rightarrow> u64"
  fe_same_mm :: bool
  fe_timens_page :: "u64 option"
  fe_vvar_pfn :: u64
  fe_pvti :: "u64 option"
  fe_pvclock_used :: bool
  fe_tsc :: "u64 option"
  fe_hvclock_used :: bool
  fe_alloc :: "u64 option"

type_synonym pfn_insert = "page_table \<Rightarrow> u64 \<Rightarrow> u64 \<Rightarrow> u32 \<times> page_table"

text \<open>The answer of \<^verbatim>\<open>vdso_fault\<close>: the page of the image, by its offset, or a signal.\<close>

definition vdso_fault :: "vdso_image option \<Rightarrow> u64 \<Rightarrow> u64 option" where
  "vdso_fault img pgoff =
     (case img of
        None \<Rightarrow> None
      | Some img \<Rightarrow> if im_size img \<le> push_bit PAGE_SHIFT pgoff then None else Some (push_bit PAGE_SHIFT pgoff))"

definition find_timens_vvar_page :: "fault_env \<Rightarrow> u64 option \<times> kevent list" where
  "find_timens_vvar_page F = (if fe_same_mm F then (fe_timens_page F, []) else (None, [Warn]))"

definition vvar_fault :: "pfn_insert \<Rightarrow> fault_env \<Rightarrow> vdso_image option \<Rightarrow> u64 \<Rightarrow> u64 \<Rightarrow> page_table \<Rightarrow> u32 \<times> page_table" where
  "vvar_fault ins F img pgoff address pt =
     (case img of
        None \<Rightarrow> (VM_FAULT_SIGBUS, pt)
      | Some img \<Rightarrow>
          let sym_offset = push_bit PAGE_SHIFT pgoff + im_sym_vvar_start img
          in if sym_offset = 0 then (VM_FAULT_SIGBUS, pt)
             else if sym_offset = im_sym_vvar_page img
             then let timens_page = fst (find_timens_vvar_page F); pfn = fe_vvar_pfn F
                  in case timens_page of
                       Some page \<Rightarrow>
                         let addr = address + (im_sym_timens_page img - sym_offset);
                             (err, pt) = ins pt addr pfn
                         in if err AND VM_FAULT_ERROR \<noteq> 0 then (err, pt) else ins pt address page
                     | None \<Rightarrow> ins pt address pfn
             else if sym_offset = im_sym_pvclock_page img
             then case fe_pvti F of
                    Some pfn \<Rightarrow> if fe_pvclock_used F then ins pt address pfn else (VM_FAULT_SIGBUS, pt)
                  | None \<Rightarrow> (VM_FAULT_SIGBUS, pt)
             else if sym_offset = im_sym_hvclock_page img
             then case fe_tsc F of
                    Some pfn \<Rightarrow> if fe_hvclock_used F then ins pt address pfn else (VM_FAULT_SIGBUS, pt)
                  | None \<Rightarrow> (VM_FAULT_SIGBUS, pt)
             else if sym_offset = im_sym_timens_page img
             then case fst (find_timens_vvar_page F) of
                    None \<Rightarrow> (VM_FAULT_SIGBUS, pt)
                  | Some _ \<Rightarrow> ins pt address (fe_vvar_pfn F)
             else (VM_FAULT_SIGBUS, pt))"

text \<open>The loop of \<^verbatim>\<open>vdso_join_timens\<close>.\<close>

fun zap_vvars :: "(page_table \<Rightarrow> u64 \<Rightarrow> u64 \<Rightarrow> page_table) \<Rightarrow> sp_area list \<Rightarrow> page_table \<Rightarrow> page_table" where
  "zap_vvars zap [] pt = pt"
| "zap_vvars zap (v # vs) pt =
     (let len = sp_end v - sp_start v
      in zap_vvars zap vs (if vma_is_special_mapping v Vvar_mapping then zap pt (sp_start v) len else pt))"

definition vdso_join_timens :: "(page_table \<Rightarrow> u64 \<Rightarrow> u64 \<Rightarrow> page_table) \<Rightarrow> vd_mm \<Rightarrow> page_table \<Rightarrow> int \<times> page_table" where
  "vdso_join_timens zap mm pt = (0, zap_vvars zap (vd_areas mm) pt)"

text \<open>
  \<^verbatim>\<open>vtask_fault\<close>: the first page is a new one that holds the view of the task, the others are the pages of the
  \<^verbatim>\<open>task_struct\<close>. A new page has the reference of its allocation and the one of \<^verbatim>\<open>get_page\<close>.
\<close>

record my_task_struct_view =
  vw_page_offset :: c_int
  vw_pid :: c_int

datatype vtask_page = View u64 my_task_struct_view nat

definition vtask_fault :: "pfn_insert \<Rightarrow> fault_env \<Rightarrow> u64 \<Rightarrow> u64 \<Rightarrow> u64 \<Rightarrow> page_table \<Rightarrow> u32 \<times> vtask_page option \<times> page_table" where
  "vtask_fault ins F sz pgoff address pt =
     (let offset = push_bit PAGE_SHIFT pgoff
      in if VTASK_SIZE sz \<le> offset then (VM_FAULT_SIGBUS, None, pt)
         else let task_struct_offset = fe_pa F (fe_current F) AND 0xfff
              in if pgoff = 0
                 then case fe_alloc F of
                        None \<Rightarrow> (VM_FAULT_OOM, None, pt)
                      | Some page \<Rightarrow> (0, Some (View page \<lparr>vw_page_offset = ucast task_struct_offset, vw_pid = fe_pid F\<rparr> 2), pt)
                 else case ins pt address (drop_bit PAGE_SHIFT (fe_pa F (fe_current F + offset - PAGE_SIZE))) of
                        (r, pt) \<Rightarrow> (r, None, pt))"

section \<open>The user side\<close>

definition VVAR_SIZE :: u64 where "VVAR_SIZE = 4 * PAGE_SIZE"

text \<open>\<open>vvar_page\<close> is the address of the symbol \<^verbatim>\<open>vvar_page\<close>; \<open>read_view\<close> reads the view at a user address.\<close>

definition get_task_addr :: "(u64 \<Rightarrow> my_task_struct_view) \<Rightarrow> u64 \<Rightarrow> u64" where
  "get_task_addr read_view vvar_page =
     (let view = vvar_page - VVAR_SIZE
      in view + scast (vw_page_offset (read_view view)) + PAGE_SIZE)"

record task_info =
  ti_kaddr :: u64
  ti_pid :: c_int

text \<open>\<open>read_pid\<close> reads the field \<^verbatim>\<open>pid\<close> of the \<^verbatim>\<open>task_struct\<close> at a user address; a null \<open>info\<close> is \<open>False\<close>.\<close>

definition vdso_get_task_struct_info ::
    "(u64 \<Rightarrow> my_task_struct_view) \<Rightarrow> (u64 \<Rightarrow> c_int) \<Rightarrow> u64 \<Rightarrow> bool \<Rightarrow> int \<times> task_info option" where
  "vdso_get_task_struct_info read_view read_pid vvar_page info =
     (if \<not> info then (-1, None)
      else let task = get_task_addr read_view vvar_page
           in (0, Some \<lparr>ti_kaddr = task, ti_pid = read_pid task\<rparr>))"

definition get_task_struct_info ::
    "(u64 \<Rightarrow> my_task_struct_view) \<Rightarrow> (u64 \<Rightarrow> c_int) \<Rightarrow> u64 \<Rightarrow> bool \<Rightarrow> int \<times> task_info option" where
  "get_task_struct_info read_view read_pid vvar_page info = vdso_get_task_struct_info read_view read_pid vvar_page info"

text \<open>
  The variant in \<^verbatim>\<open>vget_task_info.c\<close> runs in kernel mode: the two copies may fail. The pid is written before the pointer.
\<close>

definition vdso_get_task_info :: "u64 option \<Rightarrow> (u64 \<Rightarrow> bool) \<Rightarrow> bool \<Rightarrow> u64 \<Rightarrow> c_int \<Rightarrow> kret \<times> (c_int \<times> u64) option" where
  "vdso_get_task_info info access_ok copy_fails tsk pid =
     (case info of
        None \<Rightarrow> (Some EFAULT, None)
      | Some i \<Rightarrow> if \<not> access_ok i then (Some EFAULT, None)
                  else if copy_fails then (Some EFAULT, None)
                  else (None, Some (pid, tsk)))"

section \<open>The layout of the vvar pages\<close>

definition insert_ok :: "pfn_insert \<Rightarrow> bool" where
  "insert_ok ins \<longleftrightarrow> (\<forall>pt a p. ins pt a p = (VM_FAULT_NOPAGE, pt(a \<mapsto> p)) \<or>
     (\<exists>e. ins pt a p = (e, pt) \<and> e AND VM_FAULT_ERROR \<noteq> 0))"

definition zap_ok :: "(page_table \<Rightarrow> u64 \<Rightarrow> u64 \<Rightarrow> page_table) \<Rightarrow> bool" where
  "zap_ok zap \<longleftrightarrow> (\<forall>pt s l a. zap pt s l a = (if unat s \<le> unat a \<and> unat a < unat s + unat l then None else pt a))"

text \<open>
  The frame that belongs to a symbol offset: inside a time namespace the namespace's page takes the place of the vvar
  page, and the vvar page takes the place of the (otherwise missing) timens page.
\<close>

definition vvar_layout :: "fault_env \<Rightarrow> vdso_image \<Rightarrow> u64 \<Rightarrow> u64 option" where
  "vvar_layout F img so =
     (if so = 0 then None
      else if so = im_sym_vvar_page img then Some (case fe_timens_page F of Some page \<Rightarrow> page | None \<Rightarrow> fe_vvar_pfn F)
      else if so = im_sym_pvclock_page img then (if fe_pvclock_used F then fe_pvti F else None)
      else if so = im_sym_hvclock_page img then (if fe_hvclock_used F then fe_tsc F else None)
      else if so = im_sym_timens_page img then map_option (\<lambda>_. fe_vvar_pfn F) (fe_timens_page F)
      else None)"

text \<open>The entries of the area that starts at \<open>base\<close> agree with the layout; \<open>o\<close> is an offset in the area.\<close>

definition vvar_pt_ok :: "fault_env \<Rightarrow> vdso_image \<Rightarrow> u64 \<Rightarrow> page_table \<Rightarrow> bool" where
  "vvar_pt_ok F img base pt \<longleftrightarrow> (\<forall>off p. unat off < unat (- im_sym_vvar_start img) \<longrightarrow> pt (base + off) = Some p \<longrightarrow>
     vvar_layout F img (off + im_sym_vvar_start img) = Some p)"

definition timens_symbol_ok :: "vdso_image \<Rightarrow> bool" where
  "timens_symbol_ok img \<longleftrightarrow> im_sym_timens_page img \<noteq> 0 \<and>
     im_sym_timens_page img \<notin> {im_sym_vvar_page img, im_sym_pvclock_page img, im_sym_hvclock_page img}"

lemma vvar_pt_ok_insert:
  assumes "vvar_pt_ok F img base pt" and "vvar_layout F img (off + im_sym_vvar_start img) = Some p"
  shows "vvar_pt_ok F img base (pt(base + off \<mapsto> p))"
  using assms unfolding vvar_pt_ok_def by auto

lemma vvar_pt_ok_ins:
  assumes "insert_ok ins" and "vvar_pt_ok F img base pt" and "vvar_layout F img (off + im_sym_vvar_start img) = Some p"
    and "ins pt (base + off) p = (r, pt')"
  shows "vvar_pt_ok F img base pt'" and "r = VM_FAULT_NOPAGE \<Longrightarrow> pt' (base + off) = Some p"
proof -
  have "(r = VM_FAULT_NOPAGE \<and> pt' = pt(base + off \<mapsto> p)) \<or> (pt' = pt \<and> r AND VM_FAULT_ERROR \<noteq> 0)"
    using assms(1,4) unfolding insert_ok_def by (metis Pair_inject)
  moreover have "VM_FAULT_NOPAGE AND VM_FAULT_ERROR = 0" by (simp add: VM_FAULT_NOPAGE_def VM_FAULT_ERROR_def)
  ultimately show "vvar_pt_ok F img base pt'" "r = VM_FAULT_NOPAGE \<Longrightarrow> pt' (base + off) = Some p"
    using vvar_pt_ok_insert [OF assms(2,3)] assms(2) by auto
qed

text \<open>What \<^verbatim>\<open>vvar_fault\<close> does, in terms of the layout.\<close>

lemma vvar_fault_cases:
  fixes img :: vdso_image and pgoff :: u64
  assumes "fe_same_mm F"
  defines "so \<equiv> push_bit 12 pgoff + im_sym_vvar_start img"
  shows "vvar_fault ins F (Some img) pgoff address pt =
    (case vvar_layout F img so of
       None \<Rightarrow> (VM_FAULT_SIGBUS, pt)
     | Some p \<Rightarrow>
         if so = im_sym_vvar_page img \<and> fe_timens_page F \<noteq> None
         then case ins pt (address + (im_sym_timens_page img - so)) (fe_vvar_pfn F) of
                (err, pt) \<Rightarrow> if err AND VM_FAULT_ERROR \<noteq> 0 then (err, pt) else ins pt address p
         else ins pt address p)"
  using assms(1) by (auto simp: vvar_fault_def vvar_layout_def find_timens_vvar_page_def so_def Let_def split: option.split)

text \<open>
  C28: Every fault in \<^verbatim>\<open>[vvar]\<close> keeps the page table in agreement with the layout of the task's time namespace; when it reports success
  the page that was missing is there, and a page that the layout does not have is refused without a change.
  The second page that a fault inside a time namespace maps ahead of time is the right one.
\<close>

theorem vvar_fault_layout:
  assumes "insert_ok ins" and "timens_symbol_ok img" and "fe_same_mm F" and "vvar_pt_ok F img base pt"
    and "vvar_fault ins F (Some img) pgoff (base + push_bit 12 pgoff) pt = (r, pt')"
  shows "vvar_pt_ok F img base pt' \<and>
    (r = VM_FAULT_NOPAGE \<longrightarrow> pt' (base + push_bit 12 pgoff) = vvar_layout F img (push_bit 12 pgoff + im_sym_vvar_start img)) \<and>
    (vvar_layout F img (push_bit 12 pgoff + im_sym_vvar_start img) = None \<longrightarrow> r = VM_FAULT_SIGBUS \<and> pt' = pt)"
proof (cases "vvar_layout F img (push_bit 12 pgoff + im_sym_vvar_start img)")
  case None
  have "VM_FAULT_SIGBUS \<noteq> VM_FAULT_NOPAGE" by (simp add: VM_FAULT_SIGBUS_def VM_FAULT_NOPAGE_def)
  with None assms(4,5) show ?thesis by (auto simp: vvar_fault_cases [OF assms(3)])
next
  case (Some p)
  let ?so = "push_bit 12 pgoff + im_sym_vvar_start img"
  note ins = vvar_pt_ok_ins [OF assms(1)]
  show ?thesis
  proof (cases "?so = im_sym_vvar_page img \<and> fe_timens_page F \<noteq> None")
    case False
    with Some assms(5) have "ins pt (base + push_bit 12 pgoff) p = (r, pt')" by (auto simp: vvar_fault_cases [OF assms(3)])
    with ins [OF assms(4) Some] Some show ?thesis by auto
  next
    case True
    obtain err pt1 where i: "ins pt (base + push_bit 12 pgoff + (im_sym_timens_page img - ?so)) (fe_vvar_pfn F) = (err, pt1)" by fastforce
    have a: "base + push_bit 12 pgoff + (im_sym_timens_page img - ?so) = base + (im_sym_timens_page img - im_sym_vvar_start img)" by simp
    have "vvar_layout F img (im_sym_timens_page img) = Some (fe_vvar_pfn F)"
      using assms(2) True by (auto simp: vvar_layout_def timens_symbol_ok_def)
    then have "vvar_pt_ok F img base pt1"
      using ins(1) [OF assms(4), where off = "im_sym_timens_page img - im_sym_vvar_start img"] i unfolding a by simp
    note second = ins [OF this Some]
    have f: "(if err AND VM_FAULT_ERROR \<noteq> 0 then (err, pt1) else ins pt1 (base + push_bit 12 pgoff) p) = (r, pt')"
      using assms(5) Some True i by (simp add: vvar_fault_cases [OF assms(3)])
    have "VM_FAULT_NOPAGE AND VM_FAULT_ERROR = 0" by (simp add: VM_FAULT_NOPAGE_def VM_FAULT_ERROR_def)
    with f second Some \<open>vvar_pt_ok F img base pt1\<close> show ?thesis by (auto split: if_splits)
  qed
qed

definition demo_fault_env :: "u64 option \<Rightarrow> fault_env" where
  "demo_fault_env timens = \<lparr>fe_current = 0xffff888000012340, fe_pid = 42, fe_pa = (\<lambda>a. a - 0xffff888000000000), fe_same_mm = True,
     fe_timens_page = timens, fe_vvar_pfn = 0x77, fe_pvti = None, fe_pvclock_used = False, fe_tsc = None, fe_hvclock_used = False,
     fe_alloc = Some 0x99\<rparr>"

definition demo_insert :: pfn_insert where
  "demo_insert pt a p = (VM_FAULT_NOPAGE, pt(a \<mapsto> p))"

theorem vvar_fault_layout_witness:
  "snd (vvar_fault demo_insert (demo_fault_env (Some 0x55)) (Some demo_image) 0 0x7ff000004000 Map.empty) 0x7ff000004000 = Some 0x55 \<and>
   snd (vvar_fault demo_insert (demo_fault_env (Some 0x55)) (Some demo_image) 0 0x7ff000004000 Map.empty) 0x7ff000007000 = Some 0x77"
proof -
  have i: "insert_ok demo_insert" by (simp add: insert_ok_def demo_insert_def)
  have t: "timens_symbol_ok demo_image" by (simp add: timens_symbol_ok_def demo_image_def)
  have m: "fe_same_mm (demo_fault_env (Some 0x55))" by (simp add: demo_fault_env_def)
  have p: "vvar_pt_ok (demo_fault_env (Some 0x55)) demo_image 0x7ff000004000 Map.empty" by (simp add: vvar_pt_ok_def)
  obtain r pt' where f: "vvar_fault demo_insert (demo_fault_env (Some 0x55)) (Some demo_image) 0 (0x7ff000004000 + push_bit 12 0) Map.empty = (r, pt')"
    by fastforce
  have e: "r = VM_FAULT_NOPAGE" "pt' 0x7ff000007000 = Some 0x77"
    using f by (auto simp: vvar_fault_def demo_fault_env_def demo_image_def demo_insert_def find_timens_vvar_page_def
        VM_FAULT_NOPAGE_def VM_FAULT_ERROR_def)
  from vvar_fault_layout [OF i t m p f] e(1) have "pt' 0x7ff000004000 = vvar_layout (demo_fault_env (Some 0x55)) demo_image (- 0x4000)"
    by (simp add: demo_image_def)
  then have "pt' 0x7ff000004000 = Some 0x55" by (simp add: vvar_layout_def demo_fault_env_def demo_image_def)
  with e f show ?thesis by simp
qed

section \<open>Changing the time namespace\<close>

lemma zap_vvars_other:
  assumes "zap_ok zap" and "zap_vvars zap vs pt a \<noteq> None"
  shows "zap_vvars zap vs pt a = pt a"
  using assms(2)
proof (induction vs arbitrary: pt)
  case (Cons v vs)
  have zap: "zap pt s l a \<noteq> None \<Longrightarrow> zap pt s l a = pt a" for s l
    using assms(1) [unfolded zap_ok_def, rule_format, of pt s l a] by presburger
  obtain pt1 where pt1: "zap_vvars zap (v # vs) pt a = zap_vvars zap vs pt1 a" "pt1 a \<noteq> None \<Longrightarrow> pt1 a = pt a"
    using zap [of "sp_start v" "sp_end v - sp_start v"]
    by (cases "vma_is_special_mapping v Vvar_mapping") (simp_all add: Let_def)
  then show ?case using Cons.IH [of pt1] Cons.prems by simp
qed simp

lemma zap_vvars_gone:
  assumes "zap_ok zap" and "v \<in> set vs" and "vma_is_special_mapping v Vvar_mapping"
    and "unat (sp_start v) \<le> unat a" and "unat a < unat (sp_start v) + unat (sp_end v - sp_start v)"
  shows "zap_vvars zap vs pt a = None"
  using assms(2)
proof (induction vs arbitrary: pt)
  case (Cons w vs)
  show ?case
  proof (cases "v \<in> set vs")
    case True
    then show ?thesis using Cons.IH by (simp add: Let_def)
  next
    case False
    with Cons.prems have "w = v" by simp
    then have "zap pt (sp_start w) (sp_end w - sp_start w) a = None" using assms(1,4,5) by (simp add: zap_ok_def)
    then show ?thesis
      using zap_vvars_other [OF assms(1), of vs "zap pt (sp_start w) (sp_end w - sp_start w)" a] assms(3) \<open>w = v\<close>
      by (cases "zap_vvars zap vs (zap pt (sp_start w) (sp_end w - sp_start w)) a") (simp_all add: Let_def)
  qed
qed simp

text \<open>
  After \<^verbatim>\<open>vdso_join_timens\<close> the page table agrees with the layout of the new time namespace, whatever namespace the pages were
  faulted in for: every page of every \<^verbatim>\<open>[vvar]\<close> area is unmapped. A page outside these areas is not touched.
\<close>

theorem join_timens_layout:
  assumes "zap_ok zap" and "vdso_join_timens zap mm pt = (r, pt')"
    and "v \<in> set (vd_areas mm)" and "vma_is_special_mapping v Vvar_mapping"
    and "sp_end v - sp_start v = - im_sym_vvar_start img"
    and "unat (sp_start v) + unat (- im_sym_vvar_start img) < 2 ^ 64"
  shows "r = 0 \<and> vvar_pt_ok F img (sp_start v) pt' \<and> (\<forall>a. pt' a \<noteq> None \<longrightarrow> pt' a = pt a)"
proof -
  have pt': "r = 0" "pt' = zap_vvars zap (vd_areas mm) pt" using assms(2) by (simp_all add: vdso_join_timens_def)
  have "pt' (sp_start v + off) = None" if "unat off < unat (- im_sym_vvar_start img)" for off
  proof -
    have "unat (sp_start v + off) = unat (sp_start v) + unat off"
      using that assms(6) by (intro unat_add_no_wrap) simp
    then show ?thesis using zap_vvars_gone [OF assms(1,3,4)] that unfolding pt' assms(5) by simp
  qed
  then show ?thesis using pt' zap_vvars_other [OF assms(1)] by (auto simp: vvar_pt_ok_def)
qed

definition demo_zap :: "page_table \<Rightarrow> u64 \<Rightarrow> u64 \<Rightarrow> page_table" where
  "demo_zap pt s l a = (if unat s \<le> unat a \<and> unat a < unat s + unat l then None else pt a)"

theorem join_timens_layout_witness:
  "vvar_pt_ok (demo_fault_env (Some 0x55)) demo_image 0x7ff000004000
     (snd (vdso_join_timens demo_zap (demo_vd_mm\<lparr>vd_areas := [vvar_area 0x2500 demo_image 0x7ff000000000]\<rparr>) [0x7ff000004000 \<mapsto> 0x77]))"
proof -
  let ?mm = "demo_vd_mm\<lparr>vd_areas := [vvar_area 0x2500 demo_image 0x7ff000000000]\<rparr>"
  let ?v = "vvar_area 0x2500 demo_image 0x7ff000000000"
  have z: "zap_ok demo_zap" by (simp add: zap_ok_def demo_zap_def)
  obtain r pt' where j: "vdso_join_timens demo_zap ?mm [0x7ff000004000 \<mapsto> 0x77] = (r, pt')" by fastforce
  have v: "?v \<in> set (vd_areas ?mm)" "vma_is_special_mapping ?v Vvar_mapping" "sp_end ?v - sp_start ?v = - im_sym_vvar_start demo_image"
    "unat (sp_start ?v) + unat (- im_sym_vvar_start demo_image) < 2 ^ 64" "sp_start ?v = 0x7ff000004000"
    by (simp_all add: vvar_area_def sp_new_def vma_is_special_mapping_def demo_image_def demo_VTASK_SIZE)
  from join_timens_layout [OF z j v(1-4)] v(5) j show ?thesis by simp
qed

section \<open>The window on the task\<close>

text \<open>What the user sees at an address of the area \<^verbatim>\<open>[vtask]\<close> that starts at \<open>start\<close>, once the page has been faulted in.\<close>

definition vtask_page_of :: "u64 \<Rightarrow> u64 \<Rightarrow> u64" where
  "vtask_page_of start ua = drop_bit 12 (ua - start)"

definition user_phys :: "pfn_insert \<Rightarrow> fault_env \<Rightarrow> u64 \<Rightarrow> u64 \<Rightarrow> u64 \<Rightarrow> u64 option" where
  "user_phys ins F sz start ua =
     (let pg = start + push_bit 12 (vtask_page_of start ua)
      in case vtask_fault ins F sz (vtask_page_of start ua) pg Map.empty of
           (_, None, pt) \<Rightarrow> map_option (\<lambda>pfn. push_bit 12 pfn + (ua AND 0xfff)) (pt pg)
         | (_, Some _, _) \<Rightarrow> None)"

definition user_view :: "pfn_insert \<Rightarrow> fault_env \<Rightarrow> u64 \<Rightarrow> u64 \<Rightarrow> u64 \<Rightarrow> my_task_struct_view" where
  "user_view ins F sz start ua =
     (case vtask_fault ins F sz (vtask_page_of start ua) (start + push_bit 12 (vtask_page_of start ua)) Map.empty of
        (_, Some (View _ view _), _) \<Rightarrow> view | _ \<Rightarrow> \<lparr>vw_page_offset = 0, vw_pid = 0\<rparr>)"

text \<open>Physical addresses of the task and its neighbourhood are those of the direct map; inserting a page succeeds.\<close>

definition window_ok :: "pfn_insert \<Rightarrow> fault_env \<Rightarrow> u64 \<Rightarrow> bool" where
  "window_ok ins F start \<longleftrightarrow> (\<forall>pt a p. ins pt a p = (VM_FAULT_NOPAGE, pt(a \<mapsto> p))) \<and> fe_alloc F \<noteq> None \<and>
     (\<forall>d. unat d < 0x3000 \<longrightarrow> fe_pa F (fe_current F + d) = fe_pa F (fe_current F) + d) \<and>
     unat (fe_pa F (fe_current F)) + 0x3000 < 2 ^ 64 \<and> unat start mod 0x1000 = 0 \<and> unat start + 0x4000 < 2 ^ 64"

lemma VTASK_SIZE_cases:
  assumes "unat sz < 2 ^ 63"
  shows "unat (VTASK_SIZE sz) = (unat sz + 0xfff) div 0x1000 * 0x1000 + 0x1000"
proof -
  have "unat (PAGE_ALIGN sz) = (unat sz + 0xfff) div 0x1000 * 0x1000" using assms by (subst unat_PAGE_ALIGN) simp_all
  moreover have "(unat sz + 0xfff) div 0x1000 * 0x1000 + 0x1000 < 2 ^ 64"
    using assms div_times_less_eq_dividend [of "unat sz + 0xfff" "0x1000"] by simp
  ultimately show ?thesis unfolding VTASK_SIZE_def PAGE_ALIGN_def [symmetric] by (subst unat_add_no_wrap) simp_all
qed

lemma vtask_view_size:
  assumes "unat sz < 2 ^ 63"
  shows "VTASK_SIZE sz = 0x4000 \<longleftrightarrow> 0x2000 < unat sz \<and> unat sz \<le> 0x3000"
proof -
  have "VTASK_SIZE sz = 0x4000 \<longleftrightarrow> unat (VTASK_SIZE sz) = 0x4000" using word_unat_eq_iff [of "VTASK_SIZE sz" "0x4000"] by simp
  also have "\<dots> \<longleftrightarrow> 0x2000 < unat sz \<and> unat sz \<le> 0x3000"
  proof -
    define q m where "q = (unat sz + 0xfff) div 0x1000" and "m = (unat sz + 0xfff) mod 0x1000"
    have n: "unat sz + 0xfff = q * 0x1000 + m" "m < 0x1000" by (simp_all add: q_def m_def)
    consider "q \<le> 2" | "q = 3" | "4 \<le> q" by linarith
    then show ?thesis
      unfolding VTASK_SIZE_cases [OF assms] q_def [symmetric] using n by cases linarith+
  qed
  finally show ?thesis .
qed



lemma scast_small:
  assumes "unat (w :: u64) < 0x1000"
  shows "(scast (ucast w :: c_int) :: u64) = w"
proof -
  have w: "take_bit 12 w = w"
    using assms unat_and_mask [of w 12] by (simp add: word_unat_eq_iff take_bit_eq_mask)
  have "(scast (ucast (take_bit 12 w) :: c_int) :: u64) = take_bit 12 w" by (rule bit_word_eqI) (auto simp: bit_simps)
  then show ?thesis by (simp only: w)
qed

lemma VTASK_SIZE_four:
  assumes "0x2000 < unat sz" and "unat sz \<le> 0x3000"
  shows "VTASK_SIZE sz = 0x4000"
proof -
  have "unat sz < 2 ^ 63" using assms(2) by simp
  from vtask_view_size [OF this] assms show ?thesis by simp
qed

lemma page_in_frame: "push_bit 12 (drop_bit 12 (w :: u64)) = w AND NOT (mask 12)"
  by (rule bit_word_eqI) (auto simp: bit_simps)

lemma window_view:
  assumes "window_ok ins F start" and "0x2000 < unat sz" and "unat sz \<le> 0x3000"
  shows "get_task_addr (user_view ins F sz start) (start + VTASK_SIZE sz) = start + (fe_pa F (fe_current F) AND 0xfff) + 0x1000"
proof -
  let ?o = "fe_pa F (fe_current F) AND 0xfff"
  have "unat ?o < 0x1000" unfolding page_masks unat_and_mask by simp
  note o = scast_small [OF this]
  obtain page where "fe_alloc F = Some page" using assms(1) by (auto simp: window_ok_def)
  then have "user_view ins F sz start start = \<lparr>vw_page_offset = ucast ?o, vw_pid = fe_pid F\<rparr>"
    by (simp add: user_view_def vtask_page_of_def vtask_fault_def VTASK_SIZE_four [OF assms(2,3)] Let_def)
  then show ?thesis
    by (simp add: get_task_addr_def Let_def VVAR_SIZE_def VTASK_SIZE_four [OF assms(2,3)] o)
qed

text \<open>The page and the offset of the byte \<open>b\<close> of the task.\<close>

lemma window_page:
  fixes b :: u64
  assumes "window_ok ins F start"
  defines "P \<equiv> fe_pa F (fe_current F)"
  defines "ua \<equiv> start + (P AND 0xfff) + 0x1000 + b"
  assumes "unat (P AND 0xfff) + unat b < 0x3000"
  shows "unat (vtask_page_of start ua) = (unat (P AND 0xfff) + unat b) div 0x1000 + 1"
    and "unat (ua AND 0xfff) = (unat (P AND 0xfff) + unat b) mod 0x1000"
proof -
  define n where "n = unat (P AND 0xfff) + unat b"
  have n: "n < 0x3000" using assms(4) by (simp add: n_def)
  have "unat ((P AND 0xfff) + b) = n" unfolding n_def using assms(4) by (intro unat_add_no_wrap) simp
  then have d: "unat ((P AND 0xfff) + b + 0x1000) = n + 0x1000" using n by (subst unat_add_no_wrap) simp_all
  have ua: "ua = start + ((P AND 0xfff) + b + 0x1000)" by (simp add: ua_def add_ac)
  then show "unat (vtask_page_of start ua) = (unat (P AND 0xfff) + unat b) div 0x1000 + 1"
    unfolding vtask_page_of_def n_def [symmetric] by (simp add: unat_shift_down d)
  have "unat ua = unat start + (n + 0x1000)" unfolding ua d [symmetric]
    using assms(1) n d by (intro unat_add_no_wrap) (simp add: window_ok_def)
  then have "unat (ua AND 0xfff) = (unat start + (n + 0x1000)) mod 0x1000" unfolding page_masks unat_and_mask by simp
  also have "\<dots> = n mod 0x1000"
    using assms(1) by (simp add: window_ok_def mod_add_left_eq [of "unat start" "0x1000", symmetric])
  finally show "unat (ua AND 0xfff) = (unat (P AND 0xfff) + unat b) mod 0x1000" by (simp add: n_def)
qed

lemma user_phys_window:
  fixes b :: u64
  assumes w: "window_ok ins F start" and sz: "0x2000 < unat sz" "unat sz \<le> 0x3000"
  defines "P \<equiv> fe_pa F (fe_current F)"
  assumes b: "unat (P AND 0xfff) + unat b < 0x3000"
  shows "user_phys ins F sz start (start + (P AND 0xfff) + 0x1000 + b) = Some (P + b)"
proof -
  define ua q where "ua = start + (P AND 0xfff) + 0x1000 + b" and "q = (unat (P AND 0xfff) + unat b) div 0x1000"
  note page = window_page [OF w, of b, folded P_def, OF b, folded ua_def]
  define pgoff where "pgoff = vtask_page_of start ua"
  have q: "q < 3" using b by (simp add: q_def less_mult_imp_div_less)
  have pg: "unat pgoff = q + 1" using page(1) by (simp add: pgoff_def q_def)
  have off: "unat (push_bit 12 pgoff) = (q + 1) * 0x1000" using pg q by (subst unat_shift_up) simp_all
  have nz: "pgoff \<noteq> 0" using pg by auto
  have lt: "\<not> VTASK_SIZE sz \<le> push_bit 12 pgoff" using off q by (simp add: VTASK_SIZE_four [OF sz] word_le_nat_alt)
  define d where "d = push_bit 12 pgoff - 0x1000"
  have d: "unat d = q * 0x1000" unfolding d_def using off by (subst unat_sub) (simp_all add: word_le_nat_alt)
  have "fe_pa F (fe_current F + push_bit 12 pgoff - 0x1000) = P + d"
    using w d q unfolding window_ok_def P_def d_def by (simp add: add_diff_eq [symmetric])
  then have "vtask_fault ins F sz pgoff (start + push_bit 12 pgoff) Map.empty =
      (VM_FAULT_NOPAGE, None, [start + push_bit 12 pgoff \<mapsto> drop_bit 12 (P + d)])"
    using lt nz w by (simp add: vtask_fault_def Let_def window_ok_def)
  then have u: "user_phys ins F sz start ua = Some (push_bit 12 (drop_bit 12 (P + d)) + (ua AND 0xfff))"
    by (simp add: user_phys_def Let_def pgoff_def [symmetric])
  have Pd: "unat (P + d) = unat P + q * 0x1000" unfolding d [symmetric]
    using w d q by (intro unat_add_no_wrap) (simp add: window_ok_def P_def)
  have fr: "unat (push_bit 12 (drop_bit 12 (P + d))) = unat P div 0x1000 * 0x1000 + q * 0x1000"
    unfolding page_in_frame unat_round_down Pd by (simp add: div_mult_self3 add_mult_distrib)
  have PB: "unat P + unat b < 2 ^ 64" using w b by (simp add: window_ok_def P_def)
  have o: "unat (P AND 0xfff) = unat P mod 0x1000" unfolding page_masks unat_and_mask by simp
  have sum: "unat P div 0x1000 * 0x1000 + q * 0x1000 + unat (ua AND 0xfff) = unat P + unat b"
    unfolding page(2) q_def o by (metis (no_types) add.assoc div_mult_mod_eq)
  have "unat (push_bit 12 (drop_bit 12 (P + d)) + (ua AND 0xfff)) = unat P + unat b"
    using fr sum PB by (subst unat_add_no_wrap) simp_all
  also have "\<dots> = unat (P + b)" using PB by (simp add: unat_add_no_wrap)
  finally show ?thesis using u by (simp add: word_unat_eq_iff ua_def)
qed



end
