(* ===== verification/Vdso_Patch.thy ===== *)
theory Vdso_Patch
  imports Vdso_Fault
begin

text \<open>
  \<^verbatim>\<open>syscall/vdso/vDSO.patch\<close> where it differs from the kernel tree: the fault handler takes no second
  reference to the page with the view, and the user code computes the address of the view from the
  address of the clock data and from \<^verbatim>\<open>VTASK_SIZE\<close>. \<open>vdso_data\<close> is what \<^verbatim>\<open>__arch_get_vdso_data\<close> returns; that
  the clock data lie 128 bytes into the vvar page is the layout of \<^verbatim>\<open>asm/vvar.h\<close>.
\<close>

definition patch_vtask_fault ::
    "pfn_insert \<Rightarrow> fault_env \<Rightarrow> u64 \<Rightarrow> u64 \<Rightarrow> u64 \<Rightarrow> page_table \<Rightarrow> u32 \<times> vtask_page option \<times> page_table" where
  "patch_vtask_fault ins F sz pgoff address pt =
     (let offset = push_bit PAGE_SHIFT pgoff
      in if VTASK_SIZE sz \<le> offset then (VM_FAULT_SIGBUS, None, pt)
         else let task_struct_offset = fe_pa F (fe_current F) AND 0xfff
              in if pgoff = 0
                 then case fe_alloc F of
                        None \<Rightarrow> (VM_FAULT_OOM, None, pt)
                      | Some page \<Rightarrow> (0, Some (View page \<lparr>vw_page_offset = ucast task_struct_offset, vw_pid = fe_pid F\<rparr> 1), pt)
                 else case ins pt address (drop_bit PAGE_SHIFT (fe_pa F (fe_current F + offset - PAGE_SIZE))) of
                        (r, pt) \<Rightarrow> (r, None, pt))"

definition patch_get_task_addr :: "u64 \<Rightarrow> (u64 \<Rightarrow> my_task_struct_view) \<Rightarrow> u64 \<Rightarrow> u64" where
  "patch_get_task_addr sz read_view vdso_data =
     (let view = vdso_data - VTASK_SIZE sz - 128
      in view + scast (vw_page_offset (read_view view)) + PAGE_SIZE)"

definition patch_vdso_get_task_struct_info ::
    "u64 \<Rightarrow> (u64 \<Rightarrow> my_task_struct_view) \<Rightarrow> (u64 \<Rightarrow> c_int) \<Rightarrow> u64 \<Rightarrow> bool \<Rightarrow> int \<times> task_info option" where
  "patch_vdso_get_task_struct_info sz read_view read_pid vdso_data info =
     (if \<not> info then (-1, None)
      else let task = patch_get_task_addr sz read_view vdso_data
           in if task = 0 then (-1, None) else (0, Some \<lparr>ti_kaddr = task, ti_pid = read_pid task\<rparr>))"

section \<open>Lemmas\<close>

text \<open>The two handlers differ only in the references to a new page, which the mapping takes over.\<close>

fun one_ref :: "vtask_page \<Rightarrow> vtask_page" where
  "one_ref (View page view refs) = View page view (refs - 1)"

lemma patch_vtask_fault_eq:
  "patch_vtask_fault ins F sz pgoff address pt =
     (case vtask_fault ins F sz pgoff address pt of (r, page, pt) \<Rightarrow> (r, map_option one_ref page, pt))"
  by (simp add: patch_vtask_fault_def vtask_fault_def Let_def split: option.split prod.split)

definition patch_user_view :: "pfn_insert \<Rightarrow> fault_env \<Rightarrow> u64 \<Rightarrow> u64 \<Rightarrow> u64 \<Rightarrow> my_task_struct_view" where
  "patch_user_view ins F sz start ua =
     (case patch_vtask_fault ins F sz (vtask_page_of start ua) (start + push_bit 12 (vtask_page_of start ua)) Map.empty of
        (_, Some (View _ view _), _) \<Rightarrow> view | _ \<Rightarrow> \<lparr>vw_page_offset = 0, vw_pid = 0\<rparr>)"

lemma VTASK_SIZE_pos: "unat sz < 2 ^ 63 \<Longrightarrow> VTASK_SIZE sz \<noteq> 0"
  using VTASK_SIZE_cases [of sz] by auto

text \<open>The first page of the area holds the view, whatever the size of a \<^verbatim>\<open>task_struct\<close>.\<close>

lemma patch_user_view_start:
  assumes "unat sz < 2 ^ 63" and "fe_alloc F = Some page"
  shows "patch_user_view ins F sz start start =
    \<lparr>vw_page_offset = ucast (fe_pa F (fe_current F) AND 0xfff), vw_pid = fe_pid F\<rparr>"
  using VTASK_SIZE_pos [OF assms(1)] assms(2)
  by (simp add: patch_user_view_def patch_vtask_fault_def vtask_page_of_def Let_def word_le_0_iff)

section \<open>Properties\<close>

text \<open>
  With the patch the user code finds the view for every size of a \<^verbatim>\<open>task_struct\<close>: the address that the
  vDSO function reports is the second page of the area plus the offset of the task in its page, and the
  page with the view has the one reference that the mapping takes over. For a \<^verbatim>\<open>task_struct\<close> of more than
  two and at most three pages the address is the one that the kernel tree computes.
\<close>

theorem patch_finds_view:
  assumes "unat sz < 2 ^ 63" and "fe_alloc F = Some page"
    and "start + (fe_pa F (fe_current F) AND 0xfff) + 0x1000 \<noteq> 0"
  defines "task \<equiv> start + (fe_pa F (fe_current F) AND 0xfff) + 0x1000"
    and "vvar_page \<equiv> start + VTASK_SIZE sz"
  shows "patch_vdso_get_task_struct_info sz (patch_user_view ins F sz start) read_pid (vvar_page + 128) True =
      (0, Some \<lparr>ti_kaddr = task, ti_pid = read_pid task\<rparr>) \<and>
    (\<exists>view. patch_vtask_fault ins F sz 0 start pt = (0, Some (View page view 1), pt)) \<and>
    (window_ok ins F start \<and> 0x2000 < unat sz \<and> unat sz \<le> 0x3000 \<longrightarrow>
      get_task_addr (user_view ins F sz start) vvar_page =
        patch_get_task_addr sz (patch_user_view ins F sz start) (vvar_page + 128))"
proof -
  let ?o = "fe_pa F (fe_current F) AND 0xfff"
  have "unat ?o < 0x1000" unfolding page_masks unat_and_mask by simp
  note o = scast_small [OF this]
  have "vvar_page + 128 - VTASK_SIZE sz - 128 = start" by (simp add: vvar_page_def)
  then have a: "patch_get_task_addr sz (patch_user_view ins F sz start) (vvar_page + 128) = task"
    by (simp add: patch_get_task_addr_def patch_user_view_start [OF assms(1,2)] o task_def)
  have "patch_vdso_get_task_struct_info sz (patch_user_view ins F sz start) read_pid (vvar_page + 128) True =
      (0, Some \<lparr>ti_kaddr = task, ti_pid = read_pid task\<rparr>)"
    using assms(3) by (simp add: patch_vdso_get_task_struct_info_def a task_def Let_def)
  moreover have "\<exists>view. patch_vtask_fault ins F sz 0 start pt = (0, Some (View page view 1), pt)"
    using VTASK_SIZE_pos [OF assms(1)] assms(2) by (simp add: patch_vtask_fault_def Let_def word_le_0_iff)
  ultimately show ?thesis using window_view [of ins F start sz] a by (auto simp: vvar_page_def task_def)
qed

theorem patch_finds_view_witness:
  "fst (patch_vdso_get_task_struct_info 0x6100 (patch_user_view demo_insert (demo_fault_env None) 0x6100 0x7ff000000000)
     (\<lambda>_. 42) (0x7ff000000000 + VTASK_SIZE 0x6100 + 128) True) = 0"
proof -
  obtain page where p: "fe_alloc (demo_fault_env None) = Some page" by (auto simp: demo_fault_env_def)
  have pa: "fe_pa (demo_fault_env None) (fe_current (demo_fault_env None)) = 0x12340" by (simp add: demo_fault_env_def)
  show ?thesis
    using patch_finds_view [of "0x6100" "demo_fault_env None" page "0x7ff000000000" demo_insert "\<lambda>_. 42"] p
    by (simp add: pa)
qed

end
