(* ===== verification/Acpi.thy ===== *)
theory Acpi
  imports Prelude
begin

text \<open>
  What the three programs that handle ACPI tables share: bytes and little-endian fields, the layout of the table header
  (as written down in a comment of \<^verbatim>\<open>HelloWorld.c\<close>), and the contract of a checksum. \<open>acpi_checksum\<close> is the interface: a function
  that, put in the checksum field of a table whose field is zero, makes the bytes of the table add up to zero. It is interpreted
  on the computation of \<^verbatim>\<open>AcpiCalculateChecksum\<close>; \<^verbatim>\<open>CalculateCheckSum8\<close> of the UEFI library is assumed to satisfy it.
\<close>

section \<open>Little-endian fields\<close>

text \<open>The number that a list of bytes stands for, and the bytes of a number.\<close>

fun le_val :: "u8 list \<Rightarrow> nat" where
  "le_val [] = 0"
| "le_val (b # bs) = unat b + 256 * le_val bs"

fun le_bytes :: "nat \<Rightarrow> nat \<Rightarrow> u8 list" where
  "le_bytes 0 v = []"
| "le_bytes (Suc n) v = of_nat v # le_bytes n (v div 256)"

lemma length_le_bytes [simp]: "length (le_bytes n v) = n"
  by (induction n arbitrary: v) simp_all

lemma le_val_le_bytes: "le_val (le_bytes n v) = v mod 256 ^ n"
proof (induction n arbitrary: v)
  case (Suc n)
  have "unat (of_nat v :: u8) = v mod 256" by (simp add: unat_of_nat)
  with Suc show ?case by (simp add: mod_mult2_eq)
qed simp

lemma le_val_less: "le_val bs < 256 ^ length bs"
proof (induction bs)
  case (Cons b bs)
  have "unat b < 256" using unsigned_less [of b, where 'a = nat] by simp
  with Cons show ?case by simp
qed simp

lemma le_bytes_le_val: "le_bytes (length bs) (le_val bs) = bs"
proof (induction bs)
  case (Cons b bs)
  have "unat b < 256" using unsigned_less [of b, where 'a = nat] by simp
  then have "(unat b + 256 * le_val bs) div 256 = le_val bs" by simp
  moreover have "(of_nat (unat b + 256 * le_val bs) :: u8) = b"
    by (rule word_unat_eq_iff [THEN iffD2]) (simp add: unat_of_nat \<open>unat b < 256\<close> del: of_nat_add of_nat_mult)
  ultimately show ?case using Cons by simp
qed simp

definition le32 :: "u32 \<Rightarrow> u8 list" where "le32 w = le_bytes 4 (unat w)"
definition le64 :: "u64 \<Rightarrow> u8 list" where "le64 w = le_bytes 8 (unat w)"

definition val32 :: "u8 list \<Rightarrow> u32" where "val32 bs = of_nat (le_val bs)"
definition val64 :: "u8 list \<Rightarrow> u64" where "val64 bs = of_nat (le_val bs)"

lemma val32_le32 [simp]: "val32 (le32 w) = w"
proof -
  have "unat w < 256 ^ 4" using unsigned_less [of w, where 'a = nat] by simp
  then show ?thesis by (simp add: val32_def le32_def le_val_le_bytes)
qed

lemma val64_le64 [simp]: "val64 (le64 w) = w"
proof -
  have "unat w < 256 ^ 8" using unsigned_less [of w, where 'a = nat] by simp
  then show ?thesis by (simp add: val64_def le64_def le_val_le_bytes)
qed

lemma length_le [simp]: "length (le32 v) = 4" "length (le64 w) = 8"
  by (simp_all add: le32_def le64_def)

section \<open>The header\<close>

record acpi_header =
  h_Signature :: u32
  h_Length :: u32
  h_Revision :: u8
  h_Checksum :: u8
  h_OemId :: "u8 list"
  h_OemTableId :: u64
  h_OemRevision :: u32
  h_CreatorId :: u32
  h_CreatorRevision :: u32

definition HEADER_SIZE :: nat where "HEADER_SIZE = 36"

definition header_bytes :: "acpi_header \<Rightarrow> u8 list" where
  "header_bytes h = le32 (h_Signature h) @ le32 (h_Length h) @ [h_Revision h, h_Checksum h] @ h_OemId h @
     le64 (h_OemTableId h) @ le32 (h_OemRevision h) @ le32 (h_CreatorId h) @ le32 (h_CreatorRevision h)"

text \<open>The bytes of a field of a table.\<close>

definition field :: "nat \<Rightarrow> nat \<Rightarrow> u8 list \<Rightarrow> u8 list" where
  "field off n bs = take n (drop off bs)"

definition CHECKSUM_OFFSET :: nat where "CHECKSUM_OFFSET = 9"

section \<open>Checksums\<close>

definition byte_sum :: "u8 list \<Rightarrow> u8" where
  "byte_sum bs = sum_list bs"

lemma byte_sum_update:
  assumes "i < length bs"
  shows "byte_sum (bs[i := b]) = byte_sum (bs[i := 0]) + b"
proof -
  have "bs[i := x] = take i bs @ x # drop (Suc i) bs" for x using assms by (simp add: upd_conv_take_nth_drop)
  then show ?thesis by (simp add: byte_sum_def)
qed

locale acpi_checksum =
  fixes cs :: "u8 list \<Rightarrow> u8"
  assumes cs_zero: "byte_sum bs + cs bs = 0"
begin

text \<open>Zero the field, compute, store: the table then adds up to zero.\<close>

definition seal :: "nat \<Rightarrow> u8 list \<Rightarrow> u8 list" where
  "seal i bs = bs[i := cs (bs[i := 0])]"

lemma seal_sum: "i < length bs \<Longrightarrow> byte_sum (seal i bs) = 0"
  unfolding seal_def by (subst byte_sum_update) (simp_all add: cs_zero)

lemma seal_length: "length (seal i bs) = length bs"
  by (simp add: seal_def)

lemma seal_nth: "j \<noteq> i \<Longrightarrow> seal i bs ! j = bs ! j"
  by (simp add: seal_def)

lemma seal_field: "i < off \<or> off + n \<le> i \<Longrightarrow> field off n (seal i bs) = field off n bs"
  by (auto simp: field_def seal_def drop_update_cancel drop_update_swap take_update_cancel)

text \<open>The checksum is the only one that works, and sealing a table twice changes nothing.\<close>

lemma cs_unique: "byte_sum bs + x = 0 \<Longrightarrow> x = cs bs"
  using cs_zero [of bs] by (metis add_left_cancel)

lemma seal_idem: "seal i (seal i bs) = seal i bs"
  by (simp add: seal_def)

end

end
