(* ===== verification/Hw_Info.thy ===== *)
theory Hw_Info
  imports Acpi
begin

text \<open>
  The UEFI driver that publishes the hardware information table \<^verbatim>\<open>ZHWI\<close> (\<^verbatim>\<open>HardwareInfoAppPkg/HardwareInfoApp.c\<close>). The table is a packed structure; \<open>zhwi_bytes\<close> is its
  image in memory. The firmware services (\<^verbatim>\<open>LocateProtocol\<close>, \<^verbatim>\<open>InstallAcpiTable\<close> of the protocol) are the record \<open>hw_env\<close>. The messages are
  values, one constructor per \<^verbatim>\<open>Print\<close>.
\<close>

section \<open>The table\<close>

definition ZHWI_SIGNATURE :: u32 where
  "ZHWI_SIGNATURE = val32 [0x5a, 0x48, 0x57, 0x49]"

record zhwi_table =
  z_Header :: acpi_header
  z_Revision :: u32
  z_FanSpeed :: u32
  z_CpuTemp :: u32
  z_SystemLoad :: u32
  z_Timestamp :: u64

definition ZHWI_SIZE :: nat where "ZHWI_SIZE = 60"

definition zhwi_bytes :: "zhwi_table \<Rightarrow> u8 list" where
  "zhwi_bytes t = header_bytes (z_Header t) @ le32 (z_Revision t) @ le32 (z_FanSpeed t) @ le32 (z_CpuTemp t) @
     le32 (z_SystemLoad t) @ le64 (z_Timestamp t)"

definition mZhwiTable :: zhwi_table where
  "mZhwiTable =
     \<lparr>z_Header = \<lparr>h_Signature = ZHWI_SIGNATURE, h_Length = of_nat ZHWI_SIZE, h_Revision = 1, h_Checksum = 0,
        h_OemId = [0x4a, 0x41, 0x53, 0x4f, 0x4e, 0], h_OemTableId = 114514, h_OemRevision = 1, h_CreatorId = 19260817,
        h_CreatorRevision = 1\<rparr>,
      z_Revision = 1, z_FanSpeed = 2500, z_CpuTemp = 420, z_SystemLoad = 30, z_Timestamp = 1650000000\<rparr>"

section \<open>The checksum\<close>

text \<open>The loop of \<^verbatim>\<open>AcpiCalculateChecksum\<close>.\<close>

function sum_loop :: "u8 list \<Rightarrow> nat \<Rightarrow> nat \<Rightarrow> u8 \<Rightarrow> u8" where
  "sum_loop Buffer Size Index Sum8 = (if Index < Size then sum_loop Buffer Size (Index + 1) (Sum8 + Buffer ! Index) else Sum8)"
  by pat_completeness auto
termination by (relation "measure (\<lambda>(Buffer, Size, Index, Sum8). Size - Index)") auto

declare sum_loop.simps [simp del]

text \<open>\<^verbatim>\<open>(UINT8)(0x100 - Sum)\<close>: the subtraction is one of \<^verbatim>\<open>int\<close>, cut to a byte.\<close>

definition AcpiCalculateChecksum :: "u8 list \<Rightarrow> nat \<Rightarrow> nat \<Rightarrow> u8 list" where
  "AcpiCalculateChecksum Buffer Size ChecksumOffset =
     (let Buffer = Buffer[ChecksumOffset := 0];
          Sum8 = sum_loop Buffer Size 0 0
      in Buffer[ChecksumOffset := word_of_int (0x100 - uint Sum8)])"

lemma sum_loop_sum: "Index \<le> Size \<Longrightarrow> Size \<le> length B \<Longrightarrow> sum_loop B Size Index s = s + byte_sum (drop Index (take Size B))"
proof (induction B Size Index s rule: sum_loop.induct)
  case (1 B Size Index s)
  show ?case
  proof (cases "Index < Size")
    case True
    with 1 have "drop Index (take Size B) = B ! Index # drop (Index + 1) (take Size B)"
      by (simp add: Cons_nth_drop_Suc [symmetric])
    with 1 True show ?thesis by (subst sum_loop.simps) (simp add: byte_sum_def)
  next
    case False
    with 1 show ?thesis by (subst sum_loop.simps) (simp add: byte_sum_def)
  qed
qed

definition zhwi_checksum :: "u8 list \<Rightarrow> u8" where
  "zhwi_checksum bs = word_of_int (0x100 - uint (sum_loop bs (length bs) 0 0))"

lemma zhwi_checksum_minus: "zhwi_checksum bs = - byte_sum bs"
proof -
  have "zhwi_checksum bs = word_of_int 0x100 - word_of_int (uint (byte_sum bs))"
    using sum_loop_sum [of 0 "length bs" bs 0] by (simp add: zhwi_checksum_def)
  also have "\<dots> = - byte_sum bs" by simp
  finally show ?thesis .
qed

interpretation zhwi: acpi_checksum zhwi_checksum
  by unfold_locales (simp add: zhwi_checksum_minus)

lemma AcpiCalculateChecksum_seal: "AcpiCalculateChecksum bs (length bs) i = zhwi.seal i bs"
  by (simp add: AcpiCalculateChecksum_def zhwi.seal_def zhwi_checksum_def)

section \<open>Installing the table\<close>

datatype efi_status = EFI_SUCCESS | EFI_FAIL nat

definition EFI_ERROR :: "efi_status \<Rightarrow> bool" where
  "EFI_ERROR s = (s \<noteq> EFI_SUCCESS)"

record hw_env =
  he_locate :: efi_status
  he_install :: "u8 list \<Rightarrow> efi_status"

text \<open>
  The global table is a list of bytes. The answer is the status, the table afterwards and what the firmware has been given, if
  anything.
\<close>

definition InstallAcpiTable :: "hw_env \<Rightarrow> u8 list \<Rightarrow> efi_status \<times> u8 list \<times> u8 list option" where
  "InstallAcpiTable E table =
     (if EFI_ERROR (he_locate E) then (he_locate E, table, None)
      else let len = unat (val32 (field 4 4 table));
               table = AcpiCalculateChecksum table len CHECKSUM_OFFSET;
               Status = he_install E (take len table)
           in if EFI_ERROR Status then (Status, table, None)
              else (EFI_SUCCESS, table, Some (take len table)))"

datatype hw_msg = Msg_init | Msg_failed efi_status | Msg_installed | Msg_fan u32 | Msg_temp u32 u32 | Msg_load u32

definition RuntimeInfoEntryPoint :: "hw_env \<Rightarrow> u8 list \<Rightarrow> efi_status \<times> hw_msg list \<times> u8 list option" where
  "RuntimeInfoEntryPoint E table =
     (case InstallAcpiTable E table of (Status, table, installed) \<Rightarrow>
        if EFI_ERROR Status then (Status, [Msg_init, Msg_failed Status], installed)
        else let temp = val32 (field 44 4 table)
             in (EFI_SUCCESS,
                 [Msg_init, Msg_installed, Msg_fan (val32 (field 40 4 table)), Msg_temp (temp div 10) (temp mod 10),
                  Msg_load (val32 (field 48 4 table))], installed))"

section \<open>Reading the fields back\<close>

definition zhwi_wf :: "zhwi_table \<Rightarrow> bool" where
  "zhwi_wf t \<longleftrightarrow> h_Length (z_Header t) = of_nat ZHWI_SIZE \<and> length (h_OemId (z_Header t)) = 6"

lemma length_header_bytes: "length (h_OemId h) = 6 \<Longrightarrow> length (header_bytes h) = HEADER_SIZE"
  by (simp add: header_bytes_def HEADER_SIZE_def)

lemma length_zhwi_bytes: "zhwi_wf t \<Longrightarrow> length (zhwi_bytes t) = ZHWI_SIZE"
  by (simp add: zhwi_bytes_def zhwi_wf_def length_header_bytes HEADER_SIZE_def ZHWI_SIZE_def)

lemma zhwi_fields:
  assumes "zhwi_wf t"
  shows "val32 (field 0 4 (zhwi_bytes t)) = h_Signature (z_Header t)" "val32 (field 4 4 (zhwi_bytes t)) = of_nat ZHWI_SIZE"
    "val32 (field 36 4 (zhwi_bytes t)) = z_Revision t" "val32 (field 40 4 (zhwi_bytes t)) = z_FanSpeed t"
    "val32 (field 44 4 (zhwi_bytes t)) = z_CpuTemp t" "val32 (field 48 4 (zhwi_bytes t)) = z_SystemLoad t"
    "val64 (field 52 8 (zhwi_bytes t)) = z_Timestamp t"
  using assms by (simp_all add: zhwi_wf_def field_def zhwi_bytes_def header_bytes_def)

lemma install_sealed:
  assumes "zhwi_wf t" and "InstallAcpiTable E (zhwi_bytes t) = (Status, table, installed)"
  shows "(Status \<noteq> EFI_SUCCESS \<and> installed = None) \<or> (Status = EFI_SUCCESS \<and> installed = Some (zhwi.seal CHECKSUM_OFFSET (zhwi_bytes t)))"
proof -
  have len: "length (zhwi_bytes t) = 60" "val32 (field 4 4 (zhwi_bytes t)) = 60"
    using length_zhwi_bytes [OF assms(1)] zhwi_fields(2) [OF assms(1)] by (simp_all add: ZHWI_SIZE_def)
  have "AcpiCalculateChecksum (zhwi_bytes t) 60 CHECKSUM_OFFSET = zhwi.seal CHECKSUM_OFFSET (zhwi_bytes t)"
    using AcpiCalculateChecksum_seal [of "zhwi_bytes t" CHECKSUM_OFFSET] len(1) by simp
  moreover have "length (zhwi.seal CHECKSUM_OFFSET (zhwi_bytes t)) = 60" using len(1) by (simp add: zhwi.seal_length)
  ultimately show ?thesis
    using assms(2) len(2) by (auto simp: InstallAcpiTable_def EFI_ERROR_def Let_def split: if_splits)
qed

lemma sealed_fields:
  assumes "zhwi_wf t"
  defines "bs \<equiv> zhwi.seal CHECKSUM_OFFSET (zhwi_bytes t)"
  shows "length bs = 60" "byte_sum bs = 0" "val32 (field 4 4 bs) = 60" "val32 (field 0 4 bs) = h_Signature (z_Header t)"
    "val32 (field 40 4 bs) = z_FanSpeed t" "val32 (field 44 4 bs) = z_CpuTemp t" "val32 (field 48 4 bs) = z_SystemLoad t"
    "val64 (field 52 8 bs) = z_Timestamp t"
proof -
  have len: "length (zhwi_bytes t) = 60" "val32 (field 4 4 (zhwi_bytes t)) = 60"
    using length_zhwi_bytes [OF assms(1)] zhwi_fields(2) [OF assms(1)] by (simp_all add: ZHWI_SIZE_def)
  show "length bs = 60" "byte_sum bs = 0"
    using len(1) by (simp_all add: bs_def zhwi.seal_length zhwi.seal_sum CHECKSUM_OFFSET_def)
  have f: "field off n bs = field off n (zhwi_bytes t)" if "9 < off \<or> off + n \<le> 9" for off n
    using that by (simp add: bs_def zhwi.seal_field CHECKSUM_OFFSET_def)
  show "val32 (field 4 4 bs) = 60" "val32 (field 0 4 bs) = h_Signature (z_Header t)"
    "val32 (field 40 4 bs) = z_FanSpeed t" "val32 (field 44 4 bs) = z_CpuTemp t" "val32 (field 48 4 bs) = z_SystemLoad t"
    "val64 (field 52 8 bs) = z_Timestamp t"
    using zhwi_fields [OF assms(1)] len(2) by (simp_all add: f)
qed

lemma installed_fields:
  assumes "zhwi_wf t" and "InstallAcpiTable E (zhwi_bytes t) = (Status, table, Some bs)"
  shows "length bs = 60" "val32 (field 4 4 bs) = 60" "val32 (field 40 4 bs) = z_FanSpeed t" "val32 (field 44 4 bs) = z_CpuTemp t"
    "val32 (field 48 4 bs) = z_SystemLoad t" "val64 (field 52 8 bs) = z_Timestamp t"
  using install_sealed [OF assms] sealed_fields [OF assms(1)] by auto

text \<open>
  C36: The driver either gives the firmware nothing and reports the error, or it gives it the whole table with a correct checksum: the bytes
  add up to zero, the length in the header is their number, and every field reads back as it was written.
\<close>

theorem InstallAcpiTable_correct:
  assumes "zhwi_wf t" and "InstallAcpiTable E (zhwi_bytes t) = (Status, table, installed)"
  shows "(Status \<noteq> EFI_SUCCESS \<and> installed = None) \<or>
    (Status = EFI_SUCCESS \<and> (\<exists>bs. installed = Some bs \<and> byte_sum bs = 0 \<and> length bs = unat (val32 (field 4 4 bs)) \<and>
       val32 (field 0 4 bs) = h_Signature (z_Header t) \<and> val32 (field 40 4 bs) = z_FanSpeed t \<and> val32 (field 44 4 bs) = z_CpuTemp t \<and>
       val32 (field 48 4 bs) = z_SystemLoad t \<and> val64 (field 52 8 bs) = z_Timestamp t))"
  using install_sealed [OF assms] sealed_fields [OF assms(1)] by auto

theorem InstallAcpiTable_correct_witness:
  "\<exists>table bs. zhwi_wf mZhwiTable \<and>
     InstallAcpiTable \<lparr>he_locate = EFI_SUCCESS, he_install = \<lambda>_. EFI_SUCCESS\<rparr> (zhwi_bytes mZhwiTable) = (EFI_SUCCESS, table, Some bs) \<and>
     byte_sum bs = 0 \<and> val32 (field 40 4 bs) = 2500"
proof -
  let ?E = "\<lparr>he_locate = EFI_SUCCESS, he_install = \<lambda>_. EFI_SUCCESS\<rparr>"
  have wf: "zhwi_wf mZhwiTable" by (simp add: zhwi_wf_def mZhwiTable_def)
  obtain Status table installed where i: "InstallAcpiTable ?E (zhwi_bytes mZhwiTable) = (Status, table, installed)" by (metis prod_cases3)
  have "Status = EFI_SUCCESS" using i by (auto simp: InstallAcpiTable_def EFI_ERROR_def Let_def)
  with InstallAcpiTable_correct [OF wf i] i wf show ?thesis by (auto simp: mZhwiTable_def)
qed

end
