(* ===== verification/Efi_Hwinfo.thy ===== *)
theory Efi_Hwinfo
  imports Hw_Info Decimal
begin

text \<open>
  The kernel side of the hardware information table (\<^verbatim>\<open>drivers/firmware/efi/efi_custom_hwinfo.c\<close>): finding the table, the four sysfs files and the module
  initialisation. The table is the list of the bytes in memory from its first byte on; the header says how many of them belong to it. The calls into
  ACPI, ioremap, kobject and sysfs are the record \<open>hwk_env\<close>. Text is a \<open>string\<close>; numbers are printed in decimal.
\<close>

section \<open>State\<close>

record runtime_functions =
  rf_get_fan_speed :: "u64 option"
  rf_get_cpu_temp :: "u64 option"
  rf_get_system_load :: "u64 option"
  rf_get_timestamp :: "u64 option"

text \<open>A function pointer is an option; a call gives its value.\<close>

record hwk_state =
  hw_zhwi_tbl :: "u8 list option"
  hw_kobj :: ptr
  hw_runtime_funcs :: "runtime_functions option"

definition ZHWI_TABLE_SIZE :: nat where "ZHWI_TABLE_SIZE = 68"

abbreviation (input) tbl_fan_speed :: "u8 list \<Rightarrow> u32" where "tbl_fan_speed t \<equiv> val32 (field 40 4 t)"
abbreviation (input) tbl_cpu_temp :: "u8 list \<Rightarrow> u32" where "tbl_cpu_temp t \<equiv> val32 (field 44 4 t)"
abbreviation (input) tbl_system_load :: "u8 list \<Rightarrow> u32" where "tbl_system_load t \<equiv> val32 (field 48 4 t)"
abbreviation (input) tbl_timestamp :: "u8 list \<Rightarrow> u64" where "tbl_timestamp t \<equiv> val64 (field 52 8 t)"
abbreviation (input) tbl_runtime_ptr :: "u8 list \<Rightarrow> u64" where "tbl_runtime_ptr t \<equiv> val64 (field 60 8 t)"

definition newline :: string where "newline = [CHR 0x0A]"

section \<open>The sysfs files\<close>

definition runtime_call :: "(runtime_functions \<Rightarrow> u64 option) \<Rightarrow> hwk_state \<Rightarrow> u64 option" where
  "runtime_call f st = (case hw_runtime_funcs st of None \<Rightarrow> None | Some rf \<Rightarrow> f rf)"

definition fan_speed_show :: "hwk_state \<Rightarrow> errno + string" where
  "fan_speed_show st =
     (case runtime_call rf_get_fan_speed st of
        Some speed \<Rightarrow> Inr (decimal (unat speed) @ newline)
      | None \<Rightarrow>
          (case hw_zhwi_tbl st of
             None \<Rightarrow> Inl ENODEV
           | Some t \<Rightarrow> Inr (decimal (unat (tbl_fan_speed t)) @ newline)))"

definition cpu_temp_show :: "hwk_state \<Rightarrow> errno + string" where
  "cpu_temp_show st =
     (case runtime_call rf_get_cpu_temp st of
        Some temp \<Rightarrow> Inr (decimal (unat (temp div 10)) @ ''.'' @ decimal (unat (temp mod 10)) @ newline)
      | None \<Rightarrow>
          (case hw_zhwi_tbl st of
             None \<Rightarrow> Inl ENODEV
           | Some t \<Rightarrow> Inr (decimal (unat (tbl_cpu_temp t div 10)) @ ''.'' @ decimal (unat (tbl_cpu_temp t mod 10)) @ newline)))"

definition system_load_show :: "hwk_state \<Rightarrow> errno + string" where
  "system_load_show st =
     (case runtime_call rf_get_system_load st of
        Some load \<Rightarrow> Inr (decimal (unat load) @ newline)
      | None \<Rightarrow>
          (case hw_zhwi_tbl st of
             None \<Rightarrow> Inl ENODEV
           | Some t \<Rightarrow> Inr (decimal (unat (tbl_system_load t)) @ newline)))"

definition timestamp_show :: "hwk_state \<Rightarrow> errno + string" where
  "timestamp_show st =
     (case runtime_call rf_get_timestamp st of
        Some timestamp \<Rightarrow> Inr (decimal (unat timestamp) @ newline)
      | None \<Rightarrow>
          (case hw_zhwi_tbl st of
             None \<Rightarrow> Inl ENODEV
           | Some t \<Rightarrow> Inr (decimal (unat (tbl_timestamp t)) @ newline)))"

section \<open>Initialisation\<close>

record hwk_env =
  hk_get_table :: "u8 list option"
  hk_ioremap :: "u64 \<Rightarrow> runtime_functions option"
  hk_kobject :: ptr
  hk_create_group :: kret
  hk_efi_kobj :: bool
  hk_create_link :: kret

datatype hwk_msg =
    No_table | Size_mismatch nat u32 | Got_table | Values u32 u32 u32 u32 | Mapped u64 | Fan_available | Temp_available
  | Load_available | Timestamp_available | Cannot_map | Use_static | No_kobject | No_group | No_link | Created

definition FALSE :: bool where "FALSE = False"

definition map_runtime :: "hwk_env \<Rightarrow> u8 list \<Rightarrow> hwk_state \<Rightarrow> hwk_state \<times> hwk_msg list" where
  "map_runtime E t st =
     (if tbl_runtime_ptr t \<noteq> 0 \<and> FALSE
      then let rf = hk_ioremap E (tbl_runtime_ptr t); st = st\<lparr>hw_runtime_funcs := rf\<rparr>
           in case rf of
                Some f \<Rightarrow> (st, [Mapped (tbl_runtime_ptr t)] @
                  (if rf_get_fan_speed f \<noteq> None then [Fan_available] else []) @ (if rf_get_cpu_temp f \<noteq> None then [Temp_available] else []) @
                  (if rf_get_system_load f \<noteq> None then [Load_available] else []) @
                  (if rf_get_timestamp f \<noteq> None then [Timestamp_available] else []))
              | None \<Rightarrow> (st, [Cannot_map])
      else (st, [Use_static]))"

definition read_zhwi_acpi_table :: "hwk_env \<Rightarrow> hwk_state \<Rightarrow> kret \<times> hwk_state \<times> hwk_msg list" where
  "read_zhwi_acpi_table E st =
     (case hk_get_table E of
        None \<Rightarrow> (Some ENODEV, st, [No_table])
      | Some t \<Rightarrow>
          let st = st\<lparr>hw_zhwi_tbl := Some t\<rparr>;
              len = val32 (field 4 4 t);
              log1 = (if unat len < ZHWI_TABLE_SIZE then [Size_mismatch ZHWI_TABLE_SIZE len] else []);
              log2 = [Got_table, Values (tbl_fan_speed t) (tbl_cpu_temp t div 10) (tbl_cpu_temp t mod 10) (tbl_system_load t)];
              (st, log3) = map_runtime E t st
          in (None, st, log1 @ log2 @ log3))"

text \<open>The events of the kobject are those of the reference count of \<^verbatim>\<open>hw_info_kobj\<close>: created is 1, put is -1.\<close>

definition hw_info_init :: "hwk_env \<Rightarrow> hwk_state \<Rightarrow> kret \<times> hwk_state \<times> int \<times> hwk_msg list" where
  "hw_info_init E st =
     (case read_zhwi_acpi_table E st of
        (Some e, st, log) \<Rightarrow> (Some e, st, 0, log)
      | (None, st, log) \<Rightarrow>
          let st = st\<lparr>hw_kobj := hk_kobject E\<rparr>
          in case hk_kobject E of
               None \<Rightarrow> (Some ENOMEM, st, 0, log @ [No_kobject])
             | Some _ \<Rightarrow>
                 (case hk_create_group E of
                    Some e \<Rightarrow> (Some e, st, 1 - 1, log @ [No_group])
                  | None \<Rightarrow>
                      let log = log @ (if hk_efi_kobj E \<and> hk_create_link E \<noteq> None then [No_link] else [])
                      in (None, st, 1, log @ [Created])))"

section \<open>Properties\<close>

lemma hwk_static:
  assumes "hw_info_init E st = (None, st', refs, log)" and "hw_runtime_funcs st = None"
  shows "\<exists>t. hk_get_table E = Some t \<and> hw_zhwi_tbl st' = Some t \<and> hw_runtime_funcs st' = None \<and> refs = 1"
  using assms
  by (auto simp: hw_info_init_def read_zhwi_acpi_table_def map_runtime_def FALSE_def Let_def split: option.splits prod.splits)

lemma field_append: "off + n \<le> length bs \<Longrightarrow> field off n (bs @ rest) = field off n bs"
  by (simp add: field_def)

text \<open>
  C19: From the firmware to sysfs: when the kernel finds the table that the UEFI driver installed, whatever follows it in memory, and the module initialises, the
  four files show the fields of the driver's table, in decimal, the temperature with one digit after the point. Reading the printed
  number back gives the field.
\<close>

theorem zhwi_end_to_end:
  assumes "zhwi_wf t" and "InstallAcpiTable F (zhwi_bytes t) = (EFI_SUCCESS, table, Some bs)"
    and "hk_get_table E = Some (bs @ rest)" and "hw_runtime_funcs st = None" and "hw_info_init E st = (None, st', refs, log)"
  shows "fan_speed_show st' = Inr (decimal (unat (z_FanSpeed t)) @ newline) \<and>
    system_load_show st' = Inr (decimal (unat (z_SystemLoad t)) @ newline) \<and>
    timestamp_show st' = Inr (decimal (unat (z_Timestamp t)) @ newline) \<and>
    cpu_temp_show st' = Inr (decimal (unat (z_CpuTemp t) div 10) @ ''.'' @ decimal (unat (z_CpuTemp t) mod 10) @ newline) \<and>
    undecimal (decimal (unat (z_FanSpeed t))) = unat (z_FanSpeed t)"
proof -
  have st': "hw_zhwi_tbl st' = Some (bs @ rest)" "hw_runtime_funcs st' = None" using hwk_static [OF assms(5,4)] assms(3) by auto
  note i = installed_fields [OF assms(1,2)]
  have f: "val32 (field 40 4 (bs @ rest)) = z_FanSpeed t" "val32 (field 44 4 (bs @ rest)) = z_CpuTemp t"
    "val32 (field 48 4 (bs @ rest)) = z_SystemLoad t" "val64 (field 52 8 (bs @ rest)) = z_Timestamp t"
    using i by (simp_all add: field_append)
  show ?thesis
    by (simp add: fan_speed_show_def system_load_show_def timestamp_show_def cpu_temp_show_def runtime_call_def st' f undecimal_decimal unat_div unat_mod)
qed

text \<open>The demonstration: the driver's own table, followed by eight bytes of something else.\<close>

definition demo_hw_env :: hw_env where
  "demo_hw_env = \<lparr>he_locate = EFI_SUCCESS, he_install = \<lambda>_. EFI_SUCCESS\<rparr>"

definition demo_hwk_env :: "u8 list \<Rightarrow> hwk_env" where
  "demo_hwk_env bs = \<lparr>hk_get_table = Some (bs @ replicate 8 0xff), hk_ioremap = \<lambda>_. None, hk_kobject = Some 5, hk_create_group = None,
     hk_efi_kobj = True, hk_create_link = None\<rparr>"

definition hwk_start :: hwk_state where
  "hwk_start = \<lparr>hw_zhwi_tbl = None, hw_kobj = None, hw_runtime_funcs = None\<rparr>"

lemma demo_zhwi: "zhwi_wf mZhwiTable" "\<exists>table bs. InstallAcpiTable demo_hw_env (zhwi_bytes mZhwiTable) = (EFI_SUCCESS, table, Some bs)"
proof -
  show wf: "zhwi_wf mZhwiTable" by (simp add: zhwi_wf_def mZhwiTable_def)
  obtain Status table installed where i: "InstallAcpiTable demo_hw_env (zhwi_bytes mZhwiTable) = (Status, table, installed)" by (metis prod_cases3)
  have "Status = EFI_SUCCESS" using i by (auto simp: InstallAcpiTable_def EFI_ERROR_def demo_hw_env_def Let_def)
  with install_sealed [OF wf i] i show "\<exists>table bs. InstallAcpiTable demo_hw_env (zhwi_bytes mZhwiTable) = (EFI_SUCCESS, table, Some bs)" by blast
qed

lemma demo_init: "\<exists>st' refs log. hw_info_init (demo_hwk_env bs) hwk_start = (None, st', refs, log)"
  by (simp add: hw_info_init_def read_zhwi_acpi_table_def map_runtime_def FALSE_def demo_hwk_env_def Let_def)

theorem zhwi_end_to_end_witness:
  "\<exists>table bs st' refs log. InstallAcpiTable demo_hw_env (zhwi_bytes mZhwiTable) = (EFI_SUCCESS, table, Some bs) \<and>
     hw_info_init (demo_hwk_env bs) hwk_start = (None, st', refs, log) \<and>
     fan_speed_show st' = Inr (''2500'' @ newline) \<and> cpu_temp_show st' = Inr (''42.0'' @ newline)"
proof -
  obtain table bs where i: "InstallAcpiTable demo_hw_env (zhwi_bytes mZhwiTable) = (EFI_SUCCESS, table, Some bs)" using demo_zhwi(2) by blast
  obtain st' refs log where h: "hw_info_init (demo_hwk_env bs) hwk_start = (None, st', refs, log)" using demo_init by blast
  have g: "hk_get_table (demo_hwk_env bs) = Some (bs @ replicate 8 0xff)" "hw_runtime_funcs hwk_start = None"
    by (simp_all add: demo_hwk_env_def hwk_start_def)
  have d: "decimal 2500 = ''2500''" "decimal 42 = ''42''" "decimal 0 = ''0''"
    by (simp_all add: decimal.simps digit_def char_of_def bit_0)
  from zhwi_end_to_end [OF demo_zhwi(1) i g h] i h d show ?thesis by (auto simp: mZhwiTable_def)
qed



text \<open>
  The initialisation is all or nothing for the kobject: an error leaves no reference to it, success leaves one. A missing table is \<^verbatim>\<open>-ENODEV\<close>, a
  kobject that cannot be made \<^verbatim>\<open>-ENOMEM\<close>; a failing symbolic link is only reported.
\<close>

theorem hw_info_init_refs:
  assumes "hw_info_init E st = (r, st', refs, log)"
  shows "refs = (if r = None then 1 else 0) \<and>
    (hk_get_table E = None \<longrightarrow> r = Some ENODEV) \<and>
    (hk_get_table E \<noteq> None \<and> hk_kobject E = None \<longrightarrow> r = Some ENOMEM) \<and>
    (hk_get_table E \<noteq> None \<and> hk_kobject E \<noteq> None \<longrightarrow> r = hk_create_group E)"
  using assms
  by (cases "hk_create_group E"; cases "hk_get_table E"; cases "hk_kobject E")
    (auto simp: hw_info_init_def read_zhwi_acpi_table_def Let_def split: prod.splits, metis)

theorem hw_info_init_refs_witness:
  "\<exists>st' refs log. hw_info_init (demo_hwk_env [] \<lparr>hk_create_group := Some EEXIST\<rparr>) hwk_start = (Some EEXIST, st', refs, log) \<and> refs = 0"
proof -
  obtain r st' refs log where h: "hw_info_init (demo_hwk_env []\<lparr>hk_create_group := Some EEXIST\<rparr>) hwk_start = (r, st', refs, log)"
    by (metis prod_cases4)
  from hw_info_init_refs [OF h] h show ?thesis by (auto simp: demo_hwk_env_def)
qed

end
