(* ===== verification/Hello_World.thy ===== *)
theory Hello_World
  imports Acpi
begin

text \<open>
  The UEFI application that lists the ACPI tables and changes one of them (\<^verbatim>\<open>HelloWorldPkg/HelloWorld.c\<close>). Memory is a function from addresses to bytes; a
  structure is read at its offsets. The configuration table of the firmware is the list of its entries; the two ACPI identifiers,
  \<^verbatim>\<open>AllocatePool\<close> and \<^verbatim>\<open>CalculateCheckSum8\<close> are parameters. \<^verbatim>\<open>AllocatePool\<close> returns address 0 for failure, as in C.
  \<open>acpi_tables\<close> is the reference: all tables reachable from the configuration table, in the order of the pointers.
\<close>

section \<open>Memory\<close>

type_synonym mem = "addr \<Rightarrow> u8"

definition mem_bytes :: "mem \<Rightarrow> addr \<Rightarrow> nat \<Rightarrow> u8 list" where
  "mem_bytes M a n = map M [a..<a + n]"

definition rd32 :: "mem \<Rightarrow> addr \<Rightarrow> u32" where
  "rd32 M a = val32 (mem_bytes M a 4)"

definition rd64 :: "mem \<Rightarrow> addr \<Rightarrow> u64" where
  "rd64 M a = val64 (mem_bytes M a 8)"

text \<open>\<^verbatim>\<open>CopyMem\<close> reads the source before it writes: overlapping buffers are copied correctly.\<close>

definition copy_mem :: "mem \<Rightarrow> addr \<Rightarrow> addr \<Rightarrow> nat \<Rightarrow> mem" where
  "copy_mem M dst src n = (\<lambda>a. if dst \<le> a \<and> a < dst + n then M (src + (a - dst)) else M a)"

section \<open>Printing\<close>

datatype out = Lit string | Chr8 u8 | Hex nat u64 | Dec u64 | Addr addr

record efi_guid =
  g_Data1 :: u32
  g_Data2 :: u16
  g_Data3 :: u16
  g_Data4 :: "u8 list"

definition PrintGuid :: "efi_guid \<Rightarrow> out list" where
  "PrintGuid g =
     [Hex 8 (ucast (g_Data1 g)), Lit ''-'', Hex 4 (ucast (g_Data2 g)), Lit ''-'', Hex 4 (ucast (g_Data3 g)), Lit ''-'',
      Hex 2 (ucast (g_Data4 g ! 0)), Hex 2 (ucast (g_Data4 g ! 1)), Lit ''-'', Hex 2 (ucast (g_Data4 g ! 2)), Hex 2 (ucast (g_Data4 g ! 3)),
      Hex 2 (ucast (g_Data4 g ! 4)), Hex 2 (ucast (g_Data4 g ! 5)), Hex 2 (ucast (g_Data4 g ! 6)), Hex 2 (ucast (g_Data4 g ! 7)),
      Lit [CHR 0x0A]]"

text \<open>\<^verbatim>\<open>CHAR8\<close> is a signed character: the conversion to \<^verbatim>\<open>UINT32\<close> extends its sign.\<close>

fun TS_loop :: "8 word list \<Rightarrow> nat \<Rightarrow> nat \<Rightarrow> u32 \<Rightarrow> u32" where
  "TS_loop Signature 0 i Result = Result"
| "TS_loop Signature (Suc n) i Result = TS_loop Signature n (i + 1) (Result OR push_bit (i * 8) (scast (Signature ! i)))"

definition TS :: "8 word list \<Rightarrow> u32" where
  "TS Signature = TS_loop Signature 4 0 0"

definition sig_chars :: "u32 \<Rightarrow> u8 list" where
  "sig_chars s = [ucast (s AND 0xff), ucast (drop_bit 8 s AND 0xff), ucast (drop_bit 16 s AND 0xff), ucast (drop_bit 24 s AND 0xff)]"

definition line :: "string \<Rightarrow> out list \<Rightarrow> out list" where
  "line s xs = Lit s # xs @ [Lit [CHR 0x0A]]"

definition PrintAcpiHeader :: "mem \<Rightarrow> addr \<Rightarrow> out list" where
  "PrintAcpiHeader M h =
     [Lit ''---------- ''] @ map Chr8 (sig_chars (rd32 M h)) @ [Lit '' HEADER ----------'', Lit [CHR 0x0A]] @
     line ''Address      : 0x'' [Addr h] @
     line ''Length       : '' [Dec (ucast (rd32 M (h + 4)))] @
     line ''Revision     : '' [Dec (ucast (M (h + 8)))] @
     line ''Checksum     : '' [Hex 0 (ucast (M (h + 9)))] @
     line ''OEM ID       : '' (map Chr8 (mem_bytes M (h + 10) 6)) @
     line ''OEM Table ID : '' [Dec (rd64 M (h + 16))] @
     line ''OEM Revision : '' [Dec (ucast (rd32 M (h + 24)))] @
     line ''Creator ID   : '' [Dec (ucast (rd32 M (h + 28)))] @
     line ''Creator Rev  : '' [Dec (ucast (rd32 M (h + 32)))] @ [Lit [CHR 0x0A]]"

section \<open>Walking the tables\<close>

definition FADT_SIGNATURE :: u32 where "FADT_SIGNATURE = val32 [0x46, 0x41, 0x43, 0x50]"
definition APIC_SIGNATURE :: u32 where "APIC_SIGNATURE = val32 [0x41, 0x50, 0x49, 0x43]"

definition fadt_Dsdt :: "mem \<Rightarrow> addr \<Rightarrow> addr" where "fadt_Dsdt M t = unat (rd32 M (t + 40))"
definition fadt_FirmwareCtrl :: "mem \<Rightarrow> addr \<Rightarrow> addr" where "fadt_FirmwareCtrl M t = unat (rd32 M (t + 36))"
definition rsdp_XsdtAddress :: "mem \<Rightarrow> addr \<Rightarrow> addr" where "rsdp_XsdtAddress M r = unat (rd64 M (r + 24))"

text \<open>\<^verbatim>\<open>(XSDT->Length - sizeof(EFI_ACPI_DESCRIPTION_HEADER)) / sizeof(UINT64)\<close>: the difference is one of \<^verbatim>\<open>UINTN\<close> and wraps.\<close>

definition xsdt_count :: "mem \<Rightarrow> addr \<Rightarrow> nat" where
  "xsdt_count M xsdt = unat ((ucast (rd32 M (xsdt + 4)) - of_nat HEADER_SIZE :: u64) div 8)"

text \<open>The inner loop of \<^verbatim>\<open>GetACPITable\<close>: \<open>n\<close> entries are left, the next is at \<open>ptr\<close>.\<close>

fun get_entries :: "mem \<Rightarrow> u32 \<Rightarrow> nat \<Rightarrow> addr \<Rightarrow> ptr" where
  "get_entries M sg 0 p = None"
| "get_entries M sg (Suc n) p =
     (let Entry = unat (rd64 M p)
      in if Entry \<noteq> 0
         then if rd32 M Entry = sg then Some Entry
              else if rd32 M Entry = FADT_SIGNATURE
              then let DSDT = fadt_Dsdt M Entry; FACS = fadt_FirmwareCtrl M Entry
                   in if DSDT \<noteq> 0 \<and> rd32 M DSDT = sg then Some DSDT
                      else if FACS \<noteq> 0 \<and> rd32 M FACS = sg then Some FACS
                      else get_entries M sg n (p + 8)
              else get_entries M sg n (p + 8)
         else get_entries M sg n (p + 8))"

type_synonym config = "(efi_guid \<times> addr) list"

fun GetACPITable :: "efi_guid \<Rightarrow> efi_guid \<Rightarrow> mem \<Rightarrow> config \<Rightarrow> u32 \<Rightarrow> ptr" where
  "GetACPITable g1 g2 M [] sg = None"
| "GetACPITable g1 g2 M ((guid, Root) # cfg) sg =
     (if guid = g1 \<or> guid = g2
      then let XSDT = rsdp_XsdtAddress M Root
           in case get_entries M sg (xsdt_count M XSDT) (XSDT + HEADER_SIZE) of
                Some t \<Rightarrow> Some t
              | None \<Rightarrow> GetACPITable g1 g2 M cfg sg
      else GetACPITable g1 g2 M cfg sg)"

fun print_entries :: "mem \<Rightarrow> nat \<Rightarrow> addr \<Rightarrow> out list" where
  "print_entries M 0 p = []"
| "print_entries M (Suc n) p =
     (let Entry = unat (rd64 M p)
      in (if Entry \<noteq> 0
          then PrintAcpiHeader M Entry @
               (if rd32 M Entry = FADT_SIGNATURE
                then (if fadt_Dsdt M Entry \<noteq> 0 then PrintAcpiHeader M (fadt_Dsdt M Entry) else []) @
                     (if fadt_FirmwareCtrl M Entry \<noteq> 0 then PrintAcpiHeader M (fadt_FirmwareCtrl M Entry) else [])
                else [])
          else []) @ print_entries M n (p + 8))"

definition print_rsdp :: "mem \<Rightarrow> addr \<Rightarrow> addr \<Rightarrow> out list" where
  "print_rsdp M configTab Root =
     line ''Found ACPI table'' [] @ line ''Address : 0x'' [Addr configTab] @ [Lit [CHR 0x0A]] @
     line ''---------- RSDP TABLE ----------'' [] @
     line ''Address      : 0x'' [Addr Root] @
     line ''Length       : '' [Dec (ucast (rd32 M (Root + 20)))] @
     line ''Signature    : '' (map Chr8 (mem_bytes M Root 8)) @
     line ''OEM ID       : '' (map Chr8 (mem_bytes M (Root + 9) 6)) @
     line ''Checksum     : '' [Dec (ucast (M (Root + 8)))] @
     line ''RSDT address : 0x'' [Addr (unat (rd32 M (Root + 16)))] @
     line ''XSDT address : 0x'' [Addr (rsdp_XsdtAddress M Root)] @ [Lit [CHR 0x0A]]"

definition print_xsdt :: "mem \<Rightarrow> addr \<Rightarrow> out list" where
  "print_xsdt M XSDT =
     line ''---------- XSDT TABLE ----------'' [] @
     line ''Address      : 0x'' [Addr XSDT] @
     line ''Length       : '' [Dec (ucast (rd32 M (XSDT + 4)))] @
     line ''Signature    : '' (map Chr8 (mem_bytes M XSDT 4)) @
     line ''OEM ID       : '' (map Chr8 (mem_bytes M (XSDT + 10) 6)) @
     line ''Checksum     : '' [Dec (ucast (M (XSDT + 9)))] @ [Lit [CHR 0x0A]]"

text \<open>\<open>tab\<close> is the address of the entry of the configuration table, which has 24 bytes.\<close>

fun print_configs :: "efi_guid \<Rightarrow> efi_guid \<Rightarrow> mem \<Rightarrow> addr \<Rightarrow> config \<Rightarrow> out list" where
  "print_configs g1 g2 M tab [] = []"
| "print_configs g1 g2 M tab ((guid, Root) # cfg) =
     (if guid = g1 \<or> guid = g2
      then let XSDT = rsdp_XsdtAddress M Root
           in print_rsdp M tab Root @ print_xsdt M XSDT @ print_entries M (xsdt_count M XSDT) (XSDT + HEADER_SIZE)
      else []) @ print_configs g1 g2 M (tab + 24) cfg"

definition PrintAllACPITables :: "efi_guid \<Rightarrow> efi_guid \<Rightarrow> mem \<Rightarrow> addr \<Rightarrow> config \<Rightarrow> out list" where
  "PrintAllACPITables g1 g2 M tab cfg = line ''Print ACPI'' [] @ print_configs g1 g2 M tab cfg"

section \<open>Changing a table\<close>

definition ModifyACPITable :: "(u8 list \<Rightarrow> u8) \<Rightarrow> mem \<Rightarrow> addr \<Rightarrow> addr \<Rightarrow> mem" where
  "ModifyACPITable CalculateCheckSum8 M entry NewTable =
     (let M = copy_mem M entry NewTable (unat (rd32 M (NewTable + 4)));
          M = M(entry + CHECKSUM_OFFSET := 0)
      in M(entry + CHECKSUM_OFFSET := CalculateCheckSum8 (mem_bytes M entry (unat (rd32 M (entry + 4))))))"

definition ChangeACPITable :: "efi_guid \<Rightarrow> efi_guid \<Rightarrow> (u8 list \<Rightarrow> u8) \<Rightarrow> mem \<Rightarrow> config \<Rightarrow> u32 \<Rightarrow> addr \<Rightarrow> mem" where
  "ChangeACPITable g1 g2 CalculateCheckSum8 M cfg sg NewTable =
     (case GetACPITable g1 g2 M cfg sg of None \<Rightarrow> M | Some entry \<Rightarrow> ModifyACPITable CalculateCheckSum8 M entry NewTable)"

definition set_oem :: "mem \<Rightarrow> addr \<Rightarrow> mem" where
  "set_oem M t = M(t + 10 := 0x41, t + 11 := 0x42, t + 12 := 0x43, t + 13 := 0x44, t + 14 := 0x45, t + 15 := 0x46)"

definition UefiMain ::
    "efi_guid \<Rightarrow> efi_guid \<Rightarrow> (u8 list \<Rightarrow> u8) \<Rightarrow> (nat \<Rightarrow> addr) \<Rightarrow> mem \<Rightarrow> addr \<Rightarrow> config \<Rightarrow> out list \<times> mem" where
  "UefiMain g1 g2 CalculateCheckSum8 AllocatePool M tab cfg =
     (let out1 = PrintAllACPITables g1 g2 M tab cfg
      in case GetACPITable g1 g2 M cfg APIC_SIGNATURE of
           None \<Rightarrow> (out1, M)
         | Some entry \<Rightarrow>
             let len = unat (rd32 M (entry + 4));
                 NewTable = AllocatePool len;
                 out2 = line ''Found ACPI table'' [] @ PrintAcpiHeader M entry;
                 M = copy_mem M NewTable entry len;
                 M = set_oem M NewTable;
                 M = ModifyACPITable CalculateCheckSum8 M entry NewTable;
                 out3 = line ''Modified ACPI table'' [] @ PrintAcpiHeader M entry
             in (out1 @ out2 @ out3, M))"

section \<open>The reference: all tables in order\<close>

fun entry_tables :: "mem \<Rightarrow> nat \<Rightarrow> addr \<Rightarrow> addr list" where
  "entry_tables M 0 p = []"
| "entry_tables M (Suc n) p =
     (let e = unat (rd64 M p)
      in (if e = 0 then [] else
            e # (if rd32 M e = FADT_SIGNATURE then filter (\<lambda>t. t \<noteq> 0) [fadt_Dsdt M e, fadt_FirmwareCtrl M e] else [])) @
         entry_tables M n (p + 8))"

definition xsdt_tables :: "mem \<Rightarrow> addr \<Rightarrow> addr list" where
  "xsdt_tables M xsdt = entry_tables M (xsdt_count M xsdt) (xsdt + HEADER_SIZE)"

definition acpi_roots :: "efi_guid \<Rightarrow> efi_guid \<Rightarrow> config \<Rightarrow> addr list" where
  "acpi_roots g1 g2 cfg = map snd (filter (\<lambda>(g, r). g = g1 \<or> g = g2) cfg)"

definition acpi_tables :: "efi_guid \<Rightarrow> efi_guid \<Rightarrow> mem \<Rightarrow> config \<Rightarrow> addr list" where
  "acpi_tables g1 g2 M cfg = concat (map (\<lambda>r. xsdt_tables M (rsdp_XsdtAddress M r)) (acpi_roots g1 g2 cfg))"

lemma find_append: "find P (xs @ ys) = (case find P xs of Some x \<Rightarrow> Some x | None \<Rightarrow> find P ys)"
  by (induction xs) auto

lemma get_entries_find: "get_entries M sg n p = find (\<lambda>t. rd32 M t = sg) (entry_tables M n p)"
  by (induction n arbitrary: p) (simp_all add: Let_def find_append)

lemma print_entries_all: "print_entries M n p = concat (map (PrintAcpiHeader M) (entry_tables M n p))"
  by (induction n arbitrary: p) (simp_all add: Let_def)

text \<open>
  C35: \<^verbatim>\<open>GetACPITable\<close> returns the first table with the given signature among all tables reachable from the configuration table, the two sub-tables of the FADT included, and
  \<^verbatim>\<open>NULL\<close> when there is none. \<^verbatim>\<open>PrintAllACPITables\<close> prints the header of every one of these tables, in the same order.
\<close>

theorem acpi_walk:
  shows "GetACPITable g1 g2 M cfg sg = find (\<lambda>t. rd32 M t = sg) (acpi_tables g1 g2 M cfg) \<and>
    (\<exists>heads. length heads = length (acpi_roots g1 g2 cfg) \<and>
       PrintAllACPITables g1 g2 M tab cfg = line ''Print ACPI'' [] @
         concat (map (\<lambda>(h, r). h @ concat (map (PrintAcpiHeader M) (xsdt_tables M (rsdp_XsdtAddress M r)))) (zip heads (acpi_roots g1 g2 cfg))))"
proof
  show "GetACPITable g1 g2 M cfg sg = find (\<lambda>t. rd32 M t = sg) (acpi_tables g1 g2 M cfg)"
    by (induction g1 g2 M cfg sg rule: GetACPITable.induct)
      (auto simp: acpi_tables_def acpi_roots_def xsdt_tables_def Let_def find_append get_entries_find split: option.split)
  have "\<exists>heads. length heads = length (acpi_roots g1 g2 cfg) \<and> print_configs g1 g2 M tab cfg =
      concat (map (\<lambda>(h, r). h @ concat (map (PrintAcpiHeader M) (xsdt_tables M (rsdp_XsdtAddress M r)))) (zip heads (acpi_roots g1 g2 cfg)))"
  proof (induction g1 g2 M tab cfg rule: print_configs.induct)
    case (2 g1 g2 M tab guid Root cfg)
    then obtain heads where h: "length heads = length (acpi_roots g1 g2 cfg)" "print_configs g1 g2 M (tab + 24) cfg =
        concat (map (\<lambda>(h, r). h @ concat (map (PrintAcpiHeader M) (xsdt_tables M (rsdp_XsdtAddress M r)))) (zip heads (acpi_roots g1 g2 cfg)))"
      by blast
    show ?case
    proof (cases "guid = g1 \<or> guid = g2")
      case True
      with h show ?thesis
        by (intro exI [of _ "(print_rsdp M tab Root @ print_xsdt M (rsdp_XsdtAddress M Root)) # heads"])
          (auto simp: acpi_roots_def xsdt_tables_def print_entries_all Let_def)
    next
      case False
      with h show ?thesis by (intro exI [of _ heads]) (simp add: acpi_roots_def)
    qed
  qed (simp add: acpi_roots_def)
  then show "\<exists>heads. length heads = length (acpi_roots g1 g2 cfg) \<and>
       PrintAllACPITables g1 g2 M tab cfg = line ''Print ACPI'' [] @
         concat (map (\<lambda>(h, r). h @ concat (map (PrintAcpiHeader M) (xsdt_tables M (rsdp_XsdtAddress M r)))) (zip heads (acpi_roots g1 g2 cfg)))"
    by (simp add: PrintAllACPITables_def)
qed

section \<open>Signatures\<close>

lemma TS_four: "TS [a, b, c, d] = scast a OR push_bit 8 (scast b) OR push_bit 16 (scast c) OR push_bit 24 (scast d)"
  by (simp add: TS_def numeral_eq_Suc or.assoc)

text \<open>
  The characters that \<^verbatim>\<open>PrintAcpiHeader\<close> prints for a signature are those that \<^verbatim>\<open>TS\<close> packed into it, provided that the first three are ASCII; a byte with the
  top bit set in one of them would be extended over the bytes that follow it.
\<close>

theorem TS_roundtrip:
  assumes "\<not> bit a 7" and "\<not> bit b 7" and "\<not> bit c 7"
  shows "sig_chars (TS [a, b, c, d]) = [a, b, c, d]"
proof -
  have m: "(0xff :: u32) = mask 8" by (simp add: mask_eq_exp_minus_1)
  show ?thesis
    unfolding TS_four sig_chars_def m using assms by (auto intro!: bit_word_eqI simp: bit_simps)
qed

theorem TS_roundtrip_witness:
  "sig_chars (TS [0x41, 0x50, 0x49, 0x43]) = [0x41, 0x50, 0x49, 0x43]"
  by (rule TS_roundtrip) (simp_all add: bit_iff_odd_drop_bit)

section \<open>The changed table\<close>

lemma length_mem_bytes [simp]: "length (mem_bytes M a n) = n"
  by (simp add: mem_bytes_def)

lemma mem_bytes_nth: "i < n \<Longrightarrow> mem_bytes M a n ! i = M (a + i)"
  by (simp add: mem_bytes_def)

lemma mem_bytes_eqI: "(\<And>i. i < n \<Longrightarrow> M (a + i) = bs ! i) \<Longrightarrow> length bs = n \<Longrightarrow> mem_bytes M a n = bs"
  by (rule nth_equalityI) (simp_all add: mem_bytes_nth)

lemma mem_bytes_upd: "mem_bytes (M(a + i := b)) a n = (mem_bytes M a n)[i := b]"
  by (rule nth_equalityI) (auto simp: mem_bytes_nth nth_list_update)

lemma mem_bytes_copy: "mem_bytes (copy_mem M d s n) d n = mem_bytes M s n"
  by (rule nth_equalityI) (simp_all add: mem_bytes_nth copy_mem_def)

lemma copy_mem_other: "a < d \<or> d + n \<le> a \<Longrightarrow> copy_mem M d s n a = M a"
  by (auto simp: copy_mem_def)

lemma mem_bytes_field: "off + k \<le> n \<Longrightarrow> mem_bytes M (a + off) k = field off k (mem_bytes M a n)"
  by (rule nth_equalityI) (simp_all add: mem_bytes_nth field_def add.assoc)

lemma rd_length: "8 \<le> n \<Longrightarrow> rd32 M (a + 4) = val32 (field 4 4 (mem_bytes M a n))"
  using mem_bytes_field [of 4 4 n M a] by (simp add: rd32_def)

lemma field_upd: "i < off \<or> off + k \<le> i \<Longrightarrow> field off k (bs[i := b]) = field off k bs"
  by (auto simp: field_def drop_update_cancel drop_update_swap take_update_cancel)

definition oem_bytes :: "u8 list \<Rightarrow> u8 list" where
  "oem_bytes bs = bs[10 := 0x41, 11 := 0x42, 12 := 0x43, 13 := 0x44, 14 := 0x45, 15 := 0x46]"

lemma set_oem_bytes: "mem_bytes (set_oem M t) t n = oem_bytes (mem_bytes M t n)"
  by (simp add: set_oem_def oem_bytes_def mem_bytes_upd)

text \<open>The effect of \<^verbatim>\<open>ModifyACPITable\<close> on the bytes of the table, when the new table is as long as the old one.\<close>

lemma ModifyACPITable_bytes:
  assumes "acpi_checksum cs" and "10 \<le> n" and "unat (rd32 M (t + 4)) = n"
  shows "mem_bytes (ModifyACPITable cs M e t) e n = acpi_checksum.seal cs 9 (mem_bytes M t n)"
    and "a < e \<or> e + n \<le> a \<Longrightarrow> ModifyACPITable cs M e t a = M a"
proof -
  define M1 where "M1 = copy_mem M e t n"
  define M2 where "M2 = M1(e + 9 := 0)"
  have b1: "mem_bytes M1 e n = mem_bytes M t n" by (simp add: M1_def mem_bytes_copy)
  have b2: "mem_bytes M2 e n = (mem_bytes M t n)[9 := 0]" by (simp add: M2_def mem_bytes_upd b1)
  have "rd32 M2 (e + 4) = val32 (field 4 4 (mem_bytes M t n))"
    using rd_length [of n M2 e] assms(2) by (simp add: b2 field_upd)
  also have "\<dots> = rd32 M (t + 4)" using rd_length [of n M t] assms(2) by simp
  finally have len: "unat (rd32 M2 (e + 4)) = n" using assms(3) by simp
  have m: "ModifyACPITable cs M e t = M2(e + 9 := cs ((mem_bytes M t n)[9 := 0]))"
    by (simp add: ModifyACPITable_def Let_def CHECKSUM_OFFSET_def assms(3) M1_def [symmetric] M2_def [symmetric] len b2) (simp add: M2_def)
  show "mem_bytes (ModifyACPITable cs M e t) e n = acpi_checksum.seal cs 9 (mem_bytes M t n)"
    unfolding m by (simp add: mem_bytes_upd b2 acpi_checksum.seal_def [OF assms(1)])
  assume "a < e \<or> e + n \<le> a"
  then show "ModifyACPITable cs M e t a = M a"
    using assms(2) unfolding m M2_def M1_def by (auto simp: copy_mem_other)
qed

lemma set_oem_other: "a < t + 10 \<or> t + 16 \<le> a \<Longrightarrow> set_oem M t a = M a"
  by (auto simp: set_oem_def)

text \<open>
  C15: When the application finds the APIC table, it leaves it in memory with the OEM identifier \<^verbatim>\<open>ABCDEF\<close>, the same length and a correct checksum; every other byte of the
  table, and every byte of memory outside the table and the allocated buffer, is unchanged. This holds for every checksum function that satisfies its contract and
  every buffer that does not overlap the table.
\<close>

theorem UefiMain_correct:
  assumes "acpi_checksum cs" and "GetACPITable g1 g2 M cfg APIC_SIGNATURE = Some e"
    and "unat (rd32 M (e + 4)) = n" and "HEADER_SIZE \<le> n"
    and "alloc n + n \<le> e \<or> e + n \<le> alloc n"
    and "UefiMain g1 g2 cs alloc M tab cfg = (prints, M')"
  shows "byte_sum (mem_bytes M' e n) = 0 \<and> unat (rd32 M' (e + 4)) = n \<and>
    mem_bytes M' (e + 10) 6 = [0x41, 0x42, 0x43, 0x44, 0x45, 0x46] \<and>
    (\<forall>i < n. i < 9 \<or> 16 \<le> i \<longrightarrow> M' (e + i) = M (e + i)) \<and>
    (\<forall>a. (a < e \<or> e + n \<le> a) \<and> (a < alloc n \<or> alloc n + n \<le> a) \<longrightarrow> M' a = M a)"
proof -
  have n: "36 \<le> n" using assms(4) by (simp add: HEADER_SIZE_def)
  define bs where "bs = mem_bytes M e n"
  define M2 where "M2 = set_oem (copy_mem M (alloc n) e n) (alloc n)"
  have M': "M' = ModifyACPITable cs M2 e (alloc n)"
    using assms(2,3,6) by (simp add: UefiMain_def Let_def M2_def)
  have b2: "mem_bytes M2 (alloc n) n = oem_bytes bs" by (simp add: M2_def set_oem_bytes mem_bytes_copy bs_def)
  have len: "length (oem_bytes bs) = n" by (simp add: oem_bytes_def bs_def)
  have "rd32 M2 (alloc n + 4) = val32 (field 4 4 bs)"
    using rd_length [of n M2 "alloc n"] n by (simp add: b2 oem_bytes_def field_upd)
  moreover have "val32 (field 4 4 bs) = rd32 M (e + 4)" using rd_length [of n M e] n by (simp add: bs_def)
  ultimately have l2: "unat (rd32 M2 (alloc n + 4)) = n" using assms(3) by simp
  note mod = ModifyACPITable_bytes [OF assms(1) _ l2, where e = e, folded M', unfolded b2]
  have b: "mem_bytes M' e n = acpi_checksum.seal cs 9 (oem_bytes bs)" using mod(1) n by simp
  have nth: "M' (e + i) = oem_bytes bs ! i" if "i < n" "i \<noteq> 9" for i
    using mem_bytes_nth [OF that(1), of M' e] that acpi_checksum.seal_nth [OF assms(1) that(2)] unfolding b by simp
  have "byte_sum (mem_bytes M' e n) = 0" unfolding b using acpi_checksum.seal_sum [OF assms(1)] len n by simp
  moreover have "rd32 M' (e + 4) = rd32 M (e + 4)"
    using rd_length [of n M' e] rd_length [of n M e] n acpi_checksum.seal_field [OF assms(1), of 9 4 4]
    by (simp add: b oem_bytes_def field_upd bs_def)
  moreover have "mem_bytes M' (e + 10) 6 = [0x41, 0x42, 0x43, 0x44, 0x45, 0x46]"
  proof (rule mem_bytes_eqI)
    fix i :: nat assume "i < 6"
    then have "i \<in> {0, 1, 2, 3, 4, 5}" by auto
    then show "M' (e + 10 + i) = [0x41, 0x42, 0x43, 0x44, 0x45, 0x46] ! i"
      using nth [of "10 + i"] n len by (auto simp: oem_bytes_def bs_def add.assoc)
  qed simp
  moreover have "M' (e + i) = M (e + i)" if "i < n" "i < 9 \<or> 16 \<le> i" for i
    using nth [OF that(1)] that by (auto simp: oem_bytes_def bs_def mem_bytes_nth nth_list_update)
  moreover have "M' a = M a" if "a < e \<or> e + n \<le> a" "a < alloc n \<or> alloc n + n \<le> a" for a
  proof -
    have "M' a = M2 a" using mod(2) n that(1) by simp
    also have "\<dots> = M a" using that(2) n unfolding M2_def by (subst set_oem_other) (auto simp: copy_mem_other)
    finally show ?thesis .
  qed
  ultimately show ?thesis using assms(3) by auto
qed

text \<open>A memory with one configuration entry at work: RSDP at 100, XSDT at 200 with one entry, the APIC table at 300; the buffer is at 1000.\<close>

definition demo_apic :: "u8 list" where
  "demo_apic = header_bytes \<lparr>h_Signature = APIC_SIGNATURE, h_Length = 40, h_Revision = 3, h_Checksum = 0, h_OemId = [1, 2, 3, 4, 5, 6],
     h_OemTableId = 7, h_OemRevision = 1, h_CreatorId = 2, h_CreatorRevision = 3\<rparr> @ [9, 9, 9, 9]"

definition demo_xsdt :: "u8 list" where
  "demo_xsdt = header_bytes \<lparr>h_Signature = 0, h_Length = 44, h_Revision = 1, h_Checksum = 0, h_OemId = [0, 0, 0, 0, 0, 0],
     h_OemTableId = 0, h_OemRevision = 0, h_CreatorId = 0, h_CreatorRevision = 0\<rparr> @ le64 300"

definition demo_mem :: mem where
  "demo_mem a = (if 124 \<le> a \<and> a < 132 then le64 200 ! (a - 124)
     else if 200 \<le> a \<and> a < 244 then demo_xsdt ! (a - 200)
     else if 300 \<le> a \<and> a < 340 then demo_apic ! (a - 300) else 0)"

definition demo_guid :: efi_guid where
  "demo_guid = \<lparr>g_Data1 = 0xeb9d2d30, g_Data2 = 0x2d88, g_Data3 = 0x11d3, g_Data4 = [0x9a, 0x16, 0, 0x90, 0x27, 0x3f, 0xc1, 0x4d]\<rparr>"

lemma demo_mem_parts:
  "mem_bytes demo_mem 124 8 = le64 200" "mem_bytes demo_mem 200 44 = demo_xsdt" "mem_bytes demo_mem 300 40 = demo_apic"
proof -
  show "mem_bytes demo_mem 124 8 = le64 200" by (rule mem_bytes_eqI) (simp_all add: demo_mem_def)
  show "mem_bytes demo_mem 200 44 = demo_xsdt" by (rule mem_bytes_eqI) (simp_all add: demo_mem_def demo_xsdt_def header_bytes_def)
  show "mem_bytes demo_mem 300 40 = demo_apic" by (rule mem_bytes_eqI) (simp_all add: demo_mem_def demo_apic_def header_bytes_def)
qed

lemma demo_reads:
  "rd64 demo_mem 124 = 200" "rd32 demo_mem 204 = 44" "rd64 demo_mem 236 = 300" "rd32 demo_mem 300 = APIC_SIGNATURE" "rd32 demo_mem 304 = 40"
proof -
  show "rd64 demo_mem 124 = 200" by (simp add: rd64_def demo_mem_parts)
  show "rd32 demo_mem 204 = 44" using rd_length [of 44 demo_mem 200]
    by (simp add: demo_mem_parts demo_xsdt_def header_bytes_def field_def)
  show "rd64 demo_mem 236 = 300" using mem_bytes_field [of 36 8 44 demo_mem 200]
    by (simp add: rd64_def demo_mem_parts demo_xsdt_def header_bytes_def field_def)
  show "rd32 demo_mem 300 = APIC_SIGNATURE" using mem_bytes_field [of 0 4 40 demo_mem 300]
    by (simp add: rd32_def demo_mem_parts demo_apic_def header_bytes_def field_def)
  show "rd32 demo_mem 304 = 40" using rd_length [of 40 demo_mem 300]
    by (simp add: demo_mem_parts demo_apic_def header_bytes_def field_def)
qed

lemma demo_get: "GetACPITable demo_guid demo_guid demo_mem [(demo_guid, 100)] APIC_SIGNATURE = Some 300"
  by (simp add: rsdp_XsdtAddress_def xsdt_count_def demo_reads HEADER_SIZE_def)

theorem UefiMain_correct_witness:
  "\<exists>prints M'. UefiMain demo_guid demo_guid (\<lambda>bs. - byte_sum bs) (\<lambda>_. 1000) demo_mem 50 [(demo_guid, 100)] = (prints, M') \<and>
     byte_sum (mem_bytes M' 300 40) = 0 \<and> mem_bytes M' 310 6 = [0x41, 0x42, 0x43, 0x44, 0x45, 0x46]"
proof -
  obtain prints M' where u: "UefiMain demo_guid demo_guid (\<lambda>bs. - byte_sum bs) (\<lambda>_. 1000) demo_mem 50 [(demo_guid, 100)] = (prints, M')"
    by fastforce
  have c: "acpi_checksum (\<lambda>bs. - byte_sum bs)" by (simp add: acpi_checksum_def)
  from UefiMain_correct [OF c demo_get _ _ _ u, of 40] u show ?thesis by (auto simp: demo_reads HEADER_SIZE_def)
qed

end
