(* ===== verification/Byte_File.thy ===== *)
theory Byte_File
  imports Prelude
begin

text \<open>
  Files as lists of bytes that are read and written at an offset, for \<open>Mmap_File\<close> and \<open>Fuse_Files\<close>.
  The locale \<open>byte_file\<close> is what the users of a file rely on; \<open>Fuse_Files\<close> interprets it on the files
  of the two file systems in user space.
\<close>

type_synonym bytes = "u8 list"

section \<open>Overwriting a range\<close>

text \<open>The bytes from \<open>off\<close> on are replaced by \<open>d\<close>; the file grows when \<open>d\<close> goes past its end.\<close>

definition overwrite :: "nat \<Rightarrow> 'a list \<Rightarrow> 'a list \<Rightarrow> 'a list" where
  "overwrite off d c = take off c @ d @ drop (off + length d) c"

text \<open>Zero bytes up to length \<open>n\<close>.\<close>

definition zero_pad :: "nat \<Rightarrow> bytes \<Rightarrow> bytes" where
  "zero_pad n c = c @ replicate (n - length c) 0"

lemma length_zero_pad [simp]: "length (zero_pad n c) = max n (length c)"
  by (simp add: zero_pad_def)

lemma zero_pad_short [simp]: "n \<le> length c \<Longrightarrow> zero_pad n c = c"
  by (simp add: zero_pad_def)

lemma zero_pad_pad: "m \<le> n \<Longrightarrow> zero_pad n (zero_pad m c) = zero_pad n c"
  by (cases "m \<le> length c") (auto simp: zero_pad_def simp flip: replicate_add)

lemma length_overwrite: "off \<le> length c \<Longrightarrow> length (overwrite off d c) = max (length c) (off + length d)"
  by (simp add: overwrite_def)

lemma read_overwrite_same: "off \<le> length c \<Longrightarrow> take (length d) (drop off (overwrite off d c)) = d"
  by (simp add: overwrite_def)

lemma nth_overwrite_below: "i < off \<Longrightarrow> off \<le> length c \<Longrightarrow> overwrite off d c ! i = c ! i"
  by (simp add: overwrite_def nth_append)

lemma nth_overwrite_above:
  "off + length d \<le> i \<Longrightarrow> i < length c \<Longrightarrow> overwrite off d c ! i = c ! i"
  by (auto simp: overwrite_def nth_append min_def)

lemma overwrite_zero_pad:
  "off \<le> length c \<Longrightarrow> overwrite off d (zero_pad (off + length d) c) = overwrite off d c"
  by (auto simp: overwrite_def zero_pad_def)

text \<open>A write at the end appends.\<close>

lemma overwrite_at_end: "overwrite (length c) d c = c @ d"
  by (simp add: overwrite_def)

lemma overwrite_twice: "off \<le> length c \<Longrightarrow> length d = length d' \<Longrightarrow> overwrite off d (overwrite off d' c) = overwrite off d c"
  by (simp add: overwrite_def)

text \<open>Reads of a range that a write does not touch.\<close>

lemma read_overwrite_other:
  assumes "off \<le> length c" and "o' + n \<le> off \<or> off + length d \<le> o'" and "o' + n \<le> length c"
  shows "take n (drop o' (overwrite off d c)) = take n (drop o' c)"
proof (rule nth_equalityI)
  show "length (take n (drop o' (overwrite off d c))) = length (take n (drop o' c))"
    using assms by (simp add: length_overwrite)
  show "take n (drop o' (overwrite off d c)) ! i = take n (drop o' c) ! i"
    if "i < length (take n (drop o' (overwrite off d c)))" for i
    using that assms nth_overwrite_below [of "o' + i" off c d] nth_overwrite_above [of off d "o' + i" c]
    by (auto simp: length_overwrite)
qed

section \<open>The contract of a file\<close>

locale byte_file =
  fixes ok :: "'s \<Rightarrow> bool"
    and contents :: "'s \<Rightarrow> bytes"
    and pread :: "'s \<Rightarrow> nat \<Rightarrow> nat \<Rightarrow> bytes"
    and pwrite :: "'s \<Rightarrow> nat \<Rightarrow> bytes \<Rightarrow> 's"
  assumes pread: "ok s \<Longrightarrow> pread s off n = take n (drop off (contents s))"
    and pwrite: "ok s \<Longrightarrow> off \<le> length (contents s) \<Longrightarrow> d \<noteq> [] \<Longrightarrow>
      contents (pwrite s off d) = overwrite off d (contents s)"
    and pwrite_ok: "ok s \<Longrightarrow> d \<noteq> [] \<Longrightarrow> ok (pwrite s off d)"
begin

lemma read_own_write:
  "ok s \<Longrightarrow> off \<le> length (contents s) \<Longrightarrow> d \<noteq> [] \<Longrightarrow> pread (pwrite s off d) off (length d) = d"
  by (simp add: pread pwrite pwrite_ok read_overwrite_same)

lemma read_other_range:
  "ok s \<Longrightarrow> off \<le> length (contents s) \<Longrightarrow> d \<noteq> [] \<Longrightarrow> o' + n \<le> length (contents s) \<Longrightarrow>
   o' + n \<le> off \<or> off + length d \<le> o' \<Longrightarrow> pread (pwrite s off d) o' n = pread s o' n"
  by (simp add: pread pwrite pwrite_ok read_overwrite_other)

text \<open>A stream written in pieces, each at the end of the previous one, is the concatenation.\<close>

fun write_stream :: "'s \<Rightarrow> nat \<Rightarrow> bytes list \<Rightarrow> 's" where
  "write_stream s off [] = s"
| "write_stream s off (d # ds) = write_stream (pwrite s off d) (off + length d) ds"

lemma write_stream:
  "ok s \<Longrightarrow> length (contents s) = off \<Longrightarrow> [] \<notin> set ds \<Longrightarrow>
   ok (write_stream s off ds) \<and> contents (write_stream s off ds) = contents s @ concat ds"
proof (induction s off ds rule: write_stream.induct)
  case (2 s off d ds)
  then have d: "d \<noteq> []" by auto
  have "contents (pwrite s off d) = contents s @ d"
    using pwrite [of s off d] 2(2,3) d overwrite_at_end [of "contents s" d] by simp
  then show ?case using 2 d pwrite_ok [of s d off] by auto
qed simp

lemma read_stream:
  assumes "ok s" and "contents s = []" and "[] \<notin> set ds"
  shows "pread (write_stream s 0 ds) off n = take n (drop off (concat ds))"
  using write_stream [of s 0 ds] assms by (simp add: pread)

end

end
