(* ===== verification/Mmap_File.thy ===== *)
theory Mmap_File
  imports Byte_File
begin

text \<open>
  \<^verbatim>\<open>memctrl/mmap/impl.c\<close>: moving a memory area with \<^verbatim>\<open>mmap_remap\<close> and writing a file through a shared
  mapping with \<^verbatim>\<open>file_mmap_write\<close>. The answers of the system calls are parameters; what a successful
  call does to the address space or to the files is written out. \<open>Crash\<close> is an access outside of
  every mapping.
\<close>

datatype 'a uresult = Crash | Ret 'a

section \<open>Moving an area\<close>

record addr_space =
  as_mem :: "addr \<Rightarrow> u8"
  as_mapped :: "addr set"

text \<open>A length rounded up to pages, and the addresses of an area.\<close>

definition page_up :: "nat \<Rightarrow> nat" where
  "page_up n = (n + 0xfff) div 0x1000 * 0x1000"

definition area :: "addr \<Rightarrow> nat \<Rightarrow> addr set" where
  "area a n = {a ..< a + n}"

text \<open>\<^verbatim>\<open>mmap\<close> of an anonymous private area, \<^verbatim>\<open>munmap\<close> and \<^verbatim>\<open>memcpy\<close> as the C library documents them.\<close>

definition mmap_anon :: "addr \<Rightarrow> nat \<Rightarrow> addr_space \<Rightarrow> addr_space" where
  "mmap_anon a n S =
     S\<lparr>as_mem := (\<lambda>x. if x \<in> area a (page_up n) then 0 else as_mem S x),
       as_mapped := as_mapped S \<union> area a (page_up n)\<rparr>"

definition munmap_area :: "addr \<Rightarrow> nat \<Rightarrow> addr_space \<Rightarrow> addr_space" where
  "munmap_area a n S =
     (if a mod 0x1000 \<noteq> 0 \<or> n = 0 then S
      else S\<lparr>as_mapped := as_mapped S - area a (page_up n)\<rparr>)"

definition memcpy :: "addr \<Rightarrow> addr \<Rightarrow> nat \<Rightarrow> addr_space \<Rightarrow> addr_space option" where
  "memcpy dst src n S =
     (if area src n \<subseteq> as_mapped S \<and> area dst n \<subseteq> as_mapped S
      then Some (S\<lparr>as_mem := (\<lambda>x. if x \<in> area dst n then as_mem S (src + (x - dst)) else as_mem S x)\<rparr>)
      else None)"

text \<open>\<open>p\<close> is what \<^verbatim>\<open>mmap\<close> returns, \<open>None\<close> for \<^verbatim>\<open>MAP_FAILED\<close>.\<close>

definition mmap_remap :: "ptr \<Rightarrow> ptr \<Rightarrow> nat \<Rightarrow> addr_space \<Rightarrow> (ptr \<times> addr_space) uresult" where
  "mmap_remap p addr len S =
     (case p of
        None \<Rightarrow> Ret (None, S)
      | Some new_addr \<Rightarrow>
          let S = mmap_anon new_addr len S in
          case addr of
            None \<Rightarrow> Ret (Some new_addr, S)
          | Some old \<Rightarrow>
              (case memcpy new_addr old len S of
                 None \<Rightarrow> Crash
               | Some S \<Rightarrow> Ret (Some new_addr, munmap_area old len S)))"

text \<open>An area that \<^verbatim>\<open>mmap\<close> returns is not empty, starts at a page and is not in use.\<close>

definition mmap_anon_ok :: "ptr \<Rightarrow> nat \<Rightarrow> addr_space \<Rightarrow> bool" where
  "mmap_anon_ok p len S \<longleftrightarrow>
     (\<forall>a. p = Some a \<longrightarrow> 0 < len \<and> a mod 0x1000 = 0 \<and> area a (page_up len) \<inter> as_mapped S = {})"

lemma page_up_ge: "n \<le> page_up n"
  by (simp add: page_up_def)

lemma area_mono: "m \<le> n \<Longrightarrow> area a m \<subseteq> area a n"
  by (auto simp: area_def)

lemma in_area: "a + i \<in> area a n \<longleftrightarrow> i < n"
  by (simp add: area_def)

section \<open>Writing a file\<close>

record ufile_sys =
  uf_files :: "string \<rightharpoonup> bytes"
  uf_open :: "nat \<rightharpoonup> string"
  uf_maps :: "addr \<rightharpoonup> string \<times> nat"

text \<open>
  The answers: the descriptor of \<^verbatim>\<open>open\<close>, whether \<^verbatim>\<open>fstat\<close>, \<^verbatim>\<open>ftruncate\<close> and \<^verbatim>\<open>msync\<close> succeed, and the
  address of \<^verbatim>\<open>mmap\<close>.
\<close>

record mw_env =
  mw_open :: "nat option"
  mw_fstat :: bool
  mw_ftruncate :: bool
  mw_mmap :: ptr
  mw_msync :: bool

definition open_creat :: "nat \<Rightarrow> string \<Rightarrow> ufile_sys \<Rightarrow> ufile_sys" where
  "open_creat fd name F =
     F\<lparr>uf_files := (case uf_files F name of None \<Rightarrow> (uf_files F)(name \<mapsto> []) | Some _ \<Rightarrow> uf_files F),
       uf_open := (uf_open F)(fd \<mapsto> name)\<rparr>"

definition close_fd :: "nat \<Rightarrow> ufile_sys \<Rightarrow> ufile_sys" where
  "close_fd fd F = F\<lparr>uf_open := (uf_open F)(fd := None)\<rparr>"

definition munmap_file :: "addr \<Rightarrow> ufile_sys \<Rightarrow> ufile_sys" where
  "munmap_file a F = F\<lparr>uf_maps := (uf_maps F)(a := None)\<rparr>"

definition file_of :: "string \<Rightarrow> ufile_sys \<Rightarrow> bytes" where
  "file_of name F = (case uf_files F name of None \<Rightarrow> [] | Some c \<Rightarrow> c)"

definition set_file :: "string \<Rightarrow> bytes \<Rightarrow> ufile_sys \<Rightarrow> ufile_sys" where
  "set_file name c F = F\<lparr>uf_files := (uf_files F)(name \<mapsto> c)\<rparr>"

text \<open>
  The sum \<^verbatim>\<open>offset + content_len\<close> is computed in \<^verbatim>\<open>size_t\<close>, which wraps, and stored in an \<^verbatim>\<open>off_t\<close>, which is
  signed. The copy writes the file itself, because the mapping is shared; it must stay within the
  mapping and within the file.
\<close>

definition file_mmap_write ::
    "mw_env \<Rightarrow> string \<Rightarrow> u64 \<Rightarrow> bytes \<Rightarrow> ufile_sys \<Rightarrow> (c_int \<times> ufile_sys) uresult" where
  "file_mmap_write E filename offset content F =
     (case mw_open E of
        None \<Rightarrow> Ret (-1, F)
      | Some fd \<Rightarrow>
          let F = open_creat fd filename F;
              content_len = of_nat (length content);
              total_len = offset + content_len in
          if \<not> mw_fstat E then Ret (-1, close_fd fd F)
          else
            let grow = int (length (file_of filename F)) < sint total_len in
            if grow \<and> \<not> mw_ftruncate E then Ret (-1, close_fd fd F)
            else
              let F = (if grow then set_file filename (zero_pad (unat total_len) (file_of filename F)) F else F) in
              case mw_mmap E of
                None \<Rightarrow> Ret (-1, close_fd fd F)
              | Some map_addr \<Rightarrow>
                  let F = F\<lparr>uf_maps := (uf_maps F)(map_addr \<mapsto> (filename, unat total_len))\<rparr> in
                  if unat offset + length content \<le> unat total_len \<and>
                     unat offset + length content \<le> length (file_of filename F)
                  then
                    let F = set_file filename (overwrite (unat offset) content (file_of filename F)) F in
                    if \<not> mw_msync E then Ret (-1, munmap_file map_addr F)
                    else Ret (0, close_fd fd (munmap_file map_addr F))
                  else Crash)"

text \<open>A new descriptor and a new mapping are not in use, and \<^verbatim>\<open>mmap\<close> refuses the length 0.\<close>

definition mw_ok :: "mw_env \<Rightarrow> nat \<Rightarrow> ufile_sys \<Rightarrow> bool" where
  "mw_ok E n F \<longleftrightarrow>
     (\<forall>fd. mw_open E = Some fd \<longrightarrow> uf_open F fd = None) \<and>
     (\<forall>a. mw_mmap E = Some a \<longrightarrow> uf_maps F a = None \<and> 0 < n)"

text \<open>The calls that \<^verbatim>\<open>file_mmap_write\<close> makes up to \<^verbatim>\<open>msync\<close> succeed.\<close>

definition mw_reaches :: "mw_env \<Rightarrow> bool \<Rightarrow> bool" where
  "mw_reaches E grow \<longleftrightarrow>
     mw_open E \<noteq> None \<and> mw_fstat E \<and> (grow \<longrightarrow> mw_ftruncate E) \<and> mw_mmap E \<noteq> None"

lemma file_of_open [simp]: "file_of name (open_creat fd name F) = file_of name F"
  by (simp add: file_of_def open_creat_def split: option.split)

lemma file_of_set [simp]: "file_of name (set_file name c F) = c"
  by (simp add: file_of_def set_file_def)

lemma file_of_maps [simp]: "file_of name (F\<lparr>uf_maps := m\<rparr>) = file_of name F"
  by (simp add: file_of_def)

lemma open_close [simp]:
  "uf_open F fd = None \<Longrightarrow> (uf_open F)(fd := None) = uf_open F"
  by auto

lemmas mw_state = open_creat_def close_fd_def munmap_file_def set_file_def

lemma sint_small: "unat (w :: u64) < 2 ^ 63 \<Longrightarrow> sint w = int (unat w)"
proof -
  assume "unat w < 2 ^ 63"
  then have "uint w < 2 ^ 63" by (rule uint_less_of_unat)
  moreover have "- (2 ^ 63) \<le> uint w" by (rule order_trans [OF _ uint_ge_0]) simp
  ultimately show ?thesis by (simp add: sint_uint signed_take_bit_int_eq_self)
qed

text \<open>
  One call of \<^verbatim>\<open>file_mmap_write\<close> after \<^verbatim>\<open>open\<close>, with the arithmetic done: \<open>F1\<close> is the state after \<^verbatim>\<open>open\<close>,
  \<open>F2\<close> the one after \<^verbatim>\<open>ftruncate\<close>, and \<open>W\<close> what the copy makes of the file.
\<close>

lemma file_mmap_write_eq:
  fixes name :: string and F :: ufile_sys
  assumes small: "unat offset + length content < 2 ^ 63" and fd: "mw_open E = Some fd"
  defines "n \<equiv> unat offset + length content"
  defines "grow \<equiv> length (file_of name F) < n"
  defines "F1 \<equiv> open_creat fd name F"
  defines "F2 \<equiv> (if grow then set_file name (zero_pad n (file_of name F)) F1 else F1)"
  defines "W \<equiv> overwrite (unat offset) content (zero_pad (unat offset) (file_of name F))"
  shows "file_mmap_write E name offset content F =
    (if \<not> mw_fstat E \<or> grow \<and> \<not> mw_ftruncate E then Ret (-1, close_fd fd F1)
     else case mw_mmap E of None \<Rightarrow> Ret (-1, close_fd fd F2)
     | Some a \<Rightarrow>
         let F4 = munmap_file a (set_file name W (F2\<lparr>uf_maps := (uf_maps F2)(a \<mapsto> (name, n))\<rparr>)) in
         if mw_msync E then Ret (0, close_fd fd F4) else Ret (-1, F4))"
proof -
  let ?t = "offset + of_nat (length content)"
  have len: "unat (of_nat (length content) :: u64) = length content"
    using small by (simp add: unat_of_nat take_bit_nat_eq_self)
  have t: "unat ?t = n" using small len unfolding n_def by (subst unat_add_no_wrap) simp_all
  have g: "int (length (file_of name F)) < sint ?t \<longleftrightarrow> grow"
    using sint_small [of ?t] small by (simp only: t n_def [symmetric] grow_def of_nat_less_iff)
  have pad: "overwrite (unat offset) content (zero_pad n (file_of name F)) = W"
    using overwrite_zero_pad [of "unat offset" "zero_pad (unat offset) (file_of name F)" content]
    by (simp add: zero_pad_pad W_def n_def)
  have keep: "zero_pad (unat offset) (file_of name F) = file_of name F" "n \<le> length (file_of name F)" if "\<not> grow"
    using that by (simp_all add: grow_def n_def)
  have c: "file_of name F2 = (if grow then zero_pad n (file_of name F) else file_of name F)"
    by (simp add: F2_def F1_def)
  have W: "overwrite (unat offset) content (file_of name F2) = W" "unat offset + length content \<le> length (file_of name F2)"
    unfolding c using pad keep by (simp_all add: W_def n_def)
  show ?thesis
    using W by (cases grow)
      (simp_all add: file_mmap_write_def fd g t F2_def F1_def Let_def n_def [symmetric] split: option.split)
qed

section \<open>Properties\<close>

text \<open>
  \<^verbatim>\<open>mmap_remap\<close> of an existing area: when \<^verbatim>\<open>mmap\<close> fails it returns NULL and the old area is intact;
  otherwise the new area holds the bytes of the old one, or zeros for a NULL argument, the old area
  is no longer mapped, and the bytes of all other areas are as they were.
\<close>

theorem mmap_remap_correct:
  assumes "mmap_anon_ok p len S"
    and "\<forall>old. addr = Some old \<longrightarrow> old mod 0x1000 = 0 \<and> area old (page_up len) \<subseteq> as_mapped S"
  shows "case p of
      None \<Rightarrow> mmap_remap p addr len S = Ret (None, S)
    | Some new \<Rightarrow>
        let gone = (case addr of None \<Rightarrow> {} | Some old \<Rightarrow> area old (page_up len)) in
        \<exists>S'. mmap_remap p addr len S = Ret (Some new, S') \<and>
          as_mapped S' = as_mapped S - gone \<union> area new (page_up len) \<and>
          (\<forall>i < len. as_mem S' (new + i) = (case addr of None \<Rightarrow> 0 | Some old \<Rightarrow> as_mem S (old + i))) \<and>
          (\<forall>x \<in> as_mapped S - gone. as_mem S' x = as_mem S x)"
proof (cases p)
  case None
  then show ?thesis by (simp add: mmap_remap_def)
next
  case (Some new)
  with assms(1) have ok: "0 < len" "area new (page_up len) \<inter> as_mapped S = {}"
    by (simp_all add: mmap_anon_ok_def)
  have sub: "area a len \<subseteq> area a (page_up len)" for a by (rule area_mono [OF page_up_ge])
  have fresh: "x \<notin> area new (page_up len)" "x \<notin> area new len" if "x \<in> as_mapped S" for x
    using that ok(2) sub by blast+
  show ?thesis
  proof (cases addr)
    case None
    with Some show ?thesis
      using fresh page_up_ge [of len] by (auto simp: mmap_remap_def mmap_anon_def in_area)
  next
    case (Some old)
    with assms(2) have old: "old mod 0x1000 = 0" "area old (page_up len) \<subseteq> as_mapped S" by simp_all
    have disj: "area old (page_up len) \<inter> area new (page_up len) = {}" using old(2) ok(2) by blast
    have "old + i \<notin> area new (page_up len)" if "i < len" for i
      using that old(2) fresh page_up_ge [of len] in_area [of old i "page_up len"] by (meson less_le_trans subsetD)
    moreover have "area old len \<subseteq> as_mapped S" using sub old(2) by blast
    ultimately show ?thesis
      using \<open>p = Some new\<close> Some old(1) ok(1) sub [of new] fresh disj
      by (auto simp: mmap_remap_def mmap_anon_def memcpy_def munmap_area_def in_area Let_def)
  qed
qed

definition demo_space :: addr_space where
  "demo_space = \<lparr>as_mem = (\<lambda>x. of_nat x), as_mapped = area 0x1000 0x2000\<rparr>"

theorem mmap_remap_correct_witness:
  "\<exists>S'. mmap_remap (Some 0x8000) (Some 0x1000) 5000 demo_space = Ret (Some 0x8000, S') \<and>
     as_mapped S' = area 0x8000 0x2000 \<and> as_mem S' (0x8000 + 7) = 7"
proof -
  have up: "page_up 5000 = 0x2000" by (simp add: page_up_def)
  have "mmap_anon_ok (Some 0x8000) 5000 demo_space" "area 0x1000 (page_up 5000) \<subseteq> as_mapped demo_space"
    by (auto simp: mmap_anon_ok_def demo_space_def up area_def)
  from mmap_remap_correct [OF this(1), of "Some 0x1000"] this(2) obtain S' where
    S': "mmap_remap (Some 0x8000) (Some 0x1000) 5000 demo_space = Ret (Some 0x8000, S')"
      "as_mapped S' = as_mapped demo_space - area 0x1000 0x2000 \<union> area 0x8000 0x2000"
      "\<forall>i < 5000. as_mem S' (0x8000 + i) = as_mem demo_space (0x1000 + i)"
    by (auto simp: Let_def up)
  have "as_mem S' (0x8000 + 7) = as_mem demo_space (0x1000 + 7)" using S'(3) [rule_format, of 7] by simp
  also have "\<dots> = 7" by (simp add: demo_space_def)
  finally show ?thesis using S'(1,2) by (auto simp: demo_space_def)
qed


definition demo_files :: ufile_sys where
  "demo_files = \<lparr>uf_files = [''a'' \<mapsto> [1, 2, 3]], uf_open = Map.empty, uf_maps = Map.empty\<rparr>"


end
