(* ===== verification/Fuse_Files.thy ===== *)
theory Fuse_Files
  imports Byte_File
begin

text \<open>
  The two file systems in user space of \<^verbatim>\<open>filesystem/fuse\<close>: \<^verbatim>\<open>HelloFS\<close> (\<^verbatim>\<open>hello_fuse.py\<close>) with one file,
  and \<^verbatim>\<open>GPTfs\<close> (\<^verbatim>\<open>GPT_FUSE.py\<close>), where a directory is a conversation and a write to its file \<^verbatim>\<open>input\<close> asks
  a language model. The model itself is a parameter. Slices, \<^verbatim>\<open>strip\<close> and \<^verbatim>\<open>split\<close> are those of Python,
  with negative indices counted from the end; a \<^verbatim>\<open>FuseOSError\<close> is the left of a sum.
\<close>

section \<open>Python lists and strings\<close>

definition py_index :: "int \<Rightarrow> 'a list \<Rightarrow> nat" where
  "py_index n xs = nat (if n < 0 then int (length xs) + n else n)"

definition py_upto :: "int \<Rightarrow> 'a list \<Rightarrow> 'a list" where
  "py_upto n xs = take (py_index n xs) xs"

definition py_from :: "int \<Rightarrow> 'a list \<Rightarrow> 'a list" where
  "py_from n xs = drop (py_index n xs) xs"

definition py_slice :: "int \<Rightarrow> int \<Rightarrow> 'a list \<Rightarrow> 'a list" where
  "py_slice a b xs = take (py_index b xs - py_index a xs) (drop (py_index a xs) xs)"

definition py_strip :: "char \<Rightarrow> string \<Rightarrow> string" where
  "py_strip c s = rev (dropWhile (\<lambda>x. x = c) (rev (dropWhile (\<lambda>x. x = c) s)))"

fun py_split :: "char \<Rightarrow> string \<Rightarrow> string list" where
  "py_split c [] = [[]]"
| "py_split c (x # s) =
     (if x = c then [] # py_split c s
      else case py_split c s of p # ps \<Rightarrow> (x # p) # ps | [] \<Rightarrow> [[x]])"

abbreviation SLASH :: char where "SLASH \<equiv> CHR ''/''"

definition path_parts :: "string \<Rightarrow> string list" where
  "path_parts path = py_split SLASH (py_strip SLASH path)"

abbreviation (input) ENOENT :: errno where "ENOENT \<equiv> Errno 2"
abbreviation (input) ENOTDIR :: errno where "ENOTDIR \<equiv> Errno 20"

record fuse_attr =
  fa_mode :: int
  fa_nlink :: nat
  fa_size :: "nat option"

section \<open>HelloFS\<close>

definition hello_path :: string where "hello_path = ''/hello.txt''"

definition hello_getattr :: "string \<Rightarrow> bytes \<Rightarrow> errno + fuse_attr" where
  "hello_getattr path hello =
     (if path = ''/'' then Inr \<lparr>fa_mode = 0x1ED OR 0x4000, fa_nlink = 2, fa_size = None\<rparr>
      else if path = hello_path
      then Inr \<lparr>fa_mode = 0x1B6 OR 0x8000, fa_nlink = 1, fa_size = Some (length hello)\<rparr>
      else Inl ENOENT)"

definition hello_readdir :: "string \<Rightarrow> string list" where
  "hello_readdir path = [''.'', ''..'', ''hello.txt'']"

definition hello_read :: "string \<Rightarrow> int \<Rightarrow> int \<Rightarrow> bytes \<Rightarrow> bytes" where
  "hello_read path n off hello = (if path = hello_path then py_slice off (off + n) hello else [])"

definition hello_open :: "string \<Rightarrow> errno + int" where
  "hello_open path = (if path \<noteq> hello_path then Inl ENOENT else Inr 0)"

definition hello_write :: "string \<Rightarrow> bytes \<Rightarrow> int \<Rightarrow> bytes \<Rightarrow> errno + (int \<times> bytes)" where
  "hello_write path data off hello =
     (if path = hello_path
      then Inr (int (length data), py_upto off hello @ data @ py_from (off + int (length data)) hello)
      else Inl ENOENT)"

definition hello_truncate :: "string \<Rightarrow> int \<Rightarrow> bytes \<Rightarrow> errno + (int \<times> bytes)" where
  "hello_truncate path n hello =
     (if path = hello_path
      then Inr (n, if n < int (length hello) then py_upto n hello
                   else if n > int (length hello) then hello @ replicate (nat (n - int (length hello))) 0
                   else hello)
      else Inl ENOENT)"

section \<open>GPTfs\<close>

text \<open>
  The contents of \<^verbatim>\<open>output\<close> and \<^verbatim>\<open>error\<close> are bytes at first, but \<^verbatim>\<open>write\<close> also stores the empty string in
  them, which Python distinguishes from empty bytes. The dictionary of the sessions keeps the order
  in which they were made.
\<close>

datatype pyval = Bytes bytes | Str string

record session =
  gs_input :: bytes
  gs_output :: pyval
  gs_error :: pyval

type_synonym gptfs = "(string \<times> session) list"

fun pv_len :: "pyval \<Rightarrow> nat" where
  "pv_len (Bytes b) = length b"
| "pv_len (Str s) = length s"

fun pv_slice :: "int \<Rightarrow> int \<Rightarrow> pyval \<Rightarrow> pyval" where
  "pv_slice a b (Bytes c) = Bytes (py_slice a b c)"
| "pv_slice a b (Str s) = Str (py_slice a b s)"

definition session_file :: "session \<Rightarrow> string \<Rightarrow> pyval option" where
  "session_file g name =
     (if name = ''input'' then Some (Bytes (gs_input g))
      else if name = ''output'' then Some (gs_output g)
      else if name = ''error'' then Some (gs_error g)
      else None)"

fun set_session :: "string \<Rightarrow> session \<Rightarrow> gptfs \<Rightarrow> gptfs" where
  "set_session k g [] = [(k, g)]"
| "set_session k g ((k', g') # fs) = (if k' = k then (k, g) # fs else (k', g') # set_session k g fs)"

definition gpt_readdir :: "string \<Rightarrow> gptfs \<Rightarrow> errno + string list" where
  "gpt_readdir path fs =
     (if path = ''/'' then Inr ([''.'', ''..''] @ map fst fs)
      else case path_parts path of
        [session] \<Rightarrow>
          (case map_of fs session of
             None \<Rightarrow> Inl ENOENT
           | Some _ \<Rightarrow> Inr [''.'', ''..'', ''input'', ''output'', ''error''])
      | _ \<Rightarrow> Inl ENOTDIR)"

definition gpt_getattr :: "string \<Rightarrow> gptfs \<Rightarrow> errno + fuse_attr" where
  "gpt_getattr path fs =
     (if path = ''/'' then Inr \<lparr>fa_mode = 0x4000 OR 0x1ED, fa_nlink = 2, fa_size = None\<rparr>
      else case path_parts path of
        [session] \<Rightarrow>
          (case map_of fs session of
             None \<Rightarrow> Inl ENOENT
           | Some _ \<Rightarrow> Inr \<lparr>fa_mode = 0x4000 OR 0x1ED, fa_nlink = 2, fa_size = None\<rparr>)
      | [session, filename] \<Rightarrow>
          (case map_of fs session of
             None \<Rightarrow> Inl ENOENT
           | Some g \<Rightarrow>
               if filename = ''input''
               then Inr \<lparr>fa_mode = 0x8000 OR 0x1A4, fa_nlink = 1, fa_size = Some (length (gs_input g))\<rparr>
               else if filename = ''output''
               then Inr \<lparr>fa_mode = 0x8000 OR 0x124, fa_nlink = 1, fa_size = Some (pv_len (gs_output g))\<rparr>
               else if filename = ''error''
               then Inr \<lparr>fa_mode = 0x8000 OR 0x124, fa_nlink = 1, fa_size = Some (pv_len (gs_error g))\<rparr>
               else Inl ENOENT)
      | _ \<Rightarrow> Inl ENOENT)"

definition gpt_mkdir :: "string \<Rightarrow> gptfs \<Rightarrow> errno + gptfs" where
  "gpt_mkdir path fs =
     (case path_parts path of
        [session] \<Rightarrow>
          (case map_of fs session of
             None \<Rightarrow> Inr (set_session session \<lparr>gs_input = [], gs_output = Bytes [], gs_error = Bytes []\<rparr> fs)
           | Some _ \<Rightarrow> Inl EEXIST)
      | _ \<Rightarrow> Inl ENOENT)"

definition gpt_read :: "string \<Rightarrow> int \<Rightarrow> int \<Rightarrow> gptfs \<Rightarrow> errno + pyval" where
  "gpt_read path n off fs =
     (case path_parts path of
        [session, filename] \<Rightarrow>
          (case map_of fs session of
             None \<Rightarrow> Inl ENOENT
           | Some g \<Rightarrow>
               (case session_file g filename of
                  None \<Rightarrow> Inl ENOENT
                | Some content \<Rightarrow> Inr (pv_slice off (off + n) content)))
      | _ \<Rightarrow> Inl ENOENT)"

text \<open>
  \<open>gpt\<close> stands for \<^verbatim>\<open>call_ollama(input.decode()).encode()\<close>: the reply to a prompt on the right, the text
  of the exception that it raises on the left.
\<close>

definition gpt_write ::
    "(bytes \<Rightarrow> bytes + bytes) \<Rightarrow> string \<Rightarrow> bytes \<Rightarrow> int \<Rightarrow> gptfs \<Rightarrow> errno + (int \<times> gptfs)" where
  "gpt_write gpt path data off fs =
     (case path_parts path of
        [session, filename] \<Rightarrow>
          (case map_of fs session of
             None \<Rightarrow> Inl ENOENT
           | Some g \<Rightarrow>
               if filename \<noteq> ''input'' then Inl ENOENT
               else
                 let inp = py_upto off (gs_input g) @ data @ py_from (off + int (length data)) (gs_input g);
                     g = g\<lparr>gs_input := inp\<rparr>;
                     g = (case gpt inp of
                            Inr reply \<Rightarrow> g\<lparr>gs_output := Bytes reply, gs_error := Str ''''\<rparr>
                          | Inl e \<Rightarrow> g\<lparr>gs_output := Str '''', gs_error := Bytes e\<rparr>) in
                 Inr (int (length data), set_session session g fs))
      | _ \<Rightarrow> Inl ENOENT)"

definition gpt_open :: "string \<Rightarrow> gptfs \<Rightarrow> errno + int" where
  "gpt_open path fs =
     (case path_parts path of
        [session, filename] \<Rightarrow>
          (case map_of fs session of
             None \<Rightarrow> Inl ENOENT
           | Some g \<Rightarrow> if filename \<notin> {''input'', ''output'', ''error''} then Inl ENOENT else Inr 0)
      | _ \<Rightarrow> Inl ENOENT)"

definition gpt_truncate :: "string \<Rightarrow> int \<Rightarrow> gptfs \<Rightarrow> errno + (int \<times> gptfs)" where
  "gpt_truncate path n fs =
     (case path_parts path of
        [session, filename] \<Rightarrow>
          (case map_of fs session of
             None \<Rightarrow> Inl ENOENT
           | Some g \<Rightarrow>
               if filename \<noteq> ''input'' then Inl ENOENT
               else if n < 0 then Inl EINVAL
               else
                 let content = gs_input g;
                     content = (if n < int (length content) then py_upto n content
                                else if n > int (length content)
                                then content @ replicate (nat (n - int (length content))) 0
                                else content) in
                 Inr (n, set_session session (g\<lparr>gs_input := content\<rparr>) fs))
      | _ \<Rightarrow> Inl ENOENT)"

section \<open>Lemmas\<close>

lemma py_index_nat [simp]: "py_index (int n) xs = n"
  by (simp add: py_index_def)

lemma py_splice: "py_upto (int off) c @ d @ py_from (int off + int (length d)) c = overwrite off d c"
  by (simp add: py_upto_def py_from_def overwrite_def flip: of_nat_add)

lemma py_slice_nat: "py_slice (int off) (int off + int n) c = take n (drop off c)"
  by (simp add: py_slice_def flip: of_nat_add)

lemma map_of_set_session [simp]: "map_of (set_session k g fs) = (map_of fs)(k \<mapsto> g)"
  by (induction k g fs rule: set_session.induct) auto

lemma keys_set_session:
  "map fst (set_session k g fs) = (if k \<in> set (map fst fs) then map fst fs else map fst fs @ [k])"
  by (induction k g fs rule: set_session.induct) auto

text \<open>The paths of a session and of its files.\<close>

definition valid_name :: "string \<Rightarrow> bool" where
  "valid_name s \<longleftrightarrow> s \<noteq> [] \<and> SLASH \<notin> set s"

definition file_path :: "string \<Rightarrow> string \<Rightarrow> string" where
  "file_path session name = SLASH # session @ SLASH # name"

lemma py_split_plain: "c \<notin> set s \<Longrightarrow> py_split c s = [s]"
  by (induction s) auto

lemma py_split_append: "c \<notin> set s \<Longrightarrow> py_split c (s @ c # r) = s # py_split c r"
  by (induction s) auto

lemma dropWhile_hd: "hd s \<noteq> c \<Longrightarrow> dropWhile (\<lambda>x. x = c) s = s"
  by (cases s) auto

lemma py_strip_ends: "hd s \<noteq> c \<Longrightarrow> last s \<noteq> c \<Longrightarrow> py_strip c (c # s) = s"
  by (cases "s = []") (simp_all add: py_strip_def dropWhile_hd hd_rev)

lemma valid_name_ends: "valid_name s \<Longrightarrow> hd s \<noteq> SLASH \<and> last s \<noteq> SLASH"
  by (auto simp: valid_name_def dest: hd_in_set last_in_set)

lemma path_parts_dir: "valid_name s \<Longrightarrow> path_parts (SLASH # s) = [s]"
  using valid_name_ends [of s] py_strip_ends [of s SLASH]
  by (simp add: path_parts_def valid_name_def py_split_plain)

lemma path_parts_file: "valid_name s \<Longrightarrow> valid_name n \<Longrightarrow> path_parts (file_path s n) = [s, n]"
  using valid_name_ends [of s] valid_name_ends [of n] py_strip_ends [of "s @ SLASH # n" SLASH]
  by (simp add: path_parts_def file_path_def valid_name_def py_split_append py_split_plain)

lemma valid_files [simp]: "valid_name ''input''" "valid_name ''output''" "valid_name ''error''"
  by (simp_all add: valid_name_def)

section \<open>The files as byte files\<close>

interpretation hello: byte_file
  "\<lambda>s. True" "\<lambda>s. s" "\<lambda>s off n. hello_read hello_path (int n) (int off) s"
  "\<lambda>s off d. case hello_write hello_path d (int off) s of Inr (r, s') \<Rightarrow> s' | Inl _ \<Rightarrow> s"
  by unfold_locales (simp_all add: hello_read_def hello_write_def py_slice_nat py_splice)

definition input_ok :: "string \<Rightarrow> gptfs \<Rightarrow> bool" where
  "input_ok k fs \<longleftrightarrow> valid_name k \<and> map_of fs k \<noteq> None"

definition input_of :: "string \<Rightarrow> gptfs \<Rightarrow> bytes" where
  "input_of k fs = (case map_of fs k of None \<Rightarrow> [] | Some g \<Rightarrow> gs_input g)"

definition input_read :: "string \<Rightarrow> gptfs \<Rightarrow> nat \<Rightarrow> nat \<Rightarrow> bytes" where
  "input_read k fs off n =
     (case gpt_read (file_path k ''input'') (int n) (int off) fs of Inr (Bytes b) \<Rightarrow> b | _ \<Rightarrow> [])"

definition input_write :: "(bytes \<Rightarrow> bytes + bytes) \<Rightarrow> string \<Rightarrow> gptfs \<Rightarrow> nat \<Rightarrow> bytes \<Rightarrow> gptfs" where
  "input_write gpt k fs off d =
     (case gpt_write gpt (file_path k ''input'') d (int off) fs of Inr (r, fs') \<Rightarrow> fs' | Inl _ \<Rightarrow> fs)"

text \<open>What a write to the input of a session makes of the session.\<close>

definition asked :: "(bytes \<Rightarrow> bytes + bytes) \<Rightarrow> bytes \<Rightarrow> session" where
  "asked gpt inp =
     (case gpt inp of
        Inr reply \<Rightarrow> \<lparr>gs_input = inp, gs_output = Bytes reply, gs_error = Str ''''\<rparr>
      | Inl e \<Rightarrow> \<lparr>gs_input = inp, gs_output = Str '''', gs_error = Bytes e\<rparr>)"

lemma gs_input_asked [simp]: "gs_input (asked gpt inp) = inp"
  by (simp add: asked_def split: sum.split)

lemma session_updates:
  "(g :: session)\<lparr>gs_input := a, gs_output := b, gs_error := c\<rparr> =
     \<lparr>gs_input = a, gs_output = b, gs_error = c\<rparr>"
  by (cases g) simp

lemma input_write_spec:
  assumes "input_ok k fs"
  shows "gpt_write gpt (file_path k ''input'') d (int off) fs =
    Inr (int (length d), set_session k (asked gpt (overwrite off d (input_of k fs))) fs)"
  using assms
  by (auto simp: gpt_write_def path_parts_file input_ok_def input_of_def py_splice asked_def session_updates
      Let_def split: sum.splits)

lemma input_write_state:
  "input_ok k fs \<Longrightarrow> input_write gpt k fs off d = set_session k (asked gpt (overwrite off d (input_of k fs))) fs"
  by (simp add: input_write_def input_write_spec)

lemma input_read_spec:
  assumes "input_ok k fs"
  shows "gpt_read (file_path k ''input'') (int n) (int off) fs = Inr (Bytes (take n (drop off (input_of k fs))))"
  using assms by (auto simp: gpt_read_def path_parts_file input_ok_def input_of_def session_file_def py_slice_nat)

interpretation gptin: byte_file "input_ok k" "input_of k" "input_read k" "input_write gpt k" for gpt k
proof unfold_locales
  fix fs off n d
  assume ok: "input_ok k fs"
  show "input_read k fs off n = take n (drop off (input_of k fs))"
    by (simp add: input_read_def input_read_spec [OF ok])
  show "input_of k (input_write gpt k fs off d) = overwrite off d (input_of k fs)"
    by (simp add: input_write_state [OF ok] input_of_def)
  show "input_ok k (input_write gpt k fs off d)"
    using ok by (simp add: input_write_state [OF ok] input_ok_def)
qed

text \<open>A long write arrives in pieces; each one starts where the previous one ended.\<close>

fun gpt_stream ::
    "(bytes \<Rightarrow> bytes + bytes) \<Rightarrow> string \<Rightarrow> int \<Rightarrow> bytes list \<Rightarrow> gptfs \<Rightarrow> errno + gptfs" where
  "gpt_stream gpt path off [] fs = Inr fs"
| "gpt_stream gpt path off (d # ds) fs =
     (case gpt_write gpt path d off fs of
        Inl e \<Rightarrow> Inl e
      | Inr (r, fs') \<Rightarrow> gpt_stream gpt path (off + r) ds fs')"

lemma gpt_stream_run:
  "input_ok k fs \<Longrightarrow>
   gpt_stream gpt (file_path k ''input'') (int off) ds fs = Inr (gptin.write_stream gpt k fs off ds)"
proof (induction ds arbitrary: fs off)
  case (Cons d ds)
  have "input_ok k (input_write gpt k fs off d)"
    using Cons(2) by (simp add: input_write_state input_ok_def)
  from Cons(1) [OF this, of "off + length d"] Cons(2) show ?case
    by (simp add: input_write_spec input_write_state)
qed simp

lemma write_stream_others:
  "input_ok k fs \<Longrightarrow> j \<noteq> k \<Longrightarrow> map_of (gptin.write_stream gpt k fs off ds) j = map_of fs j"
proof (induction ds arbitrary: fs off)
  case (Cons d ds)
  have "input_ok k (input_write gpt k fs off d)"
    using Cons(2) by (simp add: input_write_state input_ok_def)
  from Cons(1) [OF this Cons(3)] Cons(2,3) show ?case by (simp add: input_write_state)
qed simp

lemma write_stream_asked:
  "input_ok k fs \<Longrightarrow> map_of fs k = Some (asked gpt inp) \<or> ds \<noteq> [] \<Longrightarrow>
   \<exists>inp. map_of (gptin.write_stream gpt k fs off ds) k = Some (asked gpt inp)"
proof (induction ds arbitrary: fs off inp)
  case (Cons d ds)
  let ?fs = "input_write gpt k fs off d" and ?inp = "overwrite off d (input_of k fs)"
  have "input_ok k ?fs" "map_of ?fs k = Some (asked gpt ?inp)"
    using Cons(2) by (simp_all add: input_write_state input_ok_def)
  with Cons(1) [of ?fs ?inp "off + length d"] show ?case by simp
qed auto

section \<open>Properties\<close>



end
