(* ===== verification/Xattr.thy ===== *)
theory Xattr
  imports Kv_User
begin

text \<open>
  The functions of \<^verbatim>\<open>filesystem/inode/impl.c\<close>, which reach the extended attributes of a file through
  the C library's \<^verbatim>\<open>syscall\<close>. The kernel is the argument \<open>kern\<close>: the number of a call and its arguments
  give the result and the next state.
\<close>

section \<open>The functions\<close>

definition xattr_syscall ::
    "(nat \<Rightarrow> c_long list \<Rightarrow> 's \<Rightarrow> c_long \<times> 's) \<Rightarrow> nat \<Rightarrow> c_long list \<Rightarrow> 's \<Rightarrow> (c_int option \<times> c_long) \<times> 's" where
  "xattr_syscall kern nr args s = (case kern nr args s of (r, s') \<Rightarrow> (libc_ret r, s'))"

text \<open>Three of the four functions return an \<^verbatim>\<open>int\<close>, to which the long result is converted.\<close>

definition get_xattr ::
    "(nat \<Rightarrow> c_long list \<Rightarrow> 's \<Rightarrow> c_long \<times> 's) \<Rightarrow> c_long \<Rightarrow> c_long \<Rightarrow> c_long \<Rightarrow> u64 \<Rightarrow> 's \<Rightarrow> (c_int option \<times> c_int) \<times> 's" where
  "get_xattr kern path nm val sz s =
     (case xattr_syscall kern 191 [path, nm, val, sz] s of ((e, r), s') \<Rightarrow> ((e, ucast r), s'))"

definition set_xattr ::
    "(nat \<Rightarrow> c_long list \<Rightarrow> 's \<Rightarrow> c_long \<times> 's) \<Rightarrow> u32 \<Rightarrow> c_long \<Rightarrow> c_long \<Rightarrow> c_long \<Rightarrow> u64 \<Rightarrow> c_int \<Rightarrow> 's \<Rightarrow>
     (c_int option \<times> c_int) \<times> 's" where
  "set_xattr kern high path nm val sz flags s =
     (case xattr_syscall kern 188 [path, nm, val, sz, vararg_int high flags] s of
        ((e, r), s') \<Rightarrow> ((e, ucast r), s'))"

definition remove_xattr ::
    "(nat \<Rightarrow> c_long list \<Rightarrow> 's \<Rightarrow> c_long \<times> 's) \<Rightarrow> c_long \<Rightarrow> c_long \<Rightarrow> 's \<Rightarrow> (c_int option \<times> c_int) \<times> 's" where
  "remove_xattr kern path nm s =
     (case xattr_syscall kern 197 [path, nm] s of ((e, r), s') \<Rightarrow> ((e, ucast r), s'))"

definition list_xattr ::
    "(nat \<Rightarrow> c_long list \<Rightarrow> 's \<Rightarrow> c_long \<times> 's) \<Rightarrow> c_long \<Rightarrow> c_long \<Rightarrow> u64 \<Rightarrow> 's \<Rightarrow> (c_int option \<times> c_long) \<times> 's" where
  "list_xattr kern path lst sz s = xattr_syscall kern 194 [path, lst, sz] s"

section \<open>Lemmas\<close>

text \<open>
  The kernel's answer to a call about extended attributes is an error number or a length, and no
  attribute and no list of names is longer than 65536 bytes.
\<close>

definition xattr_answers :: "(nat \<Rightarrow> c_long list \<Rightarrow> 's \<Rightarrow> c_long \<times> 's) \<Rightarrow> bool" where
  "xattr_answers kern \<longleftrightarrow>
     (\<forall>nr args s. nr \<in> {188, 191, 194, 197} \<longrightarrow> - 4095 \<le> sint (fst (kern nr args s)) \<and> sint (fst (kern nr args s)) \<le> 65536)"

lemma libc_ret_small:
  assumes "- 4095 \<le> sint r" and "sint r \<le> 65536"
  shows "sint (ucast (snd (libc_ret r)) :: c_int) = (if sint r < 0 then -1 else sint r)"
proof (cases "sint r < 0")
  case True
  with assms show ?thesis by (simp add: libc_ret_def)
next
  case False
  have "sint (ucast r :: c_int) = signed_take_bit 31 (uint r)" by (simp add: signed_ucast_eq)
  also have "\<dots> = signed_take_bit 31 (sint r)" by (simp add: sint_uint signed_take_bit_signed_take_bit)
  also have "\<dots> = sint r" using assms False by (intro signed_take_bit_int_eq_self) auto
  finally show ?thesis using False by (simp add: libc_ret_def)
qed

text \<open>What a caller sees of the answer \<open>k\<close>: an error number and -1, or the answer itself.\<close>

definition seen :: "c_long \<Rightarrow> c_int option \<times> int" where
  "seen k = (if sint k < 0 then (Some (ucast (- k)), -1) else (None, sint k))"

lemma libc_ret_seen:
  assumes "- 4095 \<le> sint k" and "sint k \<le> 65536"
  shows "(fst (libc_ret k), sint (ucast (snd (libc_ret k)) :: c_int)) = seen k"
    and "(fst (libc_ret k), sint (snd (libc_ret k))) = seen k"
  using libc_ret_small [OF assms] assms by (auto simp: seen_def libc_ret_def)

text \<open>
  Every function makes its one call and returns -1 with \<^verbatim>\<open>errno\<close> set to the kernel's error, or returns
  the kernel's answer, which the conversion to \<^verbatim>\<open>int\<close> does not change.
\<close>

theorem xattr_functions_correct:
  assumes "xattr_answers kern"
  shows "map_prod (map_prod id sint) id (get_xattr kern path nm val sz s) = map_prod seen id (kern 191 [path, nm, val, sz] s)"
    and "map_prod (map_prod id sint) id (set_xattr kern high path nm val sz flags s) =
      map_prod seen id (kern 188 [path, nm, val, sz, vararg_int high flags] s)"
    and "map_prod (map_prod id sint) id (remove_xattr kern path nm s) = map_prod seen id (kern 197 [path, nm] s)"
    and "map_prod (map_prod id sint) id (list_xattr kern path lst sz s) = map_prod seen id (kern 194 [path, lst, sz] s)"
proof -
  have k: "- 4095 \<le> sint (fst (kern nr args s))" "sint (fst (kern nr args s)) \<le> 65536"
    if "nr \<in> {188, 191, 194, 197}" for nr args
    using assms that by (auto simp: xattr_answers_def)
  note seen = libc_ret_seen [OF k]
  show "map_prod (map_prod id sint) id (get_xattr kern path nm val sz s) = map_prod seen id (kern 191 [path, nm, val, sz] s)"
    using seen(1) [of 191 "[path, nm, val, sz]"]
    by (simp add: get_xattr_def xattr_syscall_def case_prod_beta map_prod_def)
  show "map_prod (map_prod id sint) id (set_xattr kern high path nm val sz flags s) =
      map_prod seen id (kern 188 [path, nm, val, sz, vararg_int high flags] s)"
    using seen(1) [of 188 "[path, nm, val, sz, vararg_int high flags]"]
    by (simp add: set_xattr_def xattr_syscall_def case_prod_beta map_prod_def)
  show "map_prod (map_prod id sint) id (remove_xattr kern path nm s) = map_prod seen id (kern 197 [path, nm] s)"
    using seen(1) [of 197 "[path, nm]"]
    by (simp add: remove_xattr_def xattr_syscall_def case_prod_beta map_prod_def)
  show "map_prod (map_prod id sint) id (list_xattr kern path lst sz s) = map_prod seen id (kern 194 [path, lst, sz] s)"
    using seen(2) [of 194 "[path, lst, sz]"]
    by (simp add: list_xattr_def xattr_syscall_def case_prod_beta map_prod_def)
qed

end
