(* ===== verification/Tcpdump.thy ===== *)
theory Tcpdump
  imports Acpi Decimal "HOL-Library.Monad_Syntax"
begin

text \<open>
  \<^verbatim>\<open>network/tcpdump/custom_tcpdump.c\<close>: what the program prints for a captured Ethernet frame. A frame is
  the list of the bytes that were captured; reading past its end is the outcome \<open>Overrun\<close>. The row
  that is printed keeps the addresses as the bytes that \<^verbatim>\<open>inet_ntop\<close> gets, and the time as the seconds
  that \<^verbatim>\<open>localtime\<close> gets; colours are left out. The answers of libpcap are parameters of \<^verbatim>\<open>main\<close>.
\<close>

section \<open>Reading a frame\<close>

definition rd :: "u8 list \<Rightarrow> nat \<Rightarrow> nat \<Rightarrow> u8 list option" where
  "rd p i n = (if i + n \<le> length p then Some (take n (drop i p)) else None)"

text \<open>\<^verbatim>\<open>ntohs\<close> and \<^verbatim>\<open>ntohl\<close>: the first byte is the most significant one.\<close>

definition ntoh :: "u8 list \<Rightarrow> nat" where
  "ntoh bs = le_val (rev bs)"

definition snprintf :: "nat \<Rightarrow> string \<Rightarrow> string" where
  "snprintf n s = take (n - 1) s"

abbreviation (input) ETHERTYPE_IP :: nat where "ETHERTYPE_IP \<equiv> 0x0800"
abbreviation (input) ETHERTYPE_IPV6 :: nat where "ETHERTYPE_IPV6 \<equiv> 0x86DD"
abbreviation (input) IPPROTO_ICMP :: nat where "IPPROTO_ICMP \<equiv> 1"
abbreviation (input) IPPROTO_TCP :: nat where "IPPROTO_TCP \<equiv> 6"
abbreviation (input) IPPROTO_UDP :: nat where "IPPROTO_UDP \<equiv> 17"
abbreviation (input) IPPROTO_ICMPV6 :: nat where "IPPROTO_ICMPV6 \<equiv> 58"

datatype ip_addr = Ip4 "u8 list" | Ip6 "u8 list"

record pkthdr =
  ph_sec :: nat
  ph_usec :: nat
  ph_caplen :: nat

record trow =
  tr_sec :: nat
  tr_ms :: nat
  tr_src :: ip_addr
  tr_sport :: nat
  tr_dst :: ip_addr
  tr_dport :: nat
  tr_proto :: string
  tr_caplen :: nat
  tr_desc :: string

datatype outcome = Overrun | Ignored | Printed trow

text \<open>
  The fields of the transport header at \<open>t\<close>: source port, destination port, protocol, description.
  The program has this code once for IPv4 and once for IPv6.
\<close>

definition tcp_fields :: "u8 list \<Rightarrow> nat \<Rightarrow> (nat \<times> nat \<times> string \<times> string) option" where
  "tcp_fields p t = do {
     source \<leftarrow> rd p t 2;
     dest \<leftarrow> rd p (t + 2) 2;
     seq \<leftarrow> rd p (t + 4) 4;
     ack_seq \<leftarrow> rd p (t + 8) 4;
     Some (ntoh source, ntoh dest, snprintf 8 ''TCP'',
       snprintf 64 (''Seq='' @ decimal (ntoh seq) @ '' Ack='' @ decimal (ntoh ack_seq)))
   }"

definition udp_fields :: "u8 list \<Rightarrow> nat \<Rightarrow> (nat \<times> nat \<times> string \<times> string) option" where
  "udp_fields p t = do {
     source \<leftarrow> rd p t 2;
     dest \<leftarrow> rd p (t + 2) 2;
     len \<leftarrow> rd p (t + 4) 2;
     Some (ntoh source, ntoh dest, snprintf 8 ''UDP'', snprintf 64 (''Len='' @ decimal (ntoh len)))
   }"

definition icmp_fields :: "string \<Rightarrow> u8 list \<Rightarrow> nat \<Rightarrow> (nat \<times> nat \<times> string \<times> string) option" where
  "icmp_fields name p t = do {
     typ \<leftarrow> rd p t 1;
     code \<leftarrow> rd p (t + 1) 1;
     Some (0, 0, snprintf 8 name,
       snprintf 64 (''Type='' @ decimal (ntoh typ) @ '' Code='' @ decimal (ntoh code)))
   }"

definition transport_v4 :: "u8 list \<Rightarrow> nat \<Rightarrow> nat \<Rightarrow> (nat \<times> nat \<times> string \<times> string) option" where
  "transport_v4 p t ip_p =
     (if ip_p = IPPROTO_TCP then tcp_fields p t
      else if ip_p = IPPROTO_UDP then udp_fields p t
      else if ip_p = IPPROTO_ICMP then icmp_fields ''ICMP'' p t
      else Some (0, 0, snprintf 8 ''IP'', ''''))"

definition transport_v6 :: "u8 list \<Rightarrow> nat \<Rightarrow> nat \<Rightarrow> (nat \<times> nat \<times> string \<times> string) option" where
  "transport_v6 p t next_header =
     (if next_header = IPPROTO_TCP then tcp_fields p t
      else if next_header = IPPROTO_UDP then udp_fields p t
      else if next_header = IPPROTO_ICMPV6 then icmp_fields ''ICMPv6'' p t
      else Some (0, 0, snprintf 8 ''IPv6'', ''''))"

definition print_row ::
    "pkthdr \<Rightarrow> ip_addr \<Rightarrow> ip_addr \<Rightarrow> nat \<times> nat \<times> string \<times> string \<Rightarrow> trow" where
  "print_row h src dst = (\<lambda>(sport, dport, proto, desc).
     \<lparr>tr_sec = ph_sec h, tr_ms = ph_usec h div 1000, tr_src = src, tr_sport = sport, tr_dst = dst,
      tr_dport = dport, tr_proto = proto, tr_caplen = ph_caplen h, tr_desc = desc\<rparr>)"

text \<open>The Ethernet header has 14 bytes; the length of the IPv4 header is the low nibble of its first byte.\<close>

definition handle_v4 :: "pkthdr \<Rightarrow> u8 list \<Rightarrow> trow option" where
  "handle_v4 h p = do {
     src \<leftarrow> rd p (14 + 12) 4;
     dst \<leftarrow> rd p (14 + 16) 4;
     vhl \<leftarrow> rd p 14 1;
     let ip_header_len = unat (hd vhl AND 0x0F) * 4;
     ip_p \<leftarrow> rd p (14 + 9) 1;
     fields \<leftarrow> transport_v4 p (14 + ip_header_len) (ntoh ip_p);
     Some (print_row h (Ip4 src) (Ip4 dst) fields)
   }"

definition handle_v6 :: "pkthdr \<Rightarrow> u8 list \<Rightarrow> trow option" where
  "handle_v6 h p = do {
     src \<leftarrow> rd p (14 + 8) 16;
     dst \<leftarrow> rd p (14 + 24) 16;
     next_header \<leftarrow> rd p (14 + 6) 1;
     fields \<leftarrow> transport_v6 p (14 + 40) (ntoh next_header);
     Some (print_row h (Ip6 src) (Ip6 dst) fields)
   }"

definition to_outcome :: "trow option \<Rightarrow> outcome" where
  "to_outcome r = (case r of None \<Rightarrow> Overrun | Some row \<Rightarrow> Printed row)"

definition packet_handler :: "pkthdr \<Rightarrow> u8 list \<Rightarrow> outcome" where
  "packet_handler h p =
     (case rd p 12 2 of
        None \<Rightarrow> Overrun
      | Some eth_type \<Rightarrow>
          if ntoh eth_type = ETHERTYPE_IP then to_outcome (handle_v4 h p)
          else if ntoh eth_type = ETHERTYPE_IPV6 then to_outcome (handle_v6 h p)
          else Ignored)"

section \<open>The program\<close>

text \<open>
  What libpcap answers: whether the device opens, the filter compiles and is installed, the packets
  that the loop delivers and whether the loop ends with an error.
\<close>

record pcap_env =
  pc_open :: bool
  pc_compile :: bool
  pc_setfilter :: bool
  pc_packets :: "(pkthdr \<times> u8 list) list"
  pc_loop :: bool

text \<open>The exit code and the outcomes of the packets.\<close>

definition tcpdump_main :: "nat \<Rightarrow> pcap_env \<Rightarrow> nat \<times> outcome list" where
  "tcpdump_main argc E =
     (if argc \<noteq> 3 then (1, [])
      else if \<not> pc_open E then (1, [])
      else if \<not> pc_compile E then (1, [])
      else if \<not> pc_setfilter E then (1, [])
      else (if pc_loop E then 0 else 1, map (\<lambda>(h, p). packet_handler h p) (pc_packets E)))"

section \<open>Building a frame\<close>

text \<open>A frame as the protocols define it, with big-endian fields.\<close>

definition hton :: "nat \<Rightarrow> nat \<Rightarrow> u8 list" where
  "hton n v = rev (le_bytes n v)"

datatype l4 = Tcp nat nat nat nat | Udp nat nat nat | Icmp u8 u8 | Other u8

fun l4_ok :: "l4 \<Rightarrow> bool" where
  "l4_ok (Tcp s d q a) = (s < 2 ^ 16 \<and> d < 2 ^ 16 \<and> q < 2 ^ 32 \<and> a < 2 ^ 32)"
| "l4_ok (Udp s d n) = (s < 2 ^ 16 \<and> d < 2 ^ 16 \<and> n < 2 ^ 16)"
| "l4_ok (Icmp t c) = True"
| "l4_ok (Other n) = (unat n \<notin> {IPPROTO_TCP, IPPROTO_UDP, IPPROTO_ICMP, IPPROTO_ICMPV6})"

fun l4_bytes :: "l4 \<Rightarrow> u8 list" where
  "l4_bytes (Tcp s d q a) = hton 2 s @ hton 2 d @ hton 4 q @ hton 4 a"
| "l4_bytes (Udp s d n) = hton 2 s @ hton 2 d @ hton 2 n"
| "l4_bytes (Icmp t c) = [t, c]"
| "l4_bytes (Other n) = []"

fun l4_proto :: "bool \<Rightarrow> l4 \<Rightarrow> u8" where
  "l4_proto v6 (Tcp s d q a) = 6"
| "l4_proto v6 (Udp s d n) = 17"
| "l4_proto v6 (Icmp t c) = (if v6 then 58 else 1)"
| "l4_proto v6 (Other n) = n"

fun l4_row :: "bool \<Rightarrow> l4 \<Rightarrow> nat \<times> nat \<times> string \<times> string" where
  "l4_row v6 (Tcp s d q a) = (s, d, ''TCP'', ''Seq='' @ decimal q @ '' Ack='' @ decimal a)"
| "l4_row v6 (Udp s d n) = (s, d, ''UDP'', ''Len='' @ decimal n)"
| "l4_row v6 (Icmp t c) =
     (0, 0, if v6 then ''ICMPv6'' else ''ICMP'', ''Type='' @ decimal (unat t) @ '' Code='' @ decimal (unat c))"
| "l4_row v6 (Other n) = (0, 0, if v6 then ''IPv6'' else ''IP'', '''')"

text \<open>
  An IPv4 frame has a header of 20 bytes and up to ten words of options; \<open>tos\<close> and \<open>rest\<close> are the
  fields the program does not look at.
\<close>

definition frame_v4 ::
    "u8 list \<Rightarrow> u8 list \<Rightarrow> u8 list \<Rightarrow> u8 list \<Rightarrow> u8 list \<Rightarrow> u8 list \<Rightarrow> u8 list \<Rightarrow> l4 \<Rightarrow> u8 list" where
  "frame_v4 macs mid chk src dst opts pay x =
     macs @ hton 2 0x0800 @ [of_nat (0x40 + (5 + length opts div 4))] @ mid @ [l4_proto False x] @ chk @
     src @ dst @ opts @ l4_bytes x @ pay"

definition frame_v6 :: "u8 list \<Rightarrow> u8 list \<Rightarrow> u8 \<Rightarrow> u8 list \<Rightarrow> u8 list \<Rightarrow> u8 list \<Rightarrow> l4 \<Rightarrow> u8 list" where
  "frame_v6 macs flow hops src dst pay x =
     macs @ hton 2 0x86DD @ flow @ [l4_proto True x] @ [hops] @ src @ dst @ l4_bytes x @ pay"

section \<open>Lemmas\<close>

lemma rd_skip: "length xs \<le> i \<Longrightarrow> rd (xs @ ys) i n = rd ys (i - length xs) n"
  by (auto simp: rd_def)

lemma rd_here: "length xs = n \<Longrightarrow> rd (xs @ ys) 0 n = Some xs"
  by (simp add: rd_def)

lemma rd_byte: "rd (x # ys) 0 1 = Some [x]"
  by (simp add: rd_def)

lemma rd_Cons: "0 < i \<Longrightarrow> rd (x # ys) i n = rd ys (i - 1) n"
  by (cases i) (auto simp: rd_def)

lemma rd_Some: "i + n \<le> length p \<Longrightarrow> \<exists>bs. rd p i n = Some bs \<and> length bs = n"
  by (simp add: rd_def)

lemma length_hton [simp]: "length (hton n v) = n"
  by (simp add: hton_def)

lemma ntoh_hton: "v < 256 ^ n \<Longrightarrow> ntoh (hton n v) = v"
  by (simp add: ntoh_def hton_def le_val_le_bytes)

lemma ntoh_byte [simp]: "ntoh [b] = unat b"
  by (simp add: ntoh_def)

lemma snprintf_fits: "length s < n \<Longrightarrow> snprintf n s = s"
  by (simp add: snprintf_def)

lemma length_decimal_u32: "n < 2 ^ 32 \<Longrightarrow> length (decimal n) \<le> 10"
  by (rule length_decimal) simp_all

lemma unat_u8_less: "unat (b :: u8) < 2 ^ 32"
  using unsigned_less [of b, where 'a = nat] by simp

text \<open>The buffers of the program are large enough for what it prints into them.\<close>

lemma desc_fits:
  "q < 2 ^ 32 \<Longrightarrow> a < 2 ^ 32 \<Longrightarrow>
   snprintf 64 (''Seq='' @ decimal q @ '' Ack='' @ decimal a) = ''Seq='' @ decimal q @ '' Ack='' @ decimal a"
  "n < 2 ^ 32 \<Longrightarrow> snprintf 64 (''Len='' @ decimal n) = ''Len='' @ decimal n"
  "snprintf 64 (''Type='' @ decimal (unat (t :: u8)) @ '' Code='' @ decimal (unat (c :: u8))) =
     ''Type='' @ decimal (unat t) @ '' Code='' @ decimal (unat c)"
  using length_decimal_u32 [of q] length_decimal_u32 [of a] length_decimal_u32 [of n]
    length_decimal_u32 [OF unat_u8_less [of t]] length_decimal_u32 [OF unat_u8_less [of c]]
  by (intro snprintf_fits; simp)+

lemma names_fit:
  "snprintf 8 ''TCP'' = ''TCP''" "snprintf 8 ''UDP'' = ''UDP''" "snprintf 8 ''ICMP'' = ''ICMP''"
  "snprintf 8 ''ICMPv6'' = ''ICMPv6''" "snprintf 8 ''IP'' = ''IP''" "snprintf 8 ''IPv6'' = ''IPv6''"
  by (simp_all add: snprintf_def)

text \<open>The transport header is read back as it was built, wherever it starts.\<close>

lemma tcp_fields_back:
  assumes "l4_ok (Tcp s d q a)"
  shows "tcp_fields (hdr @ l4_bytes (Tcp s d q a) @ pay) (length hdr) = Some (l4_row v6 (Tcp s d q a))"
proof -
  let ?p = "hdr @ l4_bytes (Tcp s d q a) @ pay" and ?t = "length hdr"
  have "rd ?p ?t 2 = Some (hton 2 s)" "rd ?p (?t + 2) 2 = Some (hton 2 d)"
    "rd ?p (?t + 4) 4 = Some (hton 4 q)" "rd ?p (?t + 8) 4 = Some (hton 4 a)"
    by (simp_all add: rd_skip rd_here)
  then show ?thesis
    using assms by (simp add: tcp_fields_def ntoh_hton names_fit desc_fits [simplified])
qed

lemma udp_fields_back:
  assumes "l4_ok (Udp s d n)"
  shows "udp_fields (hdr @ l4_bytes (Udp s d n) @ pay) (length hdr) = Some (l4_row v6 (Udp s d n))"
proof -
  let ?p = "hdr @ l4_bytes (Udp s d n) @ pay" and ?t = "length hdr"
  have "rd ?p ?t 2 = Some (hton 2 s)" "rd ?p (?t + 2) 2 = Some (hton 2 d)"
    "rd ?p (?t + 4) 2 = Some (hton 2 n)"
    by (simp_all add: rd_skip rd_here)
  then show ?thesis
    using assms by (simp add: udp_fields_def ntoh_hton names_fit desc_fits [simplified])
qed

lemma icmp_fields_back:
  "icmp_fields name (hdr @ l4_bytes (Icmp t c) @ pay) (length hdr) =
     Some (0, 0, snprintf 8 name, ''Type='' @ decimal (unat t) @ '' Code='' @ decimal (unat c))"
proof -
  let ?p = "hdr @ l4_bytes (Icmp t c) @ pay" and ?t = "length hdr"
  have "rd ?p ?t 1 = Some [t]" "rd ?p (?t + 1) 1 = Some [c]"
    using rd_skip [of hdr ?t "t # c # pay" 1] rd_skip [of hdr "?t + 1" "t # c # pay" 1]
    by (simp_all add: rd_def)
  then show ?thesis by (simp add: icmp_fields_def desc_fits [simplified])
qed

lemma unat_protos:
  "unat (6 :: u8) = 6" "unat (17 :: u8) = 17" "unat (1 :: u8) = 1" "unat (58 :: u8) = 58"
  by simp_all

lemma transport_back:
  assumes "l4_ok x"
  shows "transport_v4 (hdr @ l4_bytes x @ pay) (length hdr) (unat (l4_proto False x)) = Some (l4_row False x)"
    and "transport_v6 (hdr @ l4_bytes x @ pay) (length hdr) (unat (l4_proto True x)) = Some (l4_row True x)"
  using assms tcp_fields_back [where hdr = hdr and pay = pay] udp_fields_back [where hdr = hdr and pay = pay]
    icmp_fields_back [where hdr = hdr and pay = pay]
  by (cases x; simp only: transport_v4_def transport_v6_def l4_proto.simps unat_protos; simp add: names_fit)+

lemma header_nibble:
  assumes "k \<le> 10"
  shows "unat (of_nat (0x40 + (5 + k)) AND 0x0F :: u8) = 5 + k"
proof -
  have "of_nat (0x40 + (5 + k)) AND 0x0F = (take_bit 4 (of_nat (0x45 + k)) :: u8)"
    by (simp add: take_bit_eq_mask mask_eq_exp_minus_1)
  also have "unat \<dots> = (0x45 + k) mod 256 mod 16"
    by (simp only: unsigned_take_bit_eq take_bit_nat_def unat_of_nat) simp
  also have "\<dots> = (5 + k + 4 * 16) mod 16" using assms by (simp add: add.commute)
  also have "\<dots> = 5 + k" using assms by (simp only: mod_mult_self1) simp
  finally show ?thesis .
qed

text \<open>What every frame of the two kinds looks like to the program.\<close>

lemma handle_v4_back:
  assumes "l4_ok x" and "length macs = 12" "length mid = 8" "length chk = 2" "length src = 4" "length dst = 4"
    and "length opts = 4 * k" "k \<le> 10"
  shows "packet_handler h (frame_v4 macs mid chk src dst opts pay x) =
    Printed (print_row h (Ip4 src) (Ip4 dst) (l4_row False x))"
proof -
  let ?p = "frame_v4 macs mid chk src dst opts pay x"
  let ?vhl = "of_nat (0x40 + (5 + k)) :: u8"
  let ?hdr = "macs @ hton 2 0x0800 @ [?vhl] @ mid @ [l4_proto False x] @ chk @ src @ dst @ opts"
  have p: "?p = ?hdr @ l4_bytes x @ pay" and t: "length ?hdr = 14 + (5 + k) * 4"
    using assms by (simp_all add: frame_v4_def)
  have reads: "rd ?p 12 2 = Some (hton 2 0x0800)" "rd ?p (14 + 12) 4 = Some src" "rd ?p (14 + 16) 4 = Some dst"
    "rd ?p 14 1 = Some [?vhl]" "rd ?p (14 + 9) 1 = Some [l4_proto False x]"
    using assms by (simp_all add: frame_v4_def rd_skip rd_here rd_Cons rd_byte [unfolded One_nat_def])
  have "handle_v4 h ?p = Some (print_row h (Ip4 src) (Ip4 dst) (l4_row False x))"
    using transport_back(1) [OF assms(1), of ?hdr pay] header_nibble [OF assms(8)]
    unfolding handle_v4_def reads Option.bind.simps Let_def ntoh_byte p [symmetric] t list.sel by simp
  then show ?thesis by (simp only: packet_handler_def reads option.case) (simp add: ntoh_hton to_outcome_def)
qed

lemma handle_v6_back:
  assumes "l4_ok x" and "length macs = 12" "length flow = 6" "length src = 16" "length dst = 16"
  shows "packet_handler h (frame_v6 macs flow hops src dst pay x) =
    Printed (print_row h (Ip6 src) (Ip6 dst) (l4_row True x))"
proof -
  let ?p = "frame_v6 macs flow hops src dst pay x"
  let ?hdr = "macs @ hton 2 0x86DD @ flow @ [l4_proto True x] @ [hops] @ src @ dst"
  have p: "?p = ?hdr @ l4_bytes x @ pay" and t: "length ?hdr = 14 + 40"
    using assms by (simp_all add: frame_v6_def)
  have reads: "rd ?p 12 2 = Some (hton 2 0x86DD)" "rd ?p (14 + 8) 16 = Some src" "rd ?p (14 + 24) 16 = Some dst"
    "rd ?p (14 + 6) 1 = Some [l4_proto True x]"
    using assms by (simp_all add: frame_v6_def rd_skip rd_here rd_Cons rd_byte [unfolded One_nat_def])
  have "handle_v6 h ?p = Some (print_row h (Ip6 src) (Ip6 dst) (l4_row True x))"
    using transport_back(2) [OF assms(1), of ?hdr pay]
    unfolding handle_v6_def reads Option.bind.simps ntoh_byte p [symmetric] t by simp
  then show ?thesis by (simp only: packet_handler_def reads option.case) (simp add: ntoh_hton to_outcome_def)
qed

text \<open>The reads reach at most twelve bytes into the transport header.\<close>

lemma fields_within:
  assumes "t + 12 \<le> length p"
  shows "\<exists>r. transport_v4 p t n = Some r" "\<exists>r. transport_v6 p t n = Some r"
  using assms
  by (simp_all add: transport_v4_def transport_v6_def tcp_fields_def udp_fields_def icmp_fields_def rd_def)

lemma nibble_le: "unat (b AND 0x0F :: u8) \<le> 15"
proof -
  have "b AND 0x0F \<le> (0x0F :: u8)" by (rule word_and_le1)
  then show ?thesis by (simp add: word_le_nat_alt)
qed

section \<open>Properties\<close>

text \<open>
  C17: The program decodes what the protocols encode. For every IPv4 frame, with up to ten words of
  options, and every IPv6 frame that carries TCP, UDP, ICMP or another protocol, with any payload, the
  printed row has the addresses, the ports, the protocol name and the description of the frame, and
  none of the text is cut off by the size of its buffer.
\<close>

theorem packet_handler_decodes:
  assumes "l4_ok x" and "length macs = 12"
  shows "(length mid = 8 \<and> length chk = 2 \<and> length src = 4 \<and> length dst = 4 \<and>
      length opts mod 4 = 0 \<and> length opts \<le> 40 \<longrightarrow>
      packet_handler h (frame_v4 macs mid chk src dst opts pay x) =
        Printed (print_row h (Ip4 src) (Ip4 dst) (l4_row False x))) \<and>
    (length flow = 6 \<and> length src' = 16 \<and> length dst' = 16 \<longrightarrow>
      packet_handler h (frame_v6 macs flow hops src' dst' pay x) =
        Printed (print_row h (Ip6 src') (Ip6 dst') (l4_row True x)))"
proof (intro conjI impI)
  assume a: "length mid = 8 \<and> length chk = 2 \<and> length src = 4 \<and> length dst = 4 \<and>
      length opts mod 4 = 0 \<and> length opts \<le> 40"
  then have "length opts = 4 * (length opts div 4)" "length opts div 4 \<le> 10" by auto
  with a show "packet_handler h (frame_v4 macs mid chk src dst opts pay x) =
        Printed (print_row h (Ip4 src) (Ip4 dst) (l4_row False x))"
    using assms by (intro handle_v4_back [where k = "length opts div 4"]) auto
qed (use assms in \<open>auto intro: handle_v6_back\<close>)

definition demo_hdr :: pkthdr where
  "demo_hdr = \<lparr>ph_sec = 0, ph_usec = 123456, ph_caplen = 60\<rparr>"

theorem packet_handler_decodes_witness:
  "packet_handler demo_hdr (frame_v4 (replicate 12 0) (replicate 8 0) [0, 0] [10, 0, 0, 1] [10, 0, 0, 2] [1, 1, 1, 0]
      [] (Tcp 443 50000 7 9)) =
    Printed \<lparr>tr_sec = 0, tr_ms = 123, tr_src = Ip4 [10, 0, 0, 1], tr_sport = 443, tr_dst = Ip4 [10, 0, 0, 2],
      tr_dport = 50000, tr_proto = ''TCP'', tr_caplen = 60,
      tr_desc = ''Seq='' @ decimal 7 @ '' Ack='' @ decimal 9\<rparr>"
  using packet_handler_decodes [of "Tcp 443 50000 7 9" "replicate 12 0" "replicate 8 0" "[0, 0]" "[10, 0, 0, 1]"
      "[10, 0, 0, 2]" "[1, 1, 1, 0]" demo_hdr "[]"]
  by (simp add: print_row_def demo_hdr_def)

text \<open>
  C27: The program reads within the captured bytes whenever at least 86 of them were captured, and always
  past them when fewer than 14 were. 86 is the least such number: the lengths in the headers are not
  compared with the captured length, so that there are 85 bytes on which it reads past the end.
\<close>

theorem packet_handler_bounds:
  "(86 \<le> length p \<longrightarrow> packet_handler h p \<noteq> Overrun) \<and>
   (length p < 14 \<longrightarrow> packet_handler h p = Overrun) \<and>
   (\<exists>q. length q = 85 \<and> packet_handler h q = Overrun)"
proof (intro conjI impI)
  assume len: "86 \<le> length p"
  have "\<exists>r. handle_v4 h p = Some r"
  proof -
    let ?t = "14 + unat (hd (take 1 (drop 14 p)) AND 0x0F) * 4"
    have "?t + 12 \<le> length p" using nibble_le [of "hd (take 1 (drop 14 p))"] len by linarith
    then obtain f where "transport_v4 p ?t (ntoh (take 1 (drop (14 + 9) p))) = Some f"
      using fields_within(1) by blast
    with len show ?thesis by (simp add: handle_v4_def rd_def)
  qed
  moreover have "\<exists>r. handle_v6 h p = Some r"
  proof -
    obtain f where "transport_v6 p (14 + 40) (ntoh (take 1 (drop (14 + 6) p))) = Some f"
      using fields_within(2) [of "14 + 40" p] len by force
    with len show ?thesis by (simp add: handle_v6_def rd_def)
  qed
  ultimately show "packet_handler h p \<noteq> Overrun"
    using len by (auto simp: packet_handler_def to_outcome_def rd_def)
next
  assume "length p < 14"
  then show "packet_handler h p = Overrun" by (simp add: packet_handler_def rd_def)
next
  let ?q = "replicate 12 0 @ hton 2 0x0800 @ [0x4F] @ replicate 8 0 @ [6] @ replicate 61 (0 :: u8)"
  have reads: "rd ?q 12 2 = Some (hton 2 0x0800)" "rd ?q 14 1 = Some [0x4F]" "rd ?q (14 + 9) 1 = Some [6]"
    by (simp_all add: rd_skip rd_here rd_Cons rd_byte [unfolded One_nat_def])
  have "tcp_fields ?q (14 + 60) = None" by (simp add: tcp_fields_def rd_def)
  then have "transport_v4 ?q (14 + 60) 6 = None" by (simp only: transport_v4_def simp_thms if_True)
  then have "handle_v4 h ?q = None"
    by (simp only: handle_v4_def reads Option.bind.simps Let_def list.sel ntoh_byte) (simp add: Option.bind_eq_None_conv)
  then have "packet_handler h ?q = Overrun"
    by (simp only: packet_handler_def reads option.case) (simp add: ntoh_hton to_outcome_def)
  then show "\<exists>q. length q = 85 \<and> packet_handler h q = Overrun" by (intro exI [of _ ?q]) simp
qed

theorem packet_handler_bounds_witness: "packet_handler demo_hdr (replicate 90 0) \<noteq> Overrun"
  using packet_handler_bounds [of "replicate 90 0" demo_hdr] by simp

end
