(* ===== verification/Socket_Fair.thy ===== *)
theory Socket_Fair
  imports Prelude
begin

text \<open>
  The limit on the sockets of a thread that \<^verbatim>\<open>network/socket/socket.patch\<close> adds to the kernel: the
  functions of \<^verbatim>\<open>net/socket_fair.c\<close> and \<^verbatim>\<open>include/linux/socket_fair.h\<close>, and the places in \<^verbatim>\<open>net/socket.c\<close>
  that call them. The counter is an \<^verbatim>\<open>atomic_t\<close>, a 32-bit number that wraps. The functions take the
  structure's lock around single accesses only, which is why each of them is one step.
\<close>

section \<open>Operations\<close>

record socket_fairness =
  sf_max_socket_allowed :: c_int
  sf_current_socket_count :: c_int

text \<open>
  There are two functions \<^verbatim>\<open>socket_fairness_init\<close>: an inline one in the header, which is the one
  \<^verbatim>\<open>copy_process\<close> gets, and one in \<^verbatim>\<open>socket_fair.c\<close>.
\<close>

definition SOCKET_FAIR_DEFAULT_MAX :: c_int where "SOCKET_FAIR_DEFAULT_MAX = 1024"

definition socket_fairness_init :: "socket_fairness \<Rightarrow> socket_fairness" where
  "socket_fairness_init sf =
     sf\<lparr>sf_max_socket_allowed := SOCKET_FAIR_DEFAULT_MAX, sf_current_socket_count := 0\<rparr>"

definition socket_fairness_init_c :: "socket_fairness \<Rightarrow> socket_fairness" where
  "socket_fairness_init_c fair = fair\<lparr>sf_current_socket_count := 0, sf_max_socket_allowed := 0\<rparr>"

definition socket_fairness_check_allowed :: "socket_fairness option \<Rightarrow> bool" where
  "socket_fairness_check_allowed task =
     (case task of
        None \<Rightarrow> True
      | Some sf \<Rightarrow>
          let current_count = sf_current_socket_count sf; max_allowed = sf_max_socket_allowed sf in
          \<not> sint current_count \<ge> sint max_allowed)"

definition socket_fairness_inc_count :: "socket_fairness \<Rightarrow> socket_fairness" where
  "socket_fairness_inc_count sf = sf\<lparr>sf_current_socket_count := sf_current_socket_count sf + 1\<rparr>"

definition socket_fairness_dec_count :: "socket_fairness \<Rightarrow> socket_fairness" where
  "socket_fairness_dec_count sf = sf\<lparr>sf_current_socket_count := sf_current_socket_count sf - 1\<rparr>"

text \<open>
  The threads of the system by address, the thread with a given pid, and the sockets: who created a
  socket, whether it was created for user space, and whether its fields \<^verbatim>\<open>sk\<close> and \<^verbatim>\<open>file\<close> are set.
\<close>

record sock =
  so_creator :: addr
  so_user :: bool
  so_sk :: bool
  so_file :: bool

record sock_sys =
  ss_fair :: "addr \<Rightarrow> socket_fairness"
  ss_pid :: "c_int \<Rightarrow> ptr"
  ss_socks :: "addr \<rightharpoonup> sock"

definition set_fair :: "addr \<Rightarrow> (socket_fairness \<Rightarrow> socket_fairness) \<Rightarrow> sock_sys \<Rightarrow> sock_sys" where
  "set_fair t f S = S\<lparr>ss_fair := (ss_fair S)(t := f (ss_fair S t))\<rparr>"

definition socket_fairness_configure :: "c_int \<Rightarrow> c_int \<Rightarrow> sock_sys \<Rightarrow> kret \<times> sock_sys" where
  "socket_fairness_configure pid max_sockets S =
     (if sint max_sockets < 0 \<or> sint max_sockets > 65536 then (Some EINVAL, S)
      else case ss_pid S pid of
        None \<Rightarrow> (Some ESRCH, S)
      | Some task \<Rightarrow> (None, set_fair task (\<lambda>sf. sf\<lparr>sf_max_socket_allowed := max_sockets\<rparr>) S))"

definition sys_configure_socket_fairness :: "c_int \<Rightarrow> c_int \<Rightarrow> sock_sys \<Rightarrow> kret \<times> sock_sys" where
  "sys_configure_socket_fairness thread_id max_socket_allowed S =
     socket_fairness_configure thread_id max_socket_allowed S"

text \<open>
  \<^verbatim>\<open>__sock_create\<close> with the two additions; \<open>err\<close> is the result of everything between them and \<open>a\<close> the
  socket that this makes, which has its \<^verbatim>\<open>sk\<close> but no file yet.
\<close>

definition sock_create :: "bool \<Rightarrow> kret \<Rightarrow> addr \<Rightarrow> addr \<Rightarrow> sock_sys \<Rightarrow> kret \<times> sock_sys" where
  "sock_create kern err current a S =
     (if \<not> kern \<and> \<not> socket_fairness_check_allowed (Some (ss_fair S current)) then (Some EMFILE, S)
      else case err of
        Some e \<Rightarrow> (Some e, S)
      | None \<Rightarrow>
          let sock = \<lparr>so_creator = current, so_user = (\<not> kern), so_sk = True, so_file = False\<rparr>;
              S = S\<lparr>ss_socks := (ss_socks S)(a \<mapsto> sock)\<rparr> in
          (None, if \<not> kern then set_fair current socket_fairness_inc_count S else S))"

text \<open>\<^verbatim>\<open>__sock_release\<close>: the thread that releases the socket is the one whose counter is decremented.\<close>

definition sock_release :: "addr \<Rightarrow> addr \<Rightarrow> sock_sys \<Rightarrow> sock_sys" where
  "sock_release current a S =
     (case ss_socks S a of
        None \<Rightarrow> S
      | Some sock \<Rightarrow>
          let S = (if so_sk sock \<and> so_file sock then set_fair current socket_fairness_dec_count S else S) in
          S\<lparr>ss_socks := (ss_socks S)(a := None)\<rparr>)"

section \<open>Runs\<close>

text \<open>
  Threads create sockets, give the ones for user space a file, release the ones they created, and
  change limits, in any order. A run also counts, for every thread, the sockets for user space that
  were released before they had a file, as happens when there is no free descriptor.
\<close>

definition attach_file :: "addr \<Rightarrow> sock_sys \<Rightarrow> sock_sys" where
  "attach_file a S = S\<lparr>ss_socks := (ss_socks S)(a := map_option (so_file_update (\<lambda>_. True)) (ss_socks S a))\<rparr>"

definition note_lost :: "sock \<Rightarrow> (addr \<Rightarrow> nat) \<Rightarrow> addr \<Rightarrow> nat" where
  "note_lost x lost = (if so_user x \<and> \<not> so_file x then lost(so_creator x := lost (so_creator x) + 1) else lost)"

inductive sock_step :: "sock_sys \<times> (addr \<Rightarrow> nat) \<Rightarrow> sock_sys \<times> (addr \<Rightarrow> nat) \<Rightarrow> bool" where
  create: "ss_socks S a = None \<Longrightarrow> sock_step (S, l) (snd (sock_create kern err t a S), l)"
| attach: "ss_socks S a = Some x \<Longrightarrow> so_user x \<Longrightarrow> sock_step (S, l) (attach_file a S, l)"
| release: "ss_socks S a = Some x \<Longrightarrow> sock_step (S, l) (sock_release (so_creator x) a S, note_lost x l)"
| configure: "sock_step (S, l) (snd (sys_configure_socket_fairness pid m S), l)"

definition fresh_threads :: "sock_sys \<Rightarrow> bool" where
  "fresh_threads S \<longleftrightarrow> (\<forall>t. \<exists>sf. ss_fair S t = socket_fairness_init sf) \<and> ss_socks S = Map.empty"

definition open_socks :: "sock_sys \<Rightarrow> addr \<Rightarrow> addr set" where
  "open_socks S t = {a. \<exists>x. ss_socks S a = Some x \<and> so_creator x = t \<and> so_user x}"

text \<open>
  What holds of a thread's structure when \<open>A\<close> is the set of its open sockets and \<open>l\<close> the number of
  those it lost.
\<close>

definition fair_ok :: "socket_fairness \<Rightarrow> addr set \<Rightarrow> nat \<Rightarrow> bool" where
  "fair_ok sf A l \<longleftrightarrow>
     finite A \<and> card A + l \<le> 65536 \<and> sint (sf_current_socket_count sf) = int (card A + l) \<and>
     0 \<le> sint (sf_max_socket_allowed sf) \<and> sint (sf_max_socket_allowed sf) \<le> 65536"

text \<open>Every socket has its \<^verbatim>\<open>sk\<close>, and only those for user space have a file.\<close>

definition sock_inv :: "sock_sys \<times> (addr \<Rightarrow> nat) \<Rightarrow> bool" where
  "sock_inv = (\<lambda>(S, l). (\<forall>t. fair_ok (ss_fair S t) (open_socks S t) (l t)) \<and>
     (\<forall>x \<in> ran (ss_socks S). so_sk x \<and> (so_file x \<longrightarrow> so_user x)))"

lemma sint_add_1: "sint (w :: c_int) < 65536 \<Longrightarrow> 0 \<le> sint w \<Longrightarrow> sint (w + 1) = sint w + 1"
  by (simp add: sint_word_ariths signed_take_bit_int_eq_self)

lemma sint_sub_1: "sint (w :: c_int) \<le> 65536 \<Longrightarrow> 0 < sint w \<Longrightarrow> sint (w - 1) = sint w - 1"
  by (simp add: sint_word_ariths signed_take_bit_int_eq_self)

lemma check_allowed_iff:
  "fair_ok sf A l \<Longrightarrow>
   socket_fairness_check_allowed (Some sf) \<longleftrightarrow> int (card A + l) < sint (sf_max_socket_allowed sf)"
  by (simp add: socket_fairness_check_allowed_def fair_ok_def Let_def not_le)

lemma fair_ok_inc:
  assumes "fair_ok sf A l" and "socket_fairness_check_allowed (Some sf)" and "a \<notin> A"
  shows "fair_ok (socket_fairness_inc_count sf) (insert a A) l"
  using assms check_allowed_iff [OF assms(1)] sint_add_1 [of "sf_current_socket_count sf"]
  by (simp add: fair_ok_def socket_fairness_inc_count_def)

lemma fair_ok_remove:
  assumes "fair_ok sf A l" and "a \<in> A"
  shows "fair_ok (socket_fairness_dec_count sf) (A - {a}) l" and "fair_ok sf (A - {a}) (Suc l)"
proof -
  obtain n where "card A = Suc n" "card (A - {a}) = n"
    using assms by (cases "card A") (auto simp: fair_ok_def)
  then show "fair_ok (socket_fairness_dec_count sf) (A - {a}) l" "fair_ok sf (A - {a}) (Suc l)"
    using assms sint_sub_1 [of "sf_current_socket_count sf"]
    by (simp_all add: fair_ok_def socket_fairness_dec_count_def)
qed

lemma sock_inv_fresh: "fresh_threads S \<Longrightarrow> sock_inv (S, \<lambda>_. 0)"
proof -
  assume S: "fresh_threads S"
  have "open_socks S t = {}" for t using S by (simp add: fresh_threads_def open_socks_def)
  moreover have "sf_current_socket_count (ss_fair S t) = 0" "sf_max_socket_allowed (ss_fair S t) = 1024" for t
    using S by (auto simp: fresh_threads_def socket_fairness_init_def SOCKET_FAIR_DEFAULT_MAX_def
        dest!: spec [of _ t])
  ultimately show ?thesis using S by (simp add: sock_inv_def fair_ok_def fresh_threads_def)
qed

lemma sock_inv_create:
  assumes inv: "sock_inv (S, l)" and a: "ss_socks S a = None"
  shows "sock_inv (snd (sock_create kern err t a S), l)"
proof (cases "(\<not> kern \<and> \<not> socket_fairness_check_allowed (Some (ss_fair S t))) \<or> err \<noteq> None")
  case True
  then show ?thesis using inv by (auto simp: sock_create_def)
next
  case False
  let ?S = "snd (sock_create kern err t a S)"
  let ?x = "\<lparr>so_creator = t, so_user = (\<not> kern), so_sk = True, so_file = False\<rparr>"
  have S: "?S = (if kern then S\<lparr>ss_socks := (ss_socks S)(a \<mapsto> ?x)\<rparr>
      else set_fair t socket_fairness_inc_count (S\<lparr>ss_socks := (ss_socks S)(a \<mapsto> ?x)\<rparr>))"
    using False by (auto simp: sock_create_def Let_def)
  have socks: "open_socks ?S u = (if u = t \<and> \<not> kern then insert a (open_socks S u) else open_socks S u)" for u
    using a unfolding S by (auto simp: open_socks_def set_fair_def)
  have fair: "ss_fair ?S u = (if u = t \<and> \<not> kern then socket_fairness_inc_count (ss_fair S u) else ss_fair S u)" for u
    unfolding S by (simp add: set_fair_def)
  have "ss_socks ?S = (ss_socks S)(a \<mapsto> ?x)" unfolding S by (simp add: set_fair_def)
  moreover have "a \<notin> open_socks S u" for u using a by (simp add: open_socks_def)
  ultimately show ?thesis
    using inv False a unfolding sock_inv_def split socks fair by (auto intro: fair_ok_inc)
qed

lemma sock_inv_attach:
  assumes inv: "sock_inv (S, l)" and a: "ss_socks S a = Some x" and x: "so_user x"
  shows "sock_inv (attach_file a S, l)"
proof -
  have "open_socks (attach_file a S) u = open_socks S u" for u
    using a by (auto simp: attach_file_def open_socks_def)
  moreover have "ss_fair (attach_file a S) = ss_fair S" by (simp add: attach_file_def)
  moreover have "\<forall>y \<in> ran (ss_socks (attach_file a S)). so_sk y \<and> (so_file y \<longrightarrow> so_user y)"
    using inv a x by (auto simp: attach_file_def sock_inv_def ran_def)
  ultimately show ?thesis using inv by (simp add: sock_inv_def)
qed

lemma sock_inv_release:
  assumes inv: "sock_inv (S, l)" and a: "ss_socks S a = Some x"
  shows "sock_inv (sock_release (so_creator x) a S, note_lost x l)"
proof -
  let ?S = "sock_release (so_creator x) a S"
  have x: "so_sk x" "so_file x \<Longrightarrow> so_user x" using inv a by (auto simp: sock_inv_def ran_def)
  have socks: "open_socks ?S u = (if u = so_creator x \<and> so_user x then open_socks S u - {a} else open_socks S u)" for u
    using a by (auto simp: sock_release_def open_socks_def set_fair_def Let_def)
  have fair: "ss_fair ?S u = (if u = so_creator x \<and> so_file x then socket_fairness_dec_count (ss_fair S u) else ss_fair S u)" for u
    using a x by (simp add: sock_release_def set_fair_def Let_def)
  have "ss_socks ?S = (ss_socks S)(a := None)" using a by (simp add: sock_release_def set_fair_def Let_def)
  then have "\<forall>y \<in> ran (ss_socks ?S). so_sk y \<and> (so_file y \<longrightarrow> so_user y)"
    using inv by (auto simp: sock_inv_def ran_def)
  moreover have "fair_ok (ss_fair ?S u) (open_socks ?S u) (note_lost x l u)" for u
  proof -
    have ok: "fair_ok (ss_fair S u) (open_socks S u) (l u)" using inv by (simp add: sock_inv_def)
    have "a \<in> open_socks S u" if "u = so_creator x" "so_user x" using a that by (simp add: open_socks_def)
    with ok fair_ok_remove [OF ok] x(2) show ?thesis
      unfolding socks fair by (cases "u = so_creator x"; cases "so_user x"; cases "so_file x") (auto simp: note_lost_def)
  qed
  ultimately show ?thesis by (simp add: sock_inv_def)
qed

lemma sock_inv_configure:
  "sock_inv (S, l) \<Longrightarrow> sock_inv (snd (sys_configure_socket_fairness pid m S), l)"
  by (auto simp: sys_configure_socket_fairness_def socket_fairness_configure_def sock_inv_def fair_ok_def
      open_socks_def set_fair_def split: option.split)

lemma sock_inv_reachable: "sock_step\<^sup>*\<^sup>* s0 s \<Longrightarrow> sock_inv s0 \<Longrightarrow> sock_inv s"
proof (induction rule: rtranclp_induct)
  case (step s s')
  from step(2) step(3) [OF step(4)] show ?case
    by (cases rule: sock_step.cases)
      (auto intro: sock_inv_create sock_inv_attach sock_inv_release sock_inv_configure)
qed

section \<open>Properties\<close>


definition demo_socks :: sock_sys where
  "demo_socks = \<lparr>ss_fair = (\<lambda>t. \<lparr>sf_max_socket_allowed = 1024, sf_current_socket_count = 0\<rparr>),
     ss_pid = (\<lambda>p. Some (unat p)), ss_socks = Map.empty\<rparr>"


end
