(* ===== verification/Ramfs_Sync.thy ===== *)
theory Ramfs_Sync
  imports Prelude
begin

text \<open>
  Copying a file of the memory file system to disk on \<^verbatim>\<open>fsync\<close>, as \<^verbatim>\<open>memctrl/ramfs/ramfs.patch\<close> adds it to
  \<^verbatim>\<open>fs/ramfs\<close>: the mount option with the target directory, the path of a file below the root of the
  file system, and the call of \<^verbatim>\<open>mkdir\<close> and \<^verbatim>\<open>cp\<close> in user space. The answers of the allocator and of the
  user mode helper are parameters; the state counts the live allocations and lists the commands that
  were run. \<open>None\<close> as the result of an operation is a fault: a NULL string that is read, or a copy past
  the end of a buffer.
\<close>

section \<open>Data\<close>

record ramfs_fs_info =
  fi_mode :: u32
  fi_sync_dir :: "string option"
  fi_sync_enabled :: bool

record dentry_info =
  de_name :: string
  de_parent :: ptr

type_synonym dcache = "addr \<rightharpoonup> dentry_info"

record ra_env =
  ra_dup :: "nat \<Rightarrow> bool"
  ra_dot :: bool
  ra_result :: bool
  ra_path_buffer :: bool
  ra_d_path :: "errno + string"
  ra_sync_path :: bool
  ra_sync_pathdir :: bool
  ra_umh :: "string list \<Rightarrow> c_int"

record ra_state =
  rs_live :: int
  rs_cmds :: "string list list"

datatype sync_ret = Err errno | Code c_int

abbreviation alloc :: "nat \<Rightarrow> ra_state \<Rightarrow> ra_state" where
  "alloc n S \<equiv> S\<lparr>rs_live := rs_live S + int n\<rparr>"

abbreviation free :: "nat \<Rightarrow> ra_state \<Rightarrow> ra_state" where
  "free n S \<equiv> S\<lparr>rs_live := rs_live S - int n\<rparr>"

section \<open>The path of a file\<close>

text \<open>
  The loop up to the root, with room for \<open>n\<close> more components: each one with its name and whether
  \<^verbatim>\<open>kstrdup\<close> could copy it.
\<close>

fun collect :: "ra_env \<Rightarrow> dcache \<Rightarrow> addr \<Rightarrow> nat \<Rightarrow> ptr \<Rightarrow> nat \<Rightarrow> (string \<times> bool) list option" where
  "collect E D root 0 temp depth = Some []"
| "collect E D root (Suc n) temp depth =
     (case temp of
        None \<Rightarrow> Some []
      | Some d \<Rightarrow>
          if d = root then Some []
          else case D d of
            None \<Rightarrow> None
          | Some e \<Rightarrow>
              map_option (\<lambda>cs. (de_name e, ra_dup E depth) # cs)
                (collect E D root n (de_parent e) (Suc depth)))"

text \<open>\<^verbatim>\<open>strcat\<close> into a buffer of \<open>cap\<close> bytes, the last of which is for the terminator.\<close>

definition strcat :: "nat \<Rightarrow> string \<Rightarrow> string \<Rightarrow> string option" where
  "strcat cap r s = (if length r + length s < cap then Some (r @ s) else None)"

text \<open>The loop over the components from the top directory down to the parent of the file.\<close>

fun append_all :: "nat \<Rightarrow> bool \<Rightarrow> (string \<times> bool) list \<Rightarrow> string \<Rightarrow> string option" where
  "append_all cap first [] r = Some r"
| "append_all cap first ((s, ok) # cs) r =
     Option.bind (if first then Some r else strcat cap r ''/'') (\<lambda>r.
       if \<not> ok then None else Option.bind (strcat cap r s) (append_all cap False cs))"

definition build_relative_dir ::
    "ra_env \<Rightarrow> dcache \<Rightarrow> addr \<Rightarrow> addr \<Rightarrow> ra_state \<Rightarrow> (string option \<times> ra_state) option" where
  "build_relative_dir E D dentry root S =
     (case collect E D root 32 (Some dentry) 0 of
        None \<Rightarrow> None
      | Some [] \<Rightarrow> Some (if ra_dot E then (Some ''.'', alloc 1 S) else (None, S))
      | Some path_components \<Rightarrow>
          let dups = length (filter snd path_components);
              total_len = (\<Sum>(s, ok) \<leftarrow> path_components. length s + 1);
              S = alloc dups S in
          if \<not> ra_result E then Some (None, free dups S)
          else
            let S = alloc 1 S in
            case append_all (total_len + 1) True (butlast (rev path_components)) '''' of
              None \<Rightarrow> None
            | Some result \<Rightarrow> Some (Some result, free dups S))"

section \<open>Copying to disk\<close>

text \<open>The result of \<^verbatim>\<open>mkdir\<close> is overwritten by the one of \<^verbatim>\<open>cp\<close>.\<close>

definition ramfs_sync_with_cp ::
    "ra_env \<Rightarrow> string \<Rightarrow> string \<Rightarrow> string \<Rightarrow> ra_state \<Rightarrow> c_int \<times> ra_state" where
  "ramfs_sync_with_cp E source_path dest_path dest_dir S =
     (let mkdir = [''/bin/mkdir'', ''-p'', dest_dir];
          cp = [''/bin/cp'', source_path, dest_path];
          S = S\<lparr>rs_cmds := rs_cmds S @ [mkdir, cp]\<rparr>;
          ret = ra_umh E cp in
      if ret \<noteq> 0 then (ret, S) else (0, S))"

definition ramfs_sync_file_to_disk ::
    "ra_env \<Rightarrow> dcache \<Rightarrow> addr \<Rightarrow> addr \<Rightarrow> ramfs_fs_info option \<Rightarrow> ra_state \<Rightarrow> (sync_ret \<times> ra_state) option" where
  "ramfs_sync_file_to_disk E D dentry root s_fs_info S =
     (case s_fs_info of
        None \<Rightarrow> Some (Code 0, S)
      | Some fsi \<Rightarrow>
          if \<not> fi_sync_enabled fsi then Some (Code 0, S)
          else case fi_sync_dir fsi of
            None \<Rightarrow> Some (Code 0, S)
          | Some sync_dir \<Rightarrow>
              (case build_relative_dir E D dentry root S of
                 None \<Rightarrow> None
               | Some (None, S) \<Rightarrow> Some (Err ENOMEM, S)
               | Some (Some relative_dir, S) \<Rightarrow>
                   if \<not> ra_path_buffer E then Some (Err ENOMEM, free 1 S)
                   else
                     let S = alloc 1 S in
                     case ra_d_path E of
                       Inl e \<Rightarrow> Some (Err e, free 2 S)
                     | Inr source_path \<Rightarrow>
                         (case D dentry of
                            None \<Rightarrow> None
                          | Some de \<Rightarrow>
                              let sync_pathdir = sync_dir @ ''/'' @ relative_dir;
                                  sync_path = sync_dir @ ''/'' @ relative_dir @ ''/'' @ de_name de;
                                  got = (if ra_sync_path E then 1 else 0) + (if ra_sync_pathdir E then 1 else 0);
                                  S = alloc got S in
                              if \<not> ra_sync_path E \<or> \<not> ra_sync_pathdir E
                              then Some (Err ENOMEM, free (2 + got) S)
                              else
                                case ramfs_sync_with_cp E source_path sync_path sync_pathdir S of
                                  (ret, S) \<Rightarrow> Some (Code ret, free (2 + got) S))))"

definition ramfs_fsync ::
    "ra_env \<Rightarrow> dcache \<Rightarrow> addr \<Rightarrow> addr \<Rightarrow> ramfs_fs_info option \<Rightarrow> ra_state \<Rightarrow> (sync_ret \<times> ra_state) option" where
  "ramfs_fsync E D dentry root s_fs_info S = ramfs_sync_file_to_disk E D dentry root s_fs_info S"

section \<open>The mount option\<close>

text \<open>What \<^verbatim>\<open>fs_parse\<close> returns: an option with its value, or an error.\<close>

datatype ramfs_param = Opt_mode u32 | Opt_sync_dir string

text \<open>The allocation that a string of the mount options holds; \<^verbatim>\<open>kfree\<close> of NULL does nothing.\<close>

definition dir_alloc :: "ramfs_fs_info \<Rightarrow> nat" where
  "dir_alloc fsi = (case fi_sync_dir fsi of None \<Rightarrow> 0 | Some _ \<Rightarrow> 1)"

definition ramfs_parse_param ::
    "errno + ramfs_param \<Rightarrow> bool \<Rightarrow> ramfs_fs_info \<Rightarrow> ra_state \<Rightarrow> kret \<times> ramfs_fs_info \<times> ra_state" where
  "ramfs_parse_param opt kstrdup fsi S =
     (case opt of
        Inl e \<Rightarrow> (if e = ENOPARAM then (None, fsi, S) else (Some e, fsi, S))
      | Inr (Opt_mode m) \<Rightarrow> (None, fsi\<lparr>fi_mode := m AND 0xFFF\<rparr>, S)
      | Inr (Opt_sync_dir s) \<Rightarrow>
          let S = free (dir_alloc fsi) S in
          if \<not> kstrdup then (Some ENOMEM, fsi\<lparr>fi_sync_dir := None\<rparr>, S)
          else (None, fsi\<lparr>fi_sync_dir := Some s, fi_sync_enabled := True\<rparr>, alloc 1 S))"

text \<open>\<^verbatim>\<open>ramfs_free_fc\<close> frees the directory and the structure of a mount that is given up.\<close>

definition ramfs_free_fc :: "ramfs_fs_info option \<Rightarrow> ra_state \<Rightarrow> ra_state" where
  "ramfs_free_fc s_fs_info S =
     (case s_fs_info of None \<Rightarrow> S | Some fsi \<Rightarrow> free 1 (free (dir_alloc fsi) S))"

text \<open>The check of the directory when the file system is mounted; \<open>kern_path\<close> says whether it exists.\<close>

definition ramfs_check_sync_dir :: "(string \<Rightarrow> bool) \<Rightarrow> ramfs_fs_info \<Rightarrow> ramfs_fs_info" where
  "ramfs_check_sync_dir kern_path fsi =
     (case fi_sync_dir fsi of
        Some s \<Rightarrow> if fi_sync_enabled fsi \<and> \<not> kern_path s then fsi\<lparr>fi_sync_enabled := False\<rparr> else fsi
      | None \<Rightarrow> fsi)"

section \<open>Lemmas\<close>

text \<open>The names on the way from the root down to a file.\<close>

inductive below :: "dcache \<Rightarrow> addr \<Rightarrow> addr \<Rightarrow> string list \<Rightarrow> bool" for D root where
  at_root: "below D root root []"
| child: "below D root p ns \<Longrightarrow> d \<noteq> root \<Longrightarrow> D d = Some e \<Longrightarrow> de_parent e = Some p \<Longrightarrow>
    below D root d (ns @ [de_name e])"

fun join_path :: "string list \<Rightarrow> string" where
  "join_path [] = ''''"
| "join_path [s] = s"
| "join_path (s # ss) = s @ ''/'' @ join_path ss"

definition last32 :: "'a list \<Rightarrow> 'a list" where
  "last32 ns = drop (length ns - 32) ns"

lemma join_path_snoc: "ss \<noteq> [] \<Longrightarrow> join_path (ss @ [s]) = join_path ss @ ''/'' @ s"
  by (induction ss rule: join_path.induct) auto

lemma length_join_path: "length (join_path ss) \<le> (\<Sum>s \<leftarrow> ss. length s + 1)"
  by (induction ss rule: join_path.induct) auto

lemma collect_below:
  "below D root d ns \<Longrightarrow> ra_dup E = (\<lambda>_. True) \<Longrightarrow>
   collect E D root n (Some d) i = Some (map (\<lambda>s. (s, True)) (take n (rev ns)))"
proof (induction arbitrary: n i rule: below.induct)
  case at_root
  show ?case by (cases n) simp_all
next
  case (child p ns d e)
  then show ?case by (cases n) simp_all
qed

text \<open>The components fit into the buffer.\<close>

lemma append_all_fits:
  "length r + (\<Sum>s \<leftarrow> ss. length s + 1) < cap \<Longrightarrow>
   append_all cap False (map (\<lambda>s. (s, True)) ss) r = Some (r @ concat (map (\<lambda>s. ''/'' @ s) ss))"
proof (induction ss arbitrary: r)
  case (Cons s ss)
  then show ?case using Cons(1) [of "r @ ''/'' @ s"] by (simp add: strcat_def)
qed simp

lemma join_path_concat: "join_path (s # ss) = s @ concat (map (\<lambda>s. ''/'' @ s) ss)"
  by (induction ss arbitrary: s) auto

lemma append_all_join:
  assumes "(\<Sum>s \<leftarrow> ss. length s + 1) < cap"
  shows "append_all cap True (map (\<lambda>s. (s, True)) ss) '''' = Some (join_path ss)"
proof (cases ss)
  case (Cons s ss')
  then show ?thesis
    using assms append_all_fits [of s ss' cap] by (simp add: strcat_def join_path_concat)
qed simp

lemma build_relative_dir_below:
  assumes d: "below D root d ns" and dup: "ra_dup E = (\<lambda>_. True)"
  shows "build_relative_dir E D d root S =
    Some (if ns = [] then if ra_dot E then (Some ''.'', alloc 1 S) else (None, S)
          else if ra_result E then (Some (join_path (butlast (last32 ns))), alloc 1 S) else (None, S))"
proof -
  let ?cs = "take 32 (rev ns)"
  have col: "collect E D root 32 (Some d) 0 = Some (map (\<lambda>s. (s, True)) ?cs)"
    by (rule collect_below [OF d dup])
  show ?thesis
  proof (cases "ns = []")
    case True
    then show ?thesis using col by (simp add: build_relative_dir_def)
  next
    case False
    have l32: "rev ?cs = last32 ns" by (simp add: last32_def rev_take)
    let ?cap = "(\<Sum>s \<leftarrow> ?cs. length s + 1) + 1"
    have "(\<Sum>s \<leftarrow> butlast (rev ?cs). length s + 1) \<le> (\<Sum>s \<leftarrow> rev ?cs. length s + 1)"
      using False by (cases "rev ?cs" rule: rev_cases) auto
    then have "(\<Sum>s \<leftarrow> butlast (last32 ns). length s + 1) < ?cap"
      unfolding l32 [symmetric] by (simp add: rev_map [symmetric])
    from append_all_join [OF this]
    have app: "append_all ?cap True (butlast (rev (map (\<lambda>s. (s, True)) ?cs))) '''' =
        Some (join_path (butlast (last32 ns)))"
      by (simp add: rev_map map_butlast l32)
    have dups: "filter snd (map (\<lambda>s. (s, True)) ?cs) = map (\<lambda>s. (s, True)) ?cs" by simp
    obtain c cs where cs: "map (\<lambda>s. (s, True)) ?cs = c # cs" using False by (cases "map (\<lambda>s. (s, True)) ?cs") auto
    have sum: "(\<Sum>(s, ok) \<leftarrow> map (\<lambda>s. (s, True)) ?cs. length s + 1) = (\<Sum>s \<leftarrow> ?cs. length s + 1)"
      by (simp add: comp_def)
    show ?thesis
      using False app unfolding build_relative_dir_def col option.case cs list.case
      unfolding cs [symmetric] dups sum Let_def by simp
  qed
qed

lemma below_name:
  assumes "below D root d ns" and "ns \<noteq> []"
  shows "\<exists>e. D d = Some e \<and> de_name e = last ns"
  using assms by (cases rule: below.cases) auto

text \<open>A sequence of mount options, each with the answers of \<^verbatim>\<open>fs_parse\<close> and \<^verbatim>\<open>kstrdup\<close>; the first error ends it.\<close>

fun parse_all :: "((errno + ramfs_param) \<times> bool) list \<Rightarrow> ramfs_fs_info \<Rightarrow> ra_state \<Rightarrow> kret \<times> ramfs_fs_info \<times> ra_state" where
  "parse_all [] fsi S = (None, fsi, S)"
| "parse_all ((opt, dup) # os) fsi S =
     (case ramfs_parse_param opt dup fsi S of
        (None, fsi, S) \<Rightarrow> parse_all os fsi S
      | (Some e, fsi, S) \<Rightarrow> (Some e, fsi, S))"

lemma parse_param_live:
  "ramfs_parse_param opt dup fsi S = (r, fsi', S') \<Longrightarrow>
   rs_live S' - int (dir_alloc fsi') = rs_live S - int (dir_alloc fsi) \<and> rs_cmds S' = rs_cmds S"
  by (auto simp: ramfs_parse_param_def dir_alloc_def Let_def split: sum.splits ramfs_param.splits if_splits option.splits)

lemma parse_all_live:
  "parse_all os fsi S = (r, fsi', S') \<Longrightarrow>
   rs_live S' - int (dir_alloc fsi') = rs_live S - int (dir_alloc fsi) \<and> rs_cmds S' = rs_cmds S"
proof (induction os fsi S rule: parse_all.induct)
  case (2 opt dup os fsi S)
  obtain r1 fsi1 S1 where p: "ramfs_parse_param opt dup fsi S = (r1, fsi1, S1)" by (metis prod_cases3)
  from 2 parse_param_live [OF p] p show ?case by (cases r1) auto
qed simp

text \<open>
  A mount that is given up leaves no allocation: whatever options were parsed, repeated or refused,
  freeing the context gives back exactly the structure and the directory that are held.
\<close>

theorem ramfs_options_no_leak:
  assumes "parse_all os \<lparr>fi_mode = m, fi_sync_dir = None, fi_sync_enabled = False\<rparr> (alloc 1 S) = (r, fsi, S')"
  shows "rs_live (ramfs_free_fc (Some fsi) S') = rs_live S"
  using parse_all_live [OF assms] by (simp add: ramfs_free_fc_def dir_alloc_def)

text \<open>
  After the option and the check at mount time, \<^verbatim>\<open>fsync\<close> does something exactly when the directory is
  accessible; otherwise it returns 0 at once.
\<close>

theorem ramfs_mount_fsync:
  assumes "ramfs_parse_param (Inr (Opt_sync_dir dir)) True fsi0 S0 = (None, fsi1, S)"
    and "fsi = ramfs_check_sync_dir kern_path fsi1"
  shows "fi_sync_dir fsi = Some dir \<and> (fi_sync_enabled fsi \<longleftrightarrow> kern_path dir) \<and>
    (\<not> kern_path dir \<longrightarrow> ramfs_fsync E D d root (Some fsi) S = Some (Code 0, S))"
  using assms
  by (cases "kern_path dir")
    (auto simp: ramfs_parse_param_def ramfs_check_sync_dir_def ramfs_fsync_def ramfs_sync_file_to_disk_def Let_def)

section \<open>Properties\<close>


definition demo_dcache :: dcache where
  "demo_dcache = [2 \<mapsto> \<lparr>de_name = ''/'', de_parent = Some 2\<rparr>, 3 \<mapsto> \<lparr>de_name = ''a'', de_parent = Some 2\<rparr>,
     4 \<mapsto> \<lparr>de_name = ''f'', de_parent = Some 3\<rparr>]"

definition demo_ra :: ra_env where
  "demo_ra = \<lparr>ra_dup = (\<lambda>_. True), ra_dot = True, ra_result = True, ra_path_buffer = True,
     ra_d_path = Inr ''/m/a/f'', ra_sync_path = True, ra_sync_pathdir = True, ra_umh = (\<lambda>_. 0)\<rparr>"


end
