(* ===== verification/Spec2Isabelle.thy ===== *)
theory Spec2Isabelle
  imports Sched Task_Flags Kv_Spec Kv_Store Kv_Conc Kv_User Kv_Patch Syscall_Table Kernel Refcount
    Fork_Limits Fork_Stack Fork_Mm Mm_Refs Unwind Fork_Copy Copy_Process Copy_Unwind Copy_Stages
    Fork_Props Fork_Post Clone Unshare Process_Tree Vfork Pidfd Pages Vdso Vdso_Fault Vdso_Patch
    Acpi Hw_Info Decimal Efi_Hwinfo Hello_World
    Byte_File Mmap_File Fuse_Files Xattr Tcpdump Socket_Fair Ramfs_Sync
begin

text \<open>
  \<^bold>\<open>A verification development for the modified Linux 5.15.178 kernel and its companion programs.\<close>

  The repository adds to a Linux kernel a key-value store per process with two system calls, a window in
  the vDSO through which a process reads its own \<^verbatim>\<open>task_struct\<close>, a driver that publishes hardware
  information from an ACPI table, a limit on the sockets of a thread and a memory file system that
  copies its files to disk. Two UEFI programs prepare the ACPI tables. Programs in user space exercise
  the same topics: memory mappings, extended attributes, file systems in user space, packet capture.

  \<^bold>\<open>How the parts interact.\<close> \<^verbatim>\<open>copy_process\<close> gives every new process a key-value store and lets threads
  share the one of their process (\<open>Copy_Process\<close> calls \<open>Kv_Store\<close>). The system calls enter through the table
  (\<open>Syscall_Table\<close>, \<open>Kv_User\<close>) and reach the store of \<^verbatim>\<open>current\<close>. \<^verbatim>\<open>map_vdso\<close> places the window, its fault
  handler maps the pages of \<^verbatim>\<open>current\<close>, and code of the vDSO reads them (\<open>Vdso\<close>, \<open>Vdso_Fault\<close>). The firmware
  driver installs the table that the kernel module reads (\<open>Hw_Info\<close>, \<open>Efi_Hwinfo\<close>).

  \<^bold>\<open>Conventions.\<close> A C structure is a record, an object on the heap is a value of a map from addresses, a
  pointer is an option of an address, a machine integer is a word of its width. A function that can
  fail returns the error as a value (\<open>errno\<close>, \<open>kret\<close>); a jump to an error label is a call of the definition
  of that label. Code outside of these sources is a parameter: a record \<open>*_env\<close> holds what it answers
  during one call, and a predicate \<open>*_ok\<close> says what it is documented to do. The configuration is x86-64
  with SMP, an MMU, virtually mapped stacks, \<^verbatim>\<open>THREAD_INFO_IN_TASK\<close>, memory cgroups, seccomp and time
  namespaces. \<open>Prelude\<close> has the shared types and lemmas.

  \<^bold>\<open>Tasks.\<close> \<open>Sched\<close> is \<^verbatim>\<open>include/linux/sched.h\<close>: states, flags, the fields of \<^verbatim>\<open>task_struct\<close> that are used,
  and the inline functions; \<open>Task_Flags\<close> has the atomic flags. Shown: the state letter is total, and a flag
  that forbids privileges or speculation is never cleared.

  \<^bold>\<open>The key-value store.\<close> \<open>Kv_Spec\<close> is the contract of a store as a locale. \<open>Kv_Store\<close> is \<^verbatim>\<open>kernel/kv_store.c\<close>
  with its node heap and its bucket locks, and an interpretation of the contract. \<open>Kv_Conc\<close> splits the two
  calls at every access to shared memory and lets the threads of a process interleave. \<open>Kv_User\<close> is the
  way from \<^verbatim>\<open>kv_syscalls.h\<close> and \<^verbatim>\<open>kv_lua_binding.c\<close> through the C library, \<^verbatim>\<open>syscall_64.tbl\<close> and the casts of
  \<^verbatim>\<open>syscalls.h\<close>, a second interpretation. Shown: every operation keeps the store well-formed and does to the
  abstract map what it should; concurrent calls are linearisable and always end; a program reads what
  was last written, up to the values that the error convention hides. \<open>Kv_Patch\<close> is \<^verbatim>\<open>kv_store.patch\<close>, another
  version of the store with a reference counter: no task uses a freed store, and the last exit frees
  everything that failed forks have not leaked. \<open>Syscall_Table\<close> is
  \<^verbatim>\<open>uapi/asm-generic/unistd.h\<close>, all entries under all combinations of the macros it tests: no number is
  used twice.

  \<^bold>\<open>Fork.\<close> \<open>Kernel\<close> is the state that \<^verbatim>\<open>kernel/fork.c\<close> works on, \<open>Refcount\<close> the contract of a counted object
  and \<open>Unwind\<close> the contract of stages with error labels, both locales. \<open>Fork_Limits\<close>, \<open>Fork_Stack\<close>, \<open>Fork_Mm\<close>,
  \<open>Fork_Copy\<close>, \<open>Copy_Process\<close>, \<open>Clone\<close>, \<open>Unshare\<close>, \<open>Process_Tree\<close>, \<open>Vfork\<close> and \<open>Pidfd\<close> have its functions in the order of
  the file. \<open>Mm_Refs\<close>, \<open>Copy_Unwind\<close>, \<open>Copy_Stages\<close>, \<open>Fork_Props\<close> and \<open>Fork_Post\<close> have the proofs: every reference
  count is exact, a copy of an address space is complete or leaves nothing, a failed fork or unshare
  leaves the kernel as it was but for the exceptions that the statements name, a successful one has the
  sharing that its flags ask for, the walk over the process tree visits what a recursive traversal
  visits, and the completion of a \<^verbatim>\<open>vfork\<close> is signalled exactly while the parent still waits for it.

  \<^bold>\<open>The vDSO.\<close> \<open>Pages\<close> has page arithmetic; \<open>Vdso\<close> and \<open>Vdso_Fault\<close> are \<^verbatim>\<open>arch/x86/entry/vdso/vma.c\<close>,
  \<^verbatim>\<open>vgetinfo.c\<close> and \<^verbatim>\<open>vget_task_info.c\<close>. Shown: the layout of the areas, the bounds of the random address, that
  a failed mapping is undone, that faults keep the layout of the time namespace, and what the window
  shows of the task. \<open>Vdso_Patch\<close> is \<^verbatim>\<open>vDSO.patch\<close> where it differs from the tree.

  \<^bold>\<open>Firmware.\<close> \<open>Acpi\<close> has the table header and the contract of a checksum, a locale that \<open>Hw_Info\<close>
  (\<^verbatim>\<open>HardwareInfoApp.c\<close>) interprets; \<open>Hello_World\<close> is \<^verbatim>\<open>HelloWorld.c\<close> and \<open>Efi_Hwinfo\<close> is
  \<^verbatim>\<open>efi_custom_hwinfo.c\<close>, with numbers printed by \<open>Decimal\<close>. Shown: tables are found, changed and installed
  with a correct checksum, and sysfs shows what the firmware installed.

  \<^bold>\<open>User space and patches.\<close> \<open>Byte_File\<close> is the contract of a file that is written by offset, a locale
  that \<open>Fuse_Files\<close> interprets on \<^verbatim>\<open>hello_fuse.py\<close> and \<^verbatim>\<open>GPT_FUSE.py\<close>. \<open>Mmap_File\<close> is \<^verbatim>\<open>memctrl/mmap/impl.c\<close>, \<open>Xattr\<close>
  is \<^verbatim>\<open>filesystem/inode/impl.c\<close>, \<open>Tcpdump\<close> is \<^verbatim>\<open>custom_tcpdump.c\<close>, \<open>Socket_Fair\<close> is \<^verbatim>\<open>socket.patch\<close> and \<open>Ramfs_Sync\<close>
  is \<^verbatim>\<open>ramfs.patch\<close>. Shown: what each leaves in the files, descriptors, mappings, counters and
  allocations on every path, and that the packet decoder inverts the encoding.

  \<^bold>\<open>Loops and bounds.\<close> Loops over lists are structural recursion. \<open>walk_loop\<close> may not end on an arbitrary
  heap and is a \<open>partial_function\<close>; it is shown to end on a process tree. The step relations of \<open>Kv_Conc\<close>
  and \<open>Vfork\<close> are shown to have no infinite run from the start. No definition uses fuel but \<open>collect\<close> in
  \<open>Ramfs_Sync\<close>, whose bound of 32 is the one of the source.

  \<^bold>\<open>Not modelled.\<close> The prototypes of \<^verbatim>\<open>syscalls.h\<close> have no bodies. The scheduler's structures in \<^verbatim>\<open>sched.h\<close> are
  read only by code outside of these sources, and so are the thread flags and the rescheduling macros.
  The creation of the slab caches in \<^verbatim>\<open>fork.c\<close> only passes sizes to the allocator. The
  \<^verbatim>\<open>.old\<close> and \<^verbatim>\<open>.new\<close> versions of the firmware driver are not built. The test programs and the
  NCCL measurements only call libraries. Memory ordering is sequentially consistent, and interrupts
  do not occur within a step.
\<close>

end
